theory Spec2Isabelle
  imports Main
begin

section \<open>Strings as the script uses them\<close>

text \<open>
  Python strings are modelled as \<open>string\<close>: lists of characters with code points below
  256, read as the first 256 code points of Unicode. The helpers below are Python's
  \<open>in\<close>, \<open>split\<close>, \<open>strip\<close>, \<open>lower\<close> and \<open>upper\<close> on such strings.
\<close>

fun is_prefix :: "string \<Rightarrow> string \<Rightarrow> bool" where
  "is_prefix [] ys = True"
| "is_prefix (x # xs) [] = False"
| "is_prefix (x # xs) (y # ys) = (x = y \<and> is_prefix xs ys)"

text \<open>\<open>contains sub s\<close> is Python's \<open>sub in s\<close>.\<close>

fun contains :: "string \<Rightarrow> string \<Rightarrow> bool" where
  "contains sub [] = (sub = [])"
| "contains sub (c # cs) = (is_prefix sub (c # cs) \<or> contains sub cs)"

text \<open>
  The characters \<open>str.isspace\<close> accepts, which \<open>str.strip()\<close> removes at both ends:
  U+0009 to U+000D, U+001C to U+001F, the space, U+0085 and U+00A0.
\<close>

definition is_space :: "char \<Rightarrow> bool" where
  "is_space c = (c \<in> set [CHR '' '', CHR 0x09, CHR 0x0A, CHR 0x0B, CHR 0x0C, CHR 0x0D,
                            CHR 0x1C, CHR 0x1D, CHR 0x1E, CHR 0x1F, CHR 0x85, CHR 0xA0])"

definition strip :: "string \<Rightarrow> string" where
  "strip s = rev (dropWhile is_space (rev (dropWhile is_space s)))"

fun split_on :: "char \<Rightarrow> string \<Rightarrow> string list" where
  "split_on d [] = [[]]"
| "split_on d (c # cs) =
     (if c = d then [] # split_on d cs
      else (case split_on d cs of [] \<Rightarrow> [[c]] | w # ws \<Rightarrow> (c # w) # ws))"

text \<open>
  \<open>str.lower\<close> maps \<open>A\<close> to \<open>Z\<close> and the capital letters U+00C0 to U+00DE (the
  multiplication sign U+00D7 apart) 32 code points up. \<open>str.upper\<close> maps \<open>a\<close> to \<open>z\<close>
  and the small letters U+00E0 to U+00FE (the division sign U+00F7 apart) 32 code points
  down and the sharp s U+00DF to \<open>SS\<close>; the upper-case forms of U+00B5 and U+00FF lie
  beyond U+00FF and are written as the characters themselves.
\<close>

definition lower_char :: "char \<Rightarrow> char" where
  "lower_char c =
     (let n = of_char c :: nat
      in if (65 \<le> n \<and> n \<le> 90) \<or> (192 \<le> n \<and> n \<le> 222 \<and> n \<noteq> 215) then char_of (n + 32) else c)"

definition upper_char :: "char \<Rightarrow> string" where
  "upper_char c =
     (let n = of_char c :: nat
      in if (97 \<le> n \<and> n \<le> 122) \<or> (224 \<le> n \<and> n \<le> 254 \<and> n \<noteq> 247) then [char_of (n - 32)]
         else if n = 223 then ''SS''
         else [c])"

definition lower :: "string \<Rightarrow> string" where
  "lower s = map lower_char s"

definition upper :: "string \<Rightarrow> string" where
  "upper s = concat (map upper_char s)"

section \<open>Dictionaries\<close>

text \<open>
  A Python \<open>dict\<close> keeps insertion order and has one value per key: an association list
  in which \<open>dict_set\<close> overwrites in place or appends.
\<close>

type_synonym ('k, 'v) dict = "('k \<times> 'v) list"

fun dict_set :: "'k \<Rightarrow> 'v \<Rightarrow> ('k, 'v) dict \<Rightarrow> ('k, 'v) dict" where
  "dict_set k v [] = [(k, v)]"
| "dict_set k v ((k', v') # kvs) =
     (if k = k' then (k, v) # kvs else (k', v') # dict_set k v kvs)"

section \<open>Loading a pre-supplied resource list\<close>

text \<open>
  \<open>get_resources_from_cleanup_log\<close>: every line is stripped and split at \<open>|\<close> into
  type, name and id (in this order). Reading \<open>tokens[1]\<close> or \<open>tokens[2]\<close> of a shorter
  line raises IndexError, which ends the load. The messages printed are collected.
\<close>

datatype py_error = IndexError

type_synonym inventory_file = "(string, (string, string) dict) dict"

definition no_id_message :: "string \<Rightarrow> string" where
  "no_id_message restype = ''Error: resource type '' @ restype @ '' has no ID - ignored!!!''"

definition store_resource :: "string \<Rightarrow> string \<Rightarrow> string \<Rightarrow> inventory_file \<Rightarrow> inventory_file" where
  "store_resource restype resid resname resources =
     (let tres = (case map_of resources restype of None \<Rightarrow> [] | Some d \<Rightarrow> d)
      in dict_set restype (dict_set resid resname tres) resources)"

definition load_line :: "string \<Rightarrow> inventory_file \<times> string list \<Rightarrow> py_error + inventory_file \<times> string list" where
  "load_line line = (\<lambda>(resources, printed).
     (case split_on (CHR ''|'') (strip line) of
        restype # resname # resid # _ \<Rightarrow>
          (if resid = [] then
             (if restype \<noteq> ''keypairs''
              then Inr (store_resource restype resid resname resources,
                        printed @ [no_id_message restype])
              else Inr (store_resource restype ''0'' resname resources, printed))
           else Inr (store_resource restype resid resname resources, printed))
      | _ \<Rightarrow> Inl IndexError))"

fun load_lines :: "string list \<Rightarrow> inventory_file \<times> string list \<Rightarrow> py_error + inventory_file \<times> string list" where
  "load_lines [] acc = Inr acc"
| "load_lines (line # rest) acc =
     (case load_line line acc of Inl e \<Rightarrow> Inl e | Inr acc' \<Rightarrow> load_lines rest acc')"

definition get_resources_from_cleanup_log :: "string list \<Rightarrow> py_error + inventory_file \<times> string list" where
  "get_resources_from_cleanup_log content = load_lines content ([], [])"

section \<open>Discovery: from listed resources to the id-to-name dictionary\<close>

text \<open>
  A listed resource as \<open>build_resource_dict\<close> reads it: its id, its \<open>name\<close> attribute
  (\<open>None\<close> when the object has none, in which case the id is used), its description (the
  empty string when absent or \<open>None\<close>) and, for floating-IP-shaped resources, its address.
  The compiled pattern \<open>resource_name_re\<close> enters through its \<open>search\<close> method, a
  predicate on strings.
\<close>

record res =
  res_id :: string
  res_name :: "string option"
  res_description :: string
  res_floating_ip_address :: "string option"

definition truncated_desc :: "string \<Rightarrow> string" where
  "truncated_desc resdesc = (if length resdesc > 50 then take 50 resdesc @ ''...'' else resdesc)"

definition display_name :: "res \<Rightarrow> string" where
  "display_name r =
     (case res_floating_ip_address r of
        Some addr \<Rightarrow>
          (if res_description r \<noteq> []
           then addr @ '' (desc: '' @ truncated_desc (res_description r) @ '')''
           else addr)
      | None \<Rightarrow> (case res_name r of None \<Rightarrow> res_id r | Some n \<Rightarrow> n))"

definition name_matches :: "(string \<Rightarrow> bool) \<Rightarrow> res \<Rightarrow> bool" where
  "name_matches search r =
     (display_name r \<noteq> [] \<and>
      (search (display_name r) \<or> (res_description r \<noteq> [] \<and> search (res_description r))))"

definition build_resource_dict :: "(string \<Rightarrow> bool) \<Rightarrow> res list \<Rightarrow> (string, string) dict" where
  "build_resource_dict search res_list =
     fold (\<lambda>r resources. if name_matches search r
                          then dict_set (res_id r) (display_name r) resources
                          else resources) res_list []"

text \<open>
  What \<open>re.compile('^test-.*$').search\<close> accepts: the string starts with \<open>test-\<close> and the
  rest holds no line feed, except possibly as its last character.
\<close>

definition search_test_prefix :: "string \<Rightarrow> bool" where
  "search_test_prefix s = (is_prefix ''test-'' s \<and> CHR 0x0A \<notin> set (butlast (drop 5 s)))"

section \<open>The control-plane connection and what a run leaves behind\<close>

text \<open>
  An exception as the handlers inspect it: \<open>str(type(e))\<close>, \<open>str(e)\<close>, and whether it is
  an instance of \<open>os_exceptions.ResourceNotFound\<close> (the test of an
  \<open>except os_exceptions.ResourceNotFound\<close> clause).
\<close>

record exc =
  exc_type :: string
  exc_msg :: string
  exc_resource_not_found :: bool

definition is_not_found_error :: "exc \<Rightarrow> bool" where
  "is_not_found_error e = (contains ''NotFound'' (exc_type e) \<or> contains ''404'' (exc_msg e))"

definition is_conflict_error :: "exc \<Rightarrow> bool" where
  "is_conflict_error e = (contains ''ConflictException'' (exc_type e) \<or> contains ''409'' (exc_msg e) \<or>
                           contains ''Conflict'' (exc_type e))"

text \<open>The objects the SDK returns, with the attributes the script reads.\<close>

record address =
  address_addr :: string
  address_type :: "string option"

record server =
  addresses :: "(string \<times> address list) list"

record floating_ip =
  fip_id :: string
  floating_ip_address :: string
  fip_description :: string
  fip_router_id :: "string option"
  fip_port_id :: "string option"

record fixed_ip =
  subnet_id :: string
  ip_address :: string

record port =
  port_id :: string
  port_name :: "string option"
  device_owner :: string
  device_id :: string
  fixed_ips :: "fixed_ip list"

record router =
  external_gateway_info :: "string option"

record load_balancer =
  provisioning_status :: string

datatype stack = Stack string

datatype port_query = AllPorts | ByDevice string | ByNetwork string

text \<open>
  Every method of the connection the script calls, with its arguments. \<open>DeleteVolume\<close> is
  \<open>delete_volume(id, force=True)\<close>, \<open>DeleteLoadBalancer\<close> is
  \<open>delete_load_balancer(id, cascade=True)\<close>, \<open>UpdateRouter\<close> is
  \<open>update_router(id, external_gateway_info=None)\<close>, \<open>RemoveInterfaceFromRouter r sn\<close> is
  \<open>remove_interface_from_router(r, subnet_id=sn)\<close>.
\<close>

datatype call =
    GetServer string | DeleteServer string
  | GetFlavor string | DeleteFlavor string
  | DeleteKeypair string
  | GetImage string | DeleteImage string
  | GetVolume string | DeleteVolume string
  | GetSnapshot string | DeleteSnapshot string
  | ListIps | GetIp string | DeleteIp string
  | ListPorts port_query | GetPort "string option" | DeletePort string
  | GetRouter string | UpdateRouter string
  | RemoveInterfaceFromRouter string string | DeleteRouter string
  | GetNetwork string | DeleteNetwork string
  | GetSecurityGroup string | DeleteSecurityGroup string
  | GetLoadBalancer string | DeleteLoadBalancer string
  | GetStack string | DeleteStack stack | WaitForDelete stack
  | DeleteZone string

text \<open>
  The connection is an external collaborator: a state \<open>'s\<close> of the control plane and,
  for each method, a function from the state to the method's result (an exception or a
  value) and the next state. Methods whose value the script never reads go through
  \<open>invoke\<close>; the others have a field of their own.
\<close>

record 's conn =
  invoke :: "call \<Rightarrow> 's \<Rightarrow> exc option \<times> 's"
  get_server :: "string \<Rightarrow> 's \<Rightarrow> (exc + server) \<times> 's"
  ips :: "'s \<Rightarrow> (exc + floating_ip list) \<times> 's"
  get_ip :: "string \<Rightarrow> 's \<Rightarrow> (exc + floating_ip) \<times> 's"
  ports :: "port_query \<Rightarrow> 's \<Rightarrow> (exc + port list) \<times> 's"
  get_port :: "string option \<Rightarrow> 's \<Rightarrow> (exc + port) \<times> 's"
  get_router :: "string \<Rightarrow> 's \<Rightarrow> (exc + router) \<times> 's"
  get_load_balancer :: "string \<Rightarrow> 's \<Rightarrow> (exc + load_balancer) \<times> 's"
  get_stack :: "string \<Rightarrow> 's \<Rightarrow> (exc + stack) \<times> 's"

text \<open>
  A run is observed through its events, in order: each call issued with the exception it
  raised (if any), each \<open>time.sleep\<close>, and each line of \<open>report_deletion\<close>,
  \<open>report_not_found\<close> and \<open>report_error\<close>. Progress lines (those printed with the prefix
  \<open>.\<close>) carry no outcome and are not recorded.
\<close>

datatype outcome = Deleted | WouldDelete | AlreadyGone | Failed string

datatype event =
    Call call "exc option"
  | Sleep nat
  | Report string string outcome

type_synonym 's act = "'s \<Rightarrow> event list \<times> 's"

definition report_deletion :: "bool \<Rightarrow> string \<Rightarrow> string \<Rightarrow> event" where
  "report_deletion dryrun rtype name = Report rtype name (if dryrun then WouldDelete else Deleted)"

definition report_not_found :: "string \<Rightarrow> string \<Rightarrow> event" where
  "report_not_found rtype name = Report rtype name AlreadyGone"

definition report_error :: "string \<Rightarrow> string \<Rightarrow> string \<Rightarrow> event" where
  "report_error rtype name reason = Report rtype name (Failed reason)"

definition raised :: "exc + 'a \<Rightarrow> exc option" where
  "raised r = (case r of Inl e \<Rightarrow> Some e | Inr v \<Rightarrow> None)"

definition py_str :: "string option \<Rightarrow> string" where
  "py_str v = (case v of None \<Rightarrow> ''None'' | Some s \<Rightarrow> s)"

text \<open>Sequencing of two steps and a \<open>for\<close> loop over a list, threading the state.\<close>

definition seq :: "'s act \<Rightarrow> 's act \<Rightarrow> 's act" where
  "seq f g s = (let (a, s1) = f s; (b, s2) = g s1 in (a @ b, s2))"

fun for_each :: "('x \<Rightarrow> 's act) \<Rightarrow> 'x list \<Rightarrow> 's act" where
  "for_each f [] s = ([], s)"
| "for_each f (x # xs) s = seq (f x) (for_each f xs) s"

text \<open>
  The shape shared by the simple loops: inside one \<open>try\<close>, an optional call, then the
  success report; any exception goes to the loop's handler.
\<close>

definition try_call :: "'s conn \<Rightarrow> call option \<Rightarrow> event \<Rightarrow> (exc \<Rightarrow> event) \<Rightarrow> 's act" where
  "try_call conn c done handler s =
     (case c of
        None \<Rightarrow> ([done], s)
      | Some c' \<Rightarrow>
          (case invoke conn c' s of
             (None, s1) \<Rightarrow> ([Call c' None, done], s1)
           | (Some e, s1) \<Rightarrow> ([Call c' (Some e), handler e], s1)))"

text \<open>
  The handler most loops use:
  \<open>if "NotFound" in str(type(e)) or "404" in str(e): report_not_found else report_error\<close>.
\<close>

definition report_failure :: "string \<Rightarrow> string \<Rightarrow> exc \<Rightarrow> event" where
  "report_failure rtype name e =
     (if is_not_found_error e then report_not_found rtype name
      else report_error rtype name (exc_msg e))"

text \<open>The inventory of a run: for each kind, the dictionary from id to display name.\<close>

record inventory =
  instances :: "(string, string) dict"
  flavors :: "(string, string) dict"
  keypairs :: "(string, string) dict"
  images :: "(string, string) dict"
  volumes :: "(string, string) dict"
  volume_snapshots :: "(string, string) dict"
  loadbalancers :: "(string, string) dict"
  floating_ips :: "(string, string) dict"
  sec_groups :: "(string, string) dict"
  networks :: "(string, string) dict"
  routers :: "(string, string) dict"
  dns_zones :: "(string, string) dict"
  heat_stacks :: "(string, string) dict"

section \<open>ResourceMonitor\<close>

text \<open>
  \<open>verify_resource_deleted\<close>: the \<open>if\<close>/\<open>elif\<close> chain on \<open>resource_type.upper()\<close>
  chooses the method to poll; an unknown type polls nothing.
\<close>

definition probe :: "'s conn \<Rightarrow> string \<Rightarrow> string \<Rightarrow> 's \<Rightarrow> (call \<times> exc option \<times> 's) option" where
  "probe conn rt resource_id s =
     (if rt \<in> set [''INSTANCE'', ''SERVER''] then
        (case get_server conn resource_id s of (r, s1) \<Rightarrow> Some (GetServer resource_id, raised r, s1))
      else if rt = ''FLAVOR'' then
        (case invoke conn (GetFlavor resource_id) s of (r, s1) \<Rightarrow> Some (GetFlavor resource_id, r, s1))
      else if rt = ''VOLUME'' then
        (case invoke conn (GetVolume resource_id) s of (r, s1) \<Rightarrow> Some (GetVolume resource_id, r, s1))
      else if rt = ''SNAPSHOT'' then
        (case invoke conn (GetSnapshot resource_id) s of (r, s1) \<Rightarrow> Some (GetSnapshot resource_id, r, s1))
      else if rt = ''NETWORK'' then
        (case invoke conn (GetNetwork resource_id) s of (r, s1) \<Rightarrow> Some (GetNetwork resource_id, r, s1))
      else if rt = ''ROUTER'' then
        (case get_router conn resource_id s of (r, s1) \<Rightarrow> Some (GetRouter resource_id, raised r, s1))
      else if rt = ''PORT'' then
        (case get_port conn (Some resource_id) s of
           (r, s1) \<Rightarrow> Some (GetPort (Some resource_id), raised r, s1))
      else if rt = ''SECURITY_GROUP'' then
        (case invoke conn (GetSecurityGroup resource_id) s of
           (r, s1) \<Rightarrow> Some (GetSecurityGroup resource_id, r, s1))
      else if rt = ''LOAD BALANCER'' then
        (case get_load_balancer conn resource_id s of
           (r, s1) \<Rightarrow> Some (GetLoadBalancer resource_id, raised r, s1))
      else if rt = ''IMAGE'' then
        (case invoke conn (GetImage resource_id) s of (r, s1) \<Rightarrow> Some (GetImage resource_id, r, s1))
      else None)"

text \<open>
  One pass of the \<open>for attempt in range(max_attempts)\<close> loop per unit of the counter.
  Both \<open>except\<close> clauses (ResourceNotFound and any other exception) return True; falling
  out of the loop returns False.
\<close>

fun verify_loop :: "'s conn \<Rightarrow> string \<Rightarrow> string \<Rightarrow> nat \<Rightarrow> nat \<Rightarrow> 's \<Rightarrow> bool \<times> event list \<times> 's" where
  "verify_loop conn resource_type resource_id delay 0 s = (False, [], s)"
| "verify_loop conn resource_type resource_id delay (Suc n) s =
     (case probe conn (upper resource_type) resource_id s of
        None \<Rightarrow>
          (case verify_loop conn resource_type resource_id delay n s of
             (b, evs, s2) \<Rightarrow> (b, Sleep delay # evs, s2))
      | Some (c, None, s1) \<Rightarrow>
          (case verify_loop conn resource_type resource_id delay n s1 of
             (b, evs, s2) \<Rightarrow> (b, Sleep delay # Call c None # evs, s2))
      | Some (c, Some e, s1) \<Rightarrow>
          (if exc_resource_not_found e
           then (True, [Sleep delay, Call c (Some e)], s1)
           else (True, [Sleep delay, Call c (Some e)], s1)))"

definition verify_resource_deleted ::
  "'s conn \<Rightarrow> bool \<Rightarrow> string \<Rightarrow> string \<Rightarrow> nat \<Rightarrow> nat \<Rightarrow> 's \<Rightarrow> bool \<times> event list \<times> 's" where
  "verify_resource_deleted conn dryrun resource_type resource_id max_attempts delay s =
     (if dryrun then (True, [], s)
      else verify_loop conn resource_type resource_id delay max_attempts s)"

section \<open>StorageCleaner\<close>

text \<open>
  Volumes, then volume snapshots. A dry run probes with \<open>get_volume\<close> / \<open>get_snapshot\<close>
  instead of deleting. The handler is \<open>except os_exceptions.ResourceNotFound\<close> followed by
  \<open>except Exception\<close>.
\<close>

definition storage_handler :: "string \<Rightarrow> string \<Rightarrow> exc \<Rightarrow> event" where
  "storage_handler rtype name e =
     (if exc_resource_not_found e then report_not_found rtype name
      else report_error rtype name (exc_msg e))"

definition clean_volume :: "'s conn \<Rightarrow> bool \<Rightarrow> string \<times> string \<Rightarrow> 's act" where
  "clean_volume conn dryrun = (\<lambda>(id, name).
     try_call conn (Some (if dryrun then GetVolume id else DeleteVolume id))
       (report_deletion dryrun ''VOLUME'' name) (storage_handler ''VOLUME'' name))"

definition clean_snapshot :: "'s conn \<Rightarrow> bool \<Rightarrow> string \<times> string \<Rightarrow> 's act" where
  "clean_snapshot conn dryrun = (\<lambda>(id, name).
     try_call conn (Some (if dryrun then GetSnapshot id else DeleteSnapshot id))
       (report_deletion dryrun ''VOLUME SNAPSHOT'' name) (storage_handler ''VOLUME SNAPSHOT'' name))"

definition storage_clean :: "'s conn \<Rightarrow> bool \<Rightarrow> inventory \<Rightarrow> 's act" where
  "storage_clean conn dryrun resources =
     seq (for_each (clean_volume conn dryrun) (volumes resources))
         (for_each (clean_snapshot conn dryrun) (volume_snapshots resources))"

section \<open>ComputeCleaner\<close>

definition get_instance_floating_ips :: "server \<Rightarrow> string list" where
  "get_instance_floating_ips instance =
     (if addresses instance = [] then []
      else concat (map (\<lambda>(net, addrs).
             map address_addr (filter (\<lambda>a. address_type a = Some ''floating'') addrs))
             (addresses instance)))"

text \<open>
  \<open>_delete_floating_ips\<close>: lists all floating IPs once (an exception of the listing is
  not caught here: it is the first component of the result), then deletes the first listed
  object with each address; a failed delete is reported as an error whatever the exception.
\<close>

definition delete_fip_by_address :: "'s conn \<Rightarrow> floating_ip list \<Rightarrow> string \<Rightarrow> 's act" where
  "delete_fip_by_address conn fip_lst fip_addr s =
     (case find (\<lambda>fip_obj. floating_ip_address fip_obj = fip_addr) fip_lst of
        None \<Rightarrow> ([], s)
      | Some fip_obj \<Rightarrow>
          try_call conn (Some (DeleteIp (fip_id fip_obj)))
            (report_deletion False ''FLOATING IP'' fip_addr)
            (\<lambda>e. report_error ''FLOATING IP'' fip_addr (exc_msg e)) s)"

definition delete_floating_ips :: "'s conn \<Rightarrow> string list \<Rightarrow> 's \<Rightarrow> exc option \<times> event list \<times> 's" where
  "delete_floating_ips conn fip_addresses s =
     (if fip_addresses = [] then (None, [], s)
      else (case ips conn s of
              (Inl e, s1) \<Rightarrow> (Some e, [Call ListIps (Some e)], s1)
            | (Inr fip_lst, s1) \<Rightarrow>
                (case for_each (delete_fip_by_address conn fip_lst) fip_addresses s1 of
                   (evs, s2) \<Rightarrow> (None, Call ListIps None # evs, s2))))"

text \<open>
  One instance of the first loop of \<open>clean\<close>. The boolean tells whether the instance
  stays in \<open>deleting_instances\<close> (it is popped on a not-found error).
\<close>

definition instance_handler :: "string \<Rightarrow> exc \<Rightarrow> event list \<Rightarrow> 's \<Rightarrow> bool \<times> event list \<times> 's" where
  "instance_handler ins_name e evs s =
     (\<not> is_not_found_error e, evs @ [report_failure ''INSTANCE'' ins_name e], s)"

definition clean_instance :: "'s conn \<Rightarrow> bool \<Rightarrow> string \<times> string \<Rightarrow> 's \<Rightarrow> bool \<times> event list \<times> 's" where
  "clean_instance conn dryrun = (\<lambda>(ins_id, ins_name) s.
     (case get_server conn ins_id s of
        (Inl e, s1) \<Rightarrow> instance_handler ins_name e [Call (GetServer ins_id) (Some e)] s1
      | (Inr instance, s1) \<Rightarrow>
          (let fips = get_instance_floating_ips instance in
           if dryrun then
             (True, Call (GetServer ins_id) None # map (report_deletion True ''FLOATING IP'') fips
                      @ [report_deletion True ''INSTANCE'' ins_name], s1)
           else
             (case delete_floating_ips conn fips s1 of
                (Some e, evs, s2) \<Rightarrow>
                  instance_handler ins_name e (Call (GetServer ins_id) None # evs) s2
              | (None, evs, s2) \<Rightarrow>
                  (case invoke conn (DeleteServer ins_id) s2 of
                     (Some e, s3) \<Rightarrow>
                       instance_handler ins_name e
                         (Call (GetServer ins_id) None # evs @ [Call (DeleteServer ins_id) (Some e)]) s3
                   | (None, s3) \<Rightarrow>
                       (True, Call (GetServer ins_id) None # evs @ [Call (DeleteServer ins_id) None],
                        s3))))))"

fun clean_instances ::
  "'s conn \<Rightarrow> bool \<Rightarrow> (string, string) dict \<Rightarrow> 's \<Rightarrow> (string, string) dict \<times> event list \<times> 's" where
  "clean_instances conn dryrun [] s = ([], [], s)"
| "clean_instances conn dryrun (ins # rest) s =
     (case clean_instance conn dryrun ins s of
        (keep, evs, s1) \<Rightarrow>
          (case clean_instances conn dryrun rest s1 of
             (deleting, evs', s2) \<Rightarrow> ((if keep then ins # deleting else deleting), evs @ evs', s2)))"

text \<open>
  \<open>_wait_for_instance_deletion\<close>: one pass over the instances still being deleted per
  unit of \<open>retry_count\<close> (30 at the start); an instance leaves the dictionary when
  \<open>get_server\<close> raises a not-found error, any other exception is ignored.
\<close>

fun check_instances ::
  "'s conn \<Rightarrow> (string, string) dict \<Rightarrow> 's \<Rightarrow> (string, string) dict \<times> event list \<times> 's" where
  "check_instances conn [] s = ([], [], s)"
| "check_instances conn ((ins_id, ins_name) # rest) s =
     (case get_server conn ins_id s of
        (r, s1) \<Rightarrow>
          (case check_instances conn rest s1 of
             (deleting, evs, s2) \<Rightarrow>
               (case r of
                  Inr instance \<Rightarrow> ((ins_id, ins_name) # deleting, Call (GetServer ins_id) None # evs, s2)
                | Inl e \<Rightarrow>
                    (if is_not_found_error e
                     then (deleting, Call (GetServer ins_id) (Some e)
                                     # report_deletion False ''INSTANCE'' ins_name # evs, s2)
                     else ((ins_id, ins_name) # deleting, Call (GetServer ins_id) (Some e) # evs, s2)))))"

fun wait_loop :: "'s conn \<Rightarrow> nat \<Rightarrow> (string, string) dict \<Rightarrow> 's act" where
  "wait_loop conn 0 deleting_instances s = ([], s)"
| "wait_loop conn (Suc retry_count) deleting_instances s =
     (if deleting_instances = [] then ([], s)
      else (case check_instances conn deleting_instances s of
              (deleting, evs, s1) \<Rightarrow>
                (case wait_loop conn retry_count deleting s1 of
                   (evs', s2) \<Rightarrow>
                     (evs @ (if deleting \<noteq> [] \<and> retry_count > 0 then [Sleep 2] else []) @ evs', s2))))"

definition DEFAULT_INSTANCE_DELETE_RETRIES :: nat where
  "DEFAULT_INSTANCE_DELETE_RETRIES = 30"

definition wait_for_instance_deletion :: "'s conn \<Rightarrow> (string, string) dict \<Rightarrow> 's act" where
  "wait_for_instance_deletion conn deleting_instances =
     wait_loop conn DEFAULT_INSTANCE_DELETE_RETRIES deleting_instances"

definition clean_flavor :: "'s conn \<Rightarrow> bool \<Rightarrow> string \<times> string \<Rightarrow> 's act" where
  "clean_flavor conn dryrun = (\<lambda>(flavor_id, flavor_name).
     try_call conn (if dryrun then None else Some (DeleteFlavor flavor_id))
       (report_deletion dryrun ''FLAVOR'' flavor_name) (report_failure ''FLAVOR'' flavor_name))"

text \<open>A keypair is deleted by its name, not by its id.\<close>

definition clean_keypair :: "'s conn \<Rightarrow> bool \<Rightarrow> string \<times> string \<Rightarrow> 's act" where
  "clean_keypair conn dryrun = (\<lambda>(keypair_id, keypair_name).
     try_call conn (if dryrun then None else Some (DeleteKeypair keypair_name))
       (report_deletion dryrun ''KEYPAIR'' keypair_name) (report_failure ''KEYPAIR'' keypair_name))"

definition clean_image :: "'s conn \<Rightarrow> bool \<Rightarrow> string \<times> string \<Rightarrow> 's act" where
  "clean_image conn dryrun = (\<lambda>(image_id, image_name).
     try_call conn (if dryrun then None else Some (DeleteImage image_id))
       (report_deletion dryrun ''IMAGE'' image_name) (report_failure ''IMAGE'' image_name))"

definition compute_instances :: "'s conn \<Rightarrow> bool \<Rightarrow> inventory \<Rightarrow> 's act" where
  "compute_instances conn dryrun resources s =
     (case clean_instances conn dryrun (instances resources) s of
        (deleting_instances, evs, s1) \<Rightarrow>
          (if \<not> dryrun \<and> deleting_instances \<noteq> []
           then (case wait_for_instance_deletion conn deleting_instances s1 of
                   (evs', s2) \<Rightarrow> (evs @ evs', s2))
           else (evs, s1)))"

definition compute_clean :: "'s conn \<Rightarrow> bool \<Rightarrow> inventory \<Rightarrow> 's act" where
  "compute_clean conn dryrun resources =
     seq (compute_instances conn dryrun resources)
      (seq (for_each (clean_flavor conn dryrun) (flavors resources))
       (seq (for_each (clean_keypair conn dryrun) (keypairs resources))
            (for_each (clean_image conn dryrun) (images resources))))"

section \<open>LoadBalancerCleaner\<close>

definition DEFAULT_RETRY_COUNT :: nat where
  "DEFAULT_RETRY_COUNT = 3"

definition DEFAULT_LB_RETRY_DELAY :: nat where
  "DEFAULT_LB_RETRY_DELAY = 10"

text \<open>
  The \<open>while retry_count > 0\<close> loop for one load balancer; the last argument is
  \<open>retry_count\<close>. The monitor, when there is one, is given by its own dry-run flag.
  \<open>lb_except\<close> is the loop's \<open>except Exception\<close> clause, reached by exceptions that are
  not instances of ResourceNotFound; its first result says whether the loop goes on.
\<close>

definition lb_except :: "string \<Rightarrow> exc \<Rightarrow> nat \<Rightarrow> bool \<times> event list" where
  "lb_except name e n =
     (if contains ''ConflictException'' (exc_type e) \<or> contains ''409'' (exc_msg e) then
        (if n > 0 then (True, [Sleep DEFAULT_LB_RETRY_DELAY])
         else (False, [report_error ''LOAD BALANCER'' name (''Conflict after retries: '' @ exc_msg e)]))
      else (False, [report_error ''LOAD BALANCER'' name (exc_msg e)]))"

fun lb_loop :: "'s conn \<Rightarrow> bool \<Rightarrow> bool option \<Rightarrow> string \<Rightarrow> string \<Rightarrow> nat \<Rightarrow> 's act" where
  "lb_loop conn dryrun monitor lb_id name 0 s = ([], s)"
| "lb_loop conn dryrun monitor lb_id name (Suc n) s =
     (if dryrun then ([report_deletion True ''LOAD BALANCER'' name], s)
      else
        (case get_load_balancer conn lb_id s of
           (Inl e, s1) \<Rightarrow>
             (if exc_resource_not_found e
              then ([Call (GetLoadBalancer lb_id) (Some e), report_not_found ''LOAD BALANCER'' name], s1)
              else (case lb_except name e n of
                      (again, evs) \<Rightarrow>
                        (if again
                         then (case lb_loop conn dryrun monitor lb_id name n s1 of
                                 (evs', s2) \<Rightarrow> (Call (GetLoadBalancer lb_id) (Some e) # evs @ evs', s2))
                         else (Call (GetLoadBalancer lb_id) (Some e) # evs, s1))))
         | (Inr lb, s1) \<Rightarrow>
             (if provisioning_status lb \<in> set [''PENDING_UPDATE'', ''PENDING_CREATE'', ''PENDING_DELETE'']
              then
                (if n > 0
                 then (case lb_loop conn dryrun monitor lb_id name n s1 of
                         (evs', s2) \<Rightarrow>
                           (Call (GetLoadBalancer lb_id) None # Sleep DEFAULT_LB_RETRY_DELAY # evs', s2))
                 else ([Call (GetLoadBalancer lb_id) None,
                        report_error ''LOAD BALANCER'' name
                          (''Still in '' @ provisioning_status lb @ '' state after retries'')], s1))
              else
                (case invoke conn (DeleteLoadBalancer lb_id) s1 of
                   (None, s2) \<Rightarrow>
                     (case (case monitor of
                              None \<Rightarrow> ([], s2)
                            | Some mdry \<Rightarrow>
                                (case verify_resource_deleted conn mdry ''LOAD BALANCER'' lb_id 10 2 s2 of
                                   (b, evs, s3) \<Rightarrow> (evs, s3))) of
                        (evs, s3) \<Rightarrow>
                          ([Call (GetLoadBalancer lb_id) None, Call (DeleteLoadBalancer lb_id) None,
                            report_deletion False ''LOAD BALANCER'' name] @ evs, s3))
                 | (Some e, s2) \<Rightarrow>
                     (if exc_resource_not_found e
                      then ([Call (GetLoadBalancer lb_id) None, Call (DeleteLoadBalancer lb_id) (Some e),
                             report_not_found ''LOAD BALANCER'' name], s2)
                      else (case lb_except name e n of
                              (again, evs) \<Rightarrow>
                                (if again
                                 then (case lb_loop conn dryrun monitor lb_id name n s2 of
                                         (evs', s3) \<Rightarrow>
                                           ([Call (GetLoadBalancer lb_id) None,
                                             Call (DeleteLoadBalancer lb_id) (Some e)] @ evs @ evs', s3))
                                 else ([Call (GetLoadBalancer lb_id) None,
                                        Call (DeleteLoadBalancer lb_id) (Some e)] @ evs, s2))))))))"

definition clean_loadbalancer :: "'s conn \<Rightarrow> bool \<Rightarrow> bool option \<Rightarrow> string \<times> string \<Rightarrow> 's act" where
  "clean_loadbalancer conn dryrun monitor = (\<lambda>(id, name).
     lb_loop conn dryrun monitor id name DEFAULT_RETRY_COUNT)"

definition loadbalancer_clean :: "'s conn \<Rightarrow> bool \<Rightarrow> bool option \<Rightarrow> inventory \<Rightarrow> 's act" where
  "loadbalancer_clean conn dryrun monitor resources =
     for_each (clean_loadbalancer conn dryrun monitor) (loadbalancers resources)"

section \<open>AdvancedServicesCleaner\<close>

text \<open>
  \<open>available_services\<close> is filled by the constructor; \<open>vpn\<close> is always False. The handler
  of both loops tests \<open>"NotFound" in str(e)\<close>, the message of the exception.
\<close>

record available_services =
  dns :: bool
  heat :: bool

definition advanced_handler :: "string \<Rightarrow> string \<Rightarrow> exc \<Rightarrow> event" where
  "advanced_handler rtype name e =
     (if contains ''NotFound'' (exc_msg e) then report_not_found rtype name
      else report_error rtype name (exc_msg e))"

definition clean_stack :: "'s conn \<Rightarrow> bool \<Rightarrow> string \<times> string \<Rightarrow> 's act" where
  "clean_stack conn dryrun = (\<lambda>(stack_id, stack_name) s.
     if dryrun then ([report_deletion True ''HEAT STACK'' stack_name], s)
     else
       (case get_stack conn stack_id s of
          (Inl e, s1) \<Rightarrow>
            ([Call (GetStack stack_id) (Some e), advanced_handler ''HEAT STACK'' stack_name e], s1)
        | (Inr stack, s1) \<Rightarrow>
            (case invoke conn (DeleteStack stack) s1 of
               (Some e, s2) \<Rightarrow>
                 ([Call (GetStack stack_id) None, Call (DeleteStack stack) (Some e),
                   advanced_handler ''HEAT STACK'' stack_name e], s2)
             | (None, s2) \<Rightarrow>
                 (case invoke conn (WaitForDelete stack) s2 of
                    (Some e, s3) \<Rightarrow>
                      ([Call (GetStack stack_id) None, Call (DeleteStack stack) None,
                        Call (WaitForDelete stack) (Some e),
                        advanced_handler ''HEAT STACK'' stack_name e], s3)
                  | (None, s3) \<Rightarrow>
                      ([Call (GetStack stack_id) None, Call (DeleteStack stack) None,
                        Call (WaitForDelete stack) None,
                        report_deletion False ''HEAT STACK'' stack_name], s3)))))"

definition clean_zone :: "'s conn \<Rightarrow> bool \<Rightarrow> string \<times> string \<Rightarrow> 's act" where
  "clean_zone conn dryrun = (\<lambda>(zone_id, zone_name).
     try_call conn (if dryrun then None else Some (DeleteZone zone_id))
       (report_deletion dryrun ''DNS ZONE'' zone_name) (advanced_handler ''DNS ZONE'' zone_name))"

definition advanced_clean :: "'s conn \<Rightarrow> bool \<Rightarrow> available_services \<Rightarrow> inventory \<Rightarrow> 's act" where
  "advanced_clean conn dryrun available resources =
     (if \<not> (dns available \<or> heat available) then (\<lambda>s. ([], s))
      else seq (if heat available then for_each (clean_stack conn dryrun) (heat_stacks resources)
                else (\<lambda>s. ([], s)))
               (if dns available then for_each (clean_zone conn dryrun) (dns_zones resources)
                else (\<lambda>s. ([], s))))"

section \<open>NetworkCleaner\<close>

definition DEFAULT_DESCRIPTION_TRUNCATE_LENGTH :: nat where
  "DEFAULT_DESCRIPTION_TRUNCATE_LENGTH = 30"

definition DEFAULT_ROUTER_FIP_WAIT :: nat where
  "DEFAULT_ROUTER_FIP_WAIT = 5"

text \<open>\<open>_delete_floating_ip\<close>: a dry run reports without calling the connection.\<close>

definition description_info :: "string \<Rightarrow> string" where
  "description_info descr =
     (if descr \<noteq> []
      then '' (desc: '' @ take DEFAULT_DESCRIPTION_TRUNCATE_LENGTH descr @ ''...)''
      else [])"

definition delete_floating_ip :: "'s conn \<Rightarrow> bool \<Rightarrow> floating_ip \<Rightarrow> 's act" where
  "delete_floating_ip conn dryrun fip =
     try_call conn (if dryrun then None else Some (DeleteIp (fip_id fip)))
       (report_deletion dryrun ''FLOATING IP''
          (floating_ip_address fip @ description_info (fip_description fip)))
       (report_failure ''FLOATING IP'' (floating_ip_address fip))"

text \<open>Step 1: the floating IPs of the inventory, each fetched with \<open>get_ip\<close> first.\<close>

definition clean_floating_ip :: "'s conn \<Rightarrow> bool \<Rightarrow> string \<times> string \<Rightarrow> 's act" where
  "clean_floating_ip conn dryrun = (\<lambda>(id, name) s.
     (case get_ip conn id s of
        (Inl e, s1) \<Rightarrow> ([Call (GetIp id) (Some e), report_failure ''FLOATING IP'' name e], s1)
      | (Inr fip, s1) \<Rightarrow>
          (case delete_floating_ip conn dryrun fip s1 of
             (evs, s2) \<Rightarrow> (Call (GetIp id) None # evs, s2))))"

text \<open>
  Step 2: the sweep over all floating IPs; those whose id is a key of the inventory are
  skipped, the others are deleted when the pattern is found in the address, the id or the
  description.
\<close>

definition sweep_floating_ip ::
  "'s conn \<Rightarrow> bool \<Rightarrow> (string \<Rightarrow> bool) \<Rightarrow> inventory \<Rightarrow> floating_ip \<Rightarrow> 's act" where
  "sweep_floating_ip conn dryrun search resources fip s =
     (if fip_id fip \<in> set (map fst (floating_ips resources)) then ([], s)
      else if search (floating_ip_address fip) \<or> search (fip_id fip) \<or> search (fip_description fip)
      then delete_floating_ip conn dryrun fip s
      else ([], s))"

definition sweep_floating_ips ::
  "'s conn \<Rightarrow> bool \<Rightarrow> (string \<Rightarrow> bool) \<Rightarrow> inventory \<Rightarrow> 's act" where
  "sweep_floating_ips conn dryrun search resources s =
     (case ips conn s of
        (Inl e, s1) \<Rightarrow> ([Call ListIps (Some e)], s1)
      | (Inr all_floating_ips, s1) \<Rightarrow>
          (case for_each (sweep_floating_ip conn dryrun search resources) all_floating_ips s1 of
             (evs, s2) \<Rightarrow> (Call ListIps None # evs, s2)))"

text \<open>
  Step 3: the sweep over all ports whose name or id matches; ports of the three system
  device owners are skipped.
\<close>

definition sweep_port :: "'s conn \<Rightarrow> bool \<Rightarrow> (string \<Rightarrow> bool) \<Rightarrow> port \<Rightarrow> 's act" where
  "sweep_port conn dryrun search port s =
     (if search (py_str (port_name port)) \<or> search (port_id port) then
        (if device_owner port \<notin> set [''network:router_interface'', ''network:dhcp'',
                                        ''network:router_gateway'']
         then try_call conn (if dryrun then None else Some (DeletePort (port_id port)))
                (report_deletion dryrun ''PORT'' (py_str (port_name port)))
                (report_failure ''PORT'' (py_str (port_name port))) s
         else ([], s))
      else ([], s))"

definition sweep_ports :: "'s conn \<Rightarrow> bool \<Rightarrow> (string \<Rightarrow> bool) \<Rightarrow> 's act" where
  "sweep_ports conn dryrun search s =
     (case ports conn AllPorts s of
        (Inl e, s1) \<Rightarrow> ([Call (ListPorts AllPorts) (Some e)], s1)
      | (Inr all_ports, s1) \<Rightarrow>
          (case for_each (sweep_port conn dryrun search) all_ports s1 of
             (evs, s2) \<Rightarrow> (Call (ListPorts AllPorts) None # evs, s2)))"

text \<open>
  Step 4, routers. The handler of the router loop reports a conflict as an error at once.
\<close>

definition router_handler :: "string \<Rightarrow> exc \<Rightarrow> event" where
  "router_handler name e =
     (if is_not_found_error e then report_not_found ''ROUTER'' name
      else if contains ''Conflict'' (exc_type e) \<or> contains ''409'' (exc_msg e)
      then report_error ''ROUTER'' name (''Conflict (may have dependencies): '' @ exc_msg e)
      else report_error ''ROUTER'' name (exc_msg e))"

definition is_router_fip_candidate :: "string \<Rightarrow> floating_ip \<Rightarrow> bool" where
  "is_router_fip_candidate router_id fip =
     (fip_router_id fip = Some router_id \<or> (case fip_port_id fip of None \<Rightarrow> False | Some p \<Rightarrow> p \<noteq> []))"

fun collect_router_fips ::
  "'s conn \<Rightarrow> string \<Rightarrow> floating_ip list \<Rightarrow> 's \<Rightarrow> floating_ip list \<times> event list \<times> 's" where
  "collect_router_fips conn router_id [] s = ([], [], s)"
| "collect_router_fips conn router_id (fip # rest) s =
     (if is_router_fip_candidate router_id fip then
        (case get_port conn (fip_port_id fip) s of
           (r, s1) \<Rightarrow>
             (case collect_router_fips conn router_id rest s1 of
                (router_fips, evs, s2) \<Rightarrow>
                  ((case r of Inl e \<Rightarrow> router_fips
                            | Inr port \<Rightarrow> if device_id port = router_id then fip # router_fips
                                           else router_fips),
                   Call (GetPort (fip_port_id fip)) (raised r) # evs, s2)))
      else collect_router_fips conn router_id rest s)"

definition delete_router_fip :: "'s conn \<Rightarrow> floating_ip \<Rightarrow> 's act" where
  "delete_router_fip conn fip s =
     (case invoke conn (DeleteIp (fip_id fip)) s of
        (None, s1) \<Rightarrow> ([Call (DeleteIp (fip_id fip)) None,
                        report_deletion False ''FLOATING IP'' (floating_ip_address fip)], s1)
      | (Some e, s1) \<Rightarrow> ([Call (DeleteIp (fip_id fip)) (Some e)], s1))"

text \<open>
  The local variable \<open>router_fips\<close> is assigned inside the \<open>try\<close> that lists the floating
  IPs and read after it. When the listing raises, the variable keeps what an earlier
  router left in it, or is unbound (\<open>None\<close> here) for the first router, and reading it
  raises UnboundLocalError, which the loop's handler reports for the router.
\<close>

definition router_fips_phase ::
  "'s conn \<Rightarrow> string \<Rightarrow> floating_ip list option \<Rightarrow> 's
     \<Rightarrow> floating_ip list option \<times> event list \<times> 's" where
  "router_fips_phase conn router_id previous s =
     (case ips conn s of
        (Inl e, s1) \<Rightarrow> (previous, [Call ListIps (Some e)], s1)
      | (Inr all_floating_ips, s1) \<Rightarrow>
          (case collect_router_fips conn router_id all_floating_ips s1 of
             (router_fips, evs, s2) \<Rightarrow>
               (case for_each (delete_router_fip conn) router_fips s2 of
                  (evs', s3) \<Rightarrow> (Some router_fips, Call ListIps None # evs @ evs', s3))))"

definition unbound_local_error :: exc where
  "unbound_local_error =
     \<lparr>exc_type = ''<class 'UnboundLocalError'>'',
      exc_msg = ''cannot access local variable 'router_fips' where it is not associated with a value'',
      exc_resource_not_found = False\<rparr>"

definition clear_gateway :: "'s conn \<Rightarrow> string \<Rightarrow> string \<Rightarrow> router \<Rightarrow> 's act" where
  "clear_gateway conn router_id name router s =
     (if external_gateway_info router \<noteq> None then
        (case invoke conn (UpdateRouter router_id) s of
           (None, s1) \<Rightarrow> ([Call (UpdateRouter router_id) None,
                           report_deletion False ''Router Gateway'' name], s1)
         | (Some e, s1) \<Rightarrow> ([Call (UpdateRouter router_id) (Some e)], s1))
      else ([], s))"

definition remove_interface :: "'s conn \<Rightarrow> string \<Rightarrow> port \<Rightarrow> 's act" where
  "remove_interface conn router_id port s =
     (case fixed_ips port of
        [] \<Rightarrow> ([], s)
      | fixed # others \<Rightarrow>
          (case invoke conn (RemoveInterfaceFromRouter router_id (subnet_id fixed)) s of
             (r, s1) \<Rightarrow> ([Call (RemoveInterfaceFromRouter router_id (subnet_id fixed)) r], s1)))"

definition remove_interfaces_and_delete :: "'s conn \<Rightarrow> string \<Rightarrow> string \<Rightarrow> 's act" where
  "remove_interfaces_and_delete conn router_id name s =
     (case ports conn (ByDevice router_id) s of
        (Inl e, s1) \<Rightarrow> ([Call (ListPorts (ByDevice router_id)) (Some e), router_handler name e], s1)
      | (Inr port_list, s1) \<Rightarrow>
          (case seq (for_each (remove_interface conn router_id) port_list)
                    (try_call conn (Some (DeleteRouter router_id))
                       (report_deletion False ''ROUTER'' name) (router_handler name)) s1 of
             (evs, s2) \<Rightarrow> (Call (ListPorts (ByDevice router_id)) None # evs, s2)))"

definition interface_reports :: "port list \<Rightarrow> event list" where
  "interface_reports port_list =
     concat (map (\<lambda>port. case fixed_ips port of
                            [] \<Rightarrow> []
                          | fixed # others \<Rightarrow>
                              [report_deletion True ''Router Interface'' (ip_address fixed)])
                 port_list)"

definition clean_router ::
  "'s conn \<Rightarrow> bool \<Rightarrow> floating_ip list option \<Rightarrow> string \<times> string \<Rightarrow> 's
     \<Rightarrow> floating_ip list option \<times> event list \<times> 's" where
  "clean_router conn dryrun previous = (\<lambda>(id, name) s.
     (case get_router conn id s of
        (Inl e, s1) \<Rightarrow> (previous, [Call (GetRouter id) (Some e), router_handler name e], s1)
      | (Inr router, s1) \<Rightarrow>
          (if dryrun then
             (case ports conn (ByDevice id) s1 of
                (Inl e, s2) \<Rightarrow>
                  (previous,
                   [Call (GetRouter id) None, report_deletion True ''Router Gateway'' name,
                    Call (ListPorts (ByDevice id)) (Some e), router_handler name e], s2)
              | (Inr port_list, s2) \<Rightarrow>
                  (previous,
                   [Call (GetRouter id) None, report_deletion True ''Router Gateway'' name,
                    Call (ListPorts (ByDevice id)) None] @ interface_reports port_list
                    @ [report_deletion True ''ROUTER'' name], s2))
           else
             (case router_fips_phase conn id previous s1 of
                (None, evs, s2) \<Rightarrow>
                  (None, Call (GetRouter id) None # evs @ [router_handler name unbound_local_error], s2)
              | (Some router_fips, evs, s2) \<Rightarrow>
                  (case seq (clear_gateway conn id name router)
                            (remove_interfaces_and_delete conn id name) s2 of
                     (evs', s3) \<Rightarrow>
                       (Some router_fips,
                        Call (GetRouter id) None # evs
                        @ (if router_fips \<noteq> [] then [Sleep DEFAULT_ROUTER_FIP_WAIT] else [])
                        @ evs', s3))))))"

fun clean_routers ::
  "'s conn \<Rightarrow> bool \<Rightarrow> floating_ip list option \<Rightarrow> (string, string) dict \<Rightarrow> 's act" where
  "clean_routers conn dryrun previous [] s = ([], s)"
| "clean_routers conn dryrun previous (r # rest) s =
     (case clean_router conn dryrun previous r s of
        (router_fips, evs, s1) \<Rightarrow>
          (case clean_routers conn dryrun router_fips rest s1 of
             (evs', s2) \<Rightarrow> (evs @ evs', s2)))"

text \<open>
  Step 5, networks: \<open>retry_count = 3\<close> and a \<open>while retry_count > 0\<close> loop per network. A
  live run first deletes the ports still on the network, except those of four system
  device owners; failures there are only printed.
\<close>

definition delete_remaining_port :: "'s conn \<Rightarrow> port \<Rightarrow> 's act" where
  "delete_remaining_port conn port s =
     (if device_owner port \<in> set [''network:dhcp'', ''network:router_interface'',
                                   ''network:router_gateway'', ''network:floatingip'']
      then ([], s)
      else (case invoke conn (DeletePort (port_id port)) s of
              (r, s1) \<Rightarrow> ([Call (DeletePort (port_id port)) r], s1)))"

definition delete_remaining_ports :: "'s conn \<Rightarrow> string \<Rightarrow> 's act" where
  "delete_remaining_ports conn net_id s =
     (case ports conn (ByNetwork net_id) s of
        (Inl e, s1) \<Rightarrow> ([Call (ListPorts (ByNetwork net_id)) (Some e)], s1)
      | (Inr remaining_ports, s1) \<Rightarrow>
          (case for_each (delete_remaining_port conn) remaining_ports s1 of
             (evs, s2) \<Rightarrow> (Call (ListPorts (ByNetwork net_id)) None # evs, s2)))"

definition network_in_use :: "exc \<Rightarrow> bool" where
  "network_in_use e =
     (contains ''NetworkInUse'' (exc_type e) \<or> contains ''409'' (exc_msg e) \<or>
      contains ''in use'' (lower (exc_msg e)) \<or> contains ''ports still in use'' (lower (exc_msg e)))"

fun network_loop :: "'s conn \<Rightarrow> bool \<Rightarrow> string \<Rightarrow> string \<Rightarrow> nat \<Rightarrow> 's act" where
  "network_loop conn dryrun net_id name 0 s = ([], s)"
| "network_loop conn dryrun net_id name (Suc n) s =
     (case (if dryrun then ([], s) else delete_remaining_ports conn net_id s) of
        (evs, s1) \<Rightarrow>
          (let c = (if dryrun then GetNetwork net_id else DeleteNetwork net_id) in
           case invoke conn c s1 of
             (None, s2) \<Rightarrow> (evs @ [Call c None, report_deletion dryrun ''NETWORK'' name], s2)
           | (Some e, s2) \<Rightarrow>
               (if is_not_found_error e
                then (evs @ [Call c (Some e), report_not_found ''NETWORK'' name], s2)
                else if network_in_use e then
                  (if n > 0
                   then (case network_loop conn dryrun net_id name n s2 of
                           (evs', s3) \<Rightarrow> (evs @ [Call c (Some e), Sleep 5] @ evs', s3))
                   else (evs @ [Call c (Some e),
                                report_error ''NETWORK'' name
                                  (''Still has dependencies after retries: '' @ exc_msg e)], s2))
                else (evs @ [Call c (Some e), report_error ''NETWORK'' name (exc_msg e)], s2))))"

definition clean_network :: "'s conn \<Rightarrow> bool \<Rightarrow> string \<times> string \<Rightarrow> 's act" where
  "clean_network conn dryrun = (\<lambda>(id, name). network_loop conn dryrun id name 3)"

text \<open>
  Step 6, security groups, after a pause of five seconds in a live run: \<open>retry_count = 3\<close>
  and a \<open>while retry_count > 0\<close> loop per group.
\<close>

definition sec_group_in_use :: "exc \<Rightarrow> bool" where
  "sec_group_in_use e =
     (contains ''Conflict'' (exc_type e) \<or> contains ''409'' (exc_msg e) \<or>
      contains ''in use'' (lower (exc_msg e)))"

fun sec_group_loop :: "'s conn \<Rightarrow> bool \<Rightarrow> string \<Rightarrow> string \<Rightarrow> nat \<Rightarrow> 's act" where
  "sec_group_loop conn dryrun sg_id name 0 s = ([], s)"
| "sec_group_loop conn dryrun sg_id name (Suc n) s =
     (let c = (if dryrun then GetSecurityGroup sg_id else DeleteSecurityGroup sg_id) in
      case invoke conn c s of
        (None, s1) \<Rightarrow> ([Call c None, report_deletion dryrun ''SECURITY GROUP'' name], s1)
      | (Some e, s1) \<Rightarrow>
          (if is_not_found_error e
           then ([Call c (Some e), report_not_found ''SECURITY GROUP'' name], s1)
           else if sec_group_in_use e then
             (if n > 0
              then (case sec_group_loop conn dryrun sg_id name n s1 of
                      (evs', s2) \<Rightarrow> ([Call c (Some e), Sleep 5] @ evs', s2))
              else ([Call c (Some e),
                     report_error ''SECURITY GROUP'' name
                       (''Still in use after retries: '' @ exc_msg e)], s1))
           else ([Call c (Some e), report_error ''SECURITY GROUP'' name (exc_msg e)], s1)))"

definition clean_sec_group :: "'s conn \<Rightarrow> bool \<Rightarrow> string \<times> string \<Rightarrow> 's act" where
  "clean_sec_group conn dryrun = (\<lambda>(id, name). sec_group_loop conn dryrun id name 3)"

definition clean_sec_groups :: "'s conn \<Rightarrow> bool \<Rightarrow> (string \<times> string) list \<Rightarrow> 's act" where
  "clean_sec_groups conn dryrun security_groups_to_delete s =
     (if security_groups_to_delete \<noteq> [] then
        (case for_each (clean_sec_group conn dryrun) security_groups_to_delete s of
           (evs, s1) \<Rightarrow> ((if \<not> dryrun then [Sleep 5] else []) @ evs, s1))
      else ([], s))"

definition network_before_sec_groups ::
  "'s conn \<Rightarrow> bool \<Rightarrow> (string \<Rightarrow> bool) \<Rightarrow> inventory \<Rightarrow> 's act" where
  "network_before_sec_groups conn dryrun search resources =
     seq (for_each (clean_floating_ip conn dryrun) (floating_ips resources))
      (seq (sweep_floating_ips conn dryrun search resources)
       (seq (sweep_ports conn dryrun search)
        (seq (clean_routers conn dryrun None (routers resources))
             (for_each (clean_network conn dryrun) (networks resources)))))"

definition network_clean :: "'s conn \<Rightarrow> bool \<Rightarrow> (string \<Rightarrow> bool) \<Rightarrow> inventory \<Rightarrow> 's act" where
  "network_clean conn dryrun search resources =
     seq (network_before_sec_groups conn dryrun search resources)
         (clean_sec_groups conn dryrun (sec_groups resources))"

section \<open>OpenStackCleaners\<close>

text \<open>
  The cleaners are built and run in the order of the list in the constructor; the monitor
  handed to the load-balancer cleaner has the dry-run flag of the run. Each event of the
  run is paired with the category of the cleaner that produced it.
\<close>

datatype category = AdvancedServices | Compute | Storage | LoadBalancer | Network

definition cleaner_types :: "category list" where
  "cleaner_types = [AdvancedServices, Compute, Storage, LoadBalancer, Network]"

fun cleaner_clean ::
  "'s conn \<Rightarrow> bool \<Rightarrow> (string \<Rightarrow> bool) \<Rightarrow> available_services \<Rightarrow> inventory \<Rightarrow> category \<Rightarrow> 's act" where
  "cleaner_clean conn dryrun search available resources AdvancedServices =
     advanced_clean conn dryrun available resources"
| "cleaner_clean conn dryrun search available resources Compute =
     compute_clean conn dryrun resources"
| "cleaner_clean conn dryrun search available resources Storage =
     storage_clean conn dryrun resources"
| "cleaner_clean conn dryrun search available resources LoadBalancer =
     loadbalancer_clean conn dryrun (Some dryrun) resources"
| "cleaner_clean conn dryrun search available resources Network =
     network_clean conn dryrun search resources"

fun run_cleaners :: "(category \<Rightarrow> 's act) \<Rightarrow> category list \<Rightarrow> 's \<Rightarrow> (category \<times> event) list \<times> 's" where
  "run_cleaners clean [] s = ([], s)"
| "run_cleaners clean (c # cs) s =
     (case clean c s of
        (evs, s1) \<Rightarrow>
          (case run_cleaners clean cs s1 of
             (tagged, s2) \<Rightarrow> (map (Pair c) evs @ tagged, s2)))"

definition openstack_clean ::
  "'s conn \<Rightarrow> bool \<Rightarrow> (string \<Rightarrow> bool) \<Rightarrow> available_services \<Rightarrow> inventory \<Rightarrow> 's
     \<Rightarrow> (category \<times> event) list \<times> 's" where
  "openstack_clean conn dryrun search available resources =
     run_cleaners (cleaner_clean conn dryrun search available resources) cleaner_types"

section \<open>Observing a run\<close>

text \<open>The calls of a list of events, in the order they were issued.\<close>

fun calls_of :: "event list \<Rightarrow> call list" where
  "calls_of [] = []"
| "calls_of (Call c r # evs) = c # calls_of evs"
| "calls_of (Sleep n # evs) = calls_of evs"
| "calls_of (Report rtype name out # evs) = calls_of evs"

text \<open>The calls that change the control plane: every delete, the router update and the
  removal of a router interface.\<close>

fun mutating :: "call \<Rightarrow> bool" where
  "mutating (DeleteServer i) = True"
| "mutating (DeleteFlavor i) = True"
| "mutating (DeleteKeypair i) = True"
| "mutating (DeleteImage i) = True"
| "mutating (DeleteVolume i) = True"
| "mutating (DeleteSnapshot i) = True"
| "mutating (DeleteIp i) = True"
| "mutating (DeletePort i) = True"
| "mutating (UpdateRouter i) = True"
| "mutating (RemoveInterfaceFromRouter i sn) = True"
| "mutating (DeleteRouter i) = True"
| "mutating (DeleteNetwork i) = True"
| "mutating (DeleteSecurityGroup i) = True"
| "mutating (DeleteLoadBalancer i) = True"
| "mutating (DeleteStack st) = True"
| "mutating (DeleteZone i) = True"
| "mutating c = False"

text \<open>
  \<open>get(kind, id)\<close>: for each kind name, the call that fetches a resource of the kind and
  the method of the connection that answers it, with the value fetched left out
  (\<open>fetch\<close>). Eleven names for ten methods.
\<close>

definition fetch :: "('s \<Rightarrow> (exc + 'a) \<times> 's) \<Rightarrow> 's \<Rightarrow> exc option \<times> 's" where
  "fetch g s = (raised (fst (g s)), snd (g s))"

definition kind_table :: "'s conn \<Rightarrow> string \<Rightarrow> (string \<times> call \<times> ('s \<Rightarrow> exc option \<times> 's)) list" where
  "kind_table conn rid =
     [(''INSTANCE'', GetServer rid, fetch (get_server conn rid)),
      (''SERVER'', GetServer rid, fetch (get_server conn rid)),
      (''FLAVOR'', GetFlavor rid, invoke conn (GetFlavor rid)),
      (''VOLUME'', GetVolume rid, invoke conn (GetVolume rid)),
      (''SNAPSHOT'', GetSnapshot rid, invoke conn (GetSnapshot rid)),
      (''NETWORK'', GetNetwork rid, invoke conn (GetNetwork rid)),
      (''ROUTER'', GetRouter rid, fetch (get_router conn rid)),
      (''PORT'', GetPort (Some rid), fetch (get_port conn (Some rid))),
      (''SECURITY_GROUP'', GetSecurityGroup rid, invoke conn (GetSecurityGroup rid)),
      (''LOAD BALANCER'', GetLoadBalancer rid, fetch (get_load_balancer conn rid)),
      (''IMAGE'', GetImage rid, invoke conn (GetImage rid))]"

text \<open>The state of the control plane after \<open>k\<close> polls with the method \<open>g\<close>.\<close>

fun poll_state :: "('s \<Rightarrow> exc option \<times> 's) \<Rightarrow> nat \<Rightarrow> 's \<Rightarrow> 's" where
  "poll_state g 0 s = s"
| "poll_state g (Suc k) s = poll_state g k (snd (g s))"

text \<open>
  A scripted control plane for concrete runs. Its state is the number of calls answered
  so far; \<open>script c n\<close> is the exception call \<open>c\<close> raises when it is the \<open>n\<close>-th call, if
  any. The listings return the given floating IPs and ports; a floating IP or port that
  is not listed is reported missing by \<open>get_ip\<close> / \<open>get_port\<close>.
\<close>

definition missing :: exc where
  "missing = \<lparr>exc_type = ''<class 'openstack.exceptions.NotFoundException'>'',
              exc_msg = ''No resource found'', exc_resource_not_found = True\<rparr>"

definition port_selected :: "port_query \<Rightarrow> port \<Rightarrow> bool" where
  "port_selected q p = (case q of AllPorts \<Rightarrow> True | ByDevice d \<Rightarrow> device_id p = d
                                 | ByNetwork n \<Rightarrow> False)"

definition answer :: "(call \<Rightarrow> nat \<Rightarrow> exc option) \<Rightarrow> call \<Rightarrow> 'a \<Rightarrow> nat \<Rightarrow> (exc + 'a) \<times> nat" where
  "answer script c v n = ((case script c n of Some e \<Rightarrow> Inl e | None \<Rightarrow> Inr v), Suc n)"

definition scripted_conn ::
  "(call \<Rightarrow> nat \<Rightarrow> exc option) \<Rightarrow> floating_ip list \<Rightarrow> port list \<Rightarrow> nat conn" where
  "scripted_conn script fips prts =
     \<lparr>invoke = (\<lambda>c n. (script c n, Suc n)),
      get_server = (\<lambda>i. answer script (GetServer i) \<lparr>addresses = []\<rparr>),
      ips = answer script ListIps fips,
      get_ip = (\<lambda>i n. (case find (\<lambda>f. fip_id f = i) fips of
                           None \<Rightarrow> (Inl missing, Suc n)
                         | Some f \<Rightarrow> answer script (GetIp i) f n)),
      ports = (\<lambda>q. answer script (ListPorts q) (filter (port_selected q) prts)),
      get_port = (\<lambda>p n. (case find (\<lambda>x. Some (port_id x) = p) prts of
                            None \<Rightarrow> (Inl missing, Suc n)
                          | Some x \<Rightarrow> answer script (GetPort p) x n)),
      get_router = (\<lambda>i. answer script (GetRouter i) \<lparr>external_gateway_info = Some ''ext-net''\<rparr>),
      get_load_balancer = (\<lambda>i. answer script (GetLoadBalancer i) \<lparr>provisioning_status = ''ACTIVE''\<rparr>),
      get_stack = (\<lambda>i. answer script (GetStack i) (Stack i))\<rparr>"

text \<open>
  A server with a fixed and a floating address, and the scripted control plane on which
  \<open>get_server\<close> returns a given server.
\<close>

definition server_with_fip :: server where
  "server_with_fip =
     \<lparr>addresses = [(''private'', [\<lparr>address_addr = ''10.0.0.5'', address_type = Some ''fixed''\<rparr>,
                                   \<lparr>address_addr = ''203.0.113.7'', address_type = Some ''floating''\<rparr>])]\<rparr>"

definition scripted_conn_with_server ::
  "(call \<Rightarrow> nat \<Rightarrow> exc option) \<Rightarrow> floating_ip list \<Rightarrow> port list \<Rightarrow> server \<Rightarrow> nat conn" where
  "scripted_conn_with_server script fips prts srv =
     (scripted_conn script fips prts)\<lparr>get_server := (\<lambda>i. answer script (GetServer i) srv)\<rparr>"

definition conflict_409 :: exc where
  "conflict_409 = \<lparr>exc_type = ''<class 'openstack.exceptions.ConflictException'>'',
                   exc_msg = ''409: resource in use'', exc_resource_not_found = False\<rparr>"


text \<open>
  The calls each stateful step of a cleaner can issue, as predicates on calls; the flag
  is the dry-run flag of the run.
\<close>

fun instance_call :: "bool \<Rightarrow> call \<Rightarrow> bool" where
  "instance_call dry (GetServer i) = True"
| "instance_call dry ListIps = (\<not> dry)"
| "instance_call dry (DeleteIp i) = (\<not> dry)"
| "instance_call dry (DeleteServer i) = (\<not> dry)"
| "instance_call dry c = False"

fun stack_call :: "bool \<Rightarrow> call \<Rightarrow> bool" where
  "stack_call dry (GetStack i) = (\<not> dry)"
| "stack_call dry (DeleteStack st) = (\<not> dry)"
| "stack_call dry (WaitForDelete st) = (\<not> dry)"
| "stack_call dry c = False"

fun loadbalancer_call :: "bool \<Rightarrow> call \<Rightarrow> bool" where
  "loadbalancer_call dry (GetLoadBalancer i) = (\<not> dry)"
| "loadbalancer_call dry (DeleteLoadBalancer i) = (\<not> dry)"
| "loadbalancer_call dry c = False"

fun floating_ip_call :: "bool \<Rightarrow> call \<Rightarrow> bool" where
  "floating_ip_call dry (GetIp i) = True"
| "floating_ip_call dry ListIps = True"
| "floating_ip_call dry (DeleteIp i) = (\<not> dry)"
| "floating_ip_call dry c = False"

fun port_sweep_call :: "bool \<Rightarrow> call \<Rightarrow> bool" where
  "port_sweep_call dry (ListPorts q) = True"
| "port_sweep_call dry (DeletePort i) = (\<not> dry)"
| "port_sweep_call dry c = False"

fun router_call :: "bool \<Rightarrow> call \<Rightarrow> bool" where
  "router_call dry (GetRouter i) = True"
| "router_call dry (ListPorts q) = True"
| "router_call dry ListIps = (\<not> dry)"
| "router_call dry (GetPort p) = (\<not> dry)"
| "router_call dry (DeleteIp i) = (\<not> dry)"
| "router_call dry (UpdateRouter i) = (\<not> dry)"
| "router_call dry (RemoveInterfaceFromRouter i sn) = (\<not> dry)"
| "router_call dry (DeleteRouter i) = (\<not> dry)"
| "router_call dry c = False"

fun network_step_call :: "bool \<Rightarrow> call \<Rightarrow> bool" where
  "network_step_call dry (GetNetwork i) = dry"
| "network_step_call dry (ListPorts q) = (\<not> dry)"
| "network_step_call dry (DeletePort i) = (\<not> dry)"
| "network_step_call dry (DeleteNetwork i) = (\<not> dry)"
| "network_step_call dry c = False"

fun sec_group_call :: "bool \<Rightarrow> call \<Rightarrow> bool" where
  "sec_group_call dry (GetSecurityGroup i) = dry"
| "sec_group_call dry (DeleteSecurityGroup i) = (\<not> dry)"
| "sec_group_call dry c = False"

fun router_fip_call :: "call \<Rightarrow> bool" where
  "router_fip_call ListIps = True"
| "router_fip_call (GetPort p) = True"
| "router_fip_call (DeleteIp i) = True"
| "router_fip_call c = False"

text \<open>A router \<open>r1\<close> with one interface port that carries one floating IP.\<close>

definition fip_on_router :: floating_ip where
  "fip_on_router = \<lparr>fip_id = ''f1'', floating_ip_address = ''203.0.113.7'', fip_description = [],
                    fip_router_id = Some ''r1'', fip_port_id = Some ''p1''\<rparr>"

definition port_on_router :: port where
  "port_on_router = \<lparr>port_id = ''p1'', port_name = Some ''uplink'',
                     device_owner = ''network:router_interface'', device_id = ''r1'',
                     fixed_ips = [\<lparr>subnet_id = ''sn1'', ip_address = ''10.0.0.1''\<rparr>]\<rparr>"

text \<open>A floating IP on a port of another device.\<close>

definition fip_elsewhere :: floating_ip where
  "fip_elsewhere = \<lparr>fip_id = ''f2'', floating_ip_address = ''203.0.113.8'', fip_description = [],
                    fip_router_id = None, fip_port_id = Some ''p2''\<rparr>"

definition port_elsewhere :: port where
  "port_elsewhere = \<lparr>port_id = ''p2'', port_name = Some ''vm-port'',
                     device_owner = ''compute:nova'', device_id = ''i1'',
                     fixed_ips = [\<lparr>subnet_id = ''sn2'', ip_address = ''10.0.1.5''\<rparr>]\<rparr>"

definition no_resources :: inventory where
  "no_resources = \<lparr>instances = [], flavors = [], keypairs = [], images = [], volumes = [],
                    volume_snapshots = [], loadbalancers = [], floating_ips = [], sec_groups = [],
                    networks = [], routers = [], dns_zones = [], heat_stacks = []\<rparr>"

text \<open>A not-found error of the SDK whose message does not spell \<open>NotFound\<close>.\<close>

definition not_found_404 :: exc where
  "not_found_404 = \<lparr>exc_type = ''<class 'openstack.exceptions.NotFoundException'>'',
                    exc_msg = ''404: Could not find Zone'', exc_resource_not_found = True\<rparr>"

text \<open>The state in which each cleaner of a list starts, when they run one after the other.\<close>

fun start_states :: "(category \<Rightarrow> 's act) \<Rightarrow> category list \<Rightarrow> 's \<Rightarrow> 's list" where
  "start_states clean [] s = []"
| "start_states clean (c # cs) s = s # start_states clean cs (snd (clean c s))"

text \<open>The place of a category in the list of cleaners, and the deletions of security groups.\<close>

definition position :: "category \<Rightarrow> nat" where
  "position c = length (takeWhile (\<lambda>x. x \<noteq> c) cleaner_types)"

fun is_sg_delete_call :: "call \<Rightarrow> bool" where
  "is_sg_delete_call (DeleteSecurityGroup g) = True"
| "is_sg_delete_call c = False"

fun is_sec_group_delete :: "event \<Rightarrow> bool" where
  "is_sec_group_delete (Call c r) = is_sg_delete_call c"
| "is_sec_group_delete ev = False"

text \<open>Every dictionary of the inventory has one entry per key, as a Python dict has.\<close>

definition unique_keys :: "inventory \<Rightarrow> bool" where
  "unique_keys resources =
     (distinct (map fst (instances resources)) \<and> distinct (map fst (flavors resources)) \<and>
      distinct (map fst (keypairs resources)) \<and> distinct (map fst (images resources)) \<and>
      distinct (map fst (volumes resources)) \<and> distinct (map fst (volume_snapshots resources)) \<and>
      distinct (map fst (loadbalancers resources)) \<and> distinct (map fst (floating_ips resources)) \<and>
      distinct (map fst (sec_groups resources)) \<and> distinct (map fst (networks resources)) \<and>
      distinct (map fst (routers resources)) \<and> distinct (map fst (dns_zones resources)) \<and>
      distinct (map fst (heat_stacks resources)))"

text \<open>A small inventory and a control plane on which a deleted server is gone at once.\<close>

definition sample_resources :: inventory where
  "sample_resources = no_resources\<lparr>instances := [(''i1'', ''test-vm'')],
                                    volumes := [(''v1'', ''test-vol'')],
                                    sec_groups := [(''sg1'', ''test-sg'')]\<rparr>"

definition server_gone_script :: "call \<Rightarrow> nat \<Rightarrow> exc option" where
  "server_gone_script c n = (if c = GetServer ''i1'' \<and> 2 \<le> n then Some missing else None)"

text \<open>
  An inventory with an instance, a keypair, a volume, a floating IP, a router and a
  security group, and a control plane on which no call raises.
\<close>

definition dry_sample :: inventory where
  "dry_sample = no_resources\<lparr>instances := [(''i1'', ''test-vm'')],
                              keypairs := [(''k1'', ''test-kp'')],
                              volumes := [(''v1'', ''test-vol'')],
                              floating_ips := [(''f1'', ''203.0.113.7'')],
                              routers := [(''r1'', ''test-router'')],
                              sec_groups := [(''sg1'', ''test-sg'')]\<rparr>"

definition calm_conn :: "nat conn" where
  "calm_conn = scripted_conn_with_server (\<lambda>c n. None) [fip_on_router] [port_on_router] server_with_fip"

text \<open>
  An inventory with one entry of each kind a dry run probes (two routers), and a script
  on which each of these probes raises a not-found error.
\<close>

definition probed_sample :: inventory where
  "probed_sample = no_resources\<lparr>instances := [(''i1'', ''test-vm'')],
                                 volumes := [(''v1'', ''test-vol'')],
                                 volume_snapshots := [(''p1'', ''test-snap'')],
                                 floating_ips := [(''f1'', ''203.0.113.7'')],
                                 routers := [(''r1'', ''test-router''), (''r2'', ''test-router-2'')],
                                 networks := [(''n1'', ''test-net'')],
                                 sec_groups := [(''sg1'', ''test-sg'')]\<rparr>"

definition probes_raise :: "call \<Rightarrow> nat \<Rightarrow> exc option" where
  "probes_raise c n =
     (if c \<in> set [GetServer ''i1'', GetVolume ''v1'', GetSnapshot ''p1'', GetIp ''f1'',
                   GetRouter ''r1'', ListPorts (ByDevice ''r2''), GetNetwork ''n1'',
                   GetSecurityGroup ''sg1'']
      then Some missing else None)"

text \<open>All calls of a run, in order.\<close>

definition run_calls ::
  "'s conn \<Rightarrow> bool \<Rightarrow> (string \<Rightarrow> bool) \<Rightarrow> available_services \<Rightarrow> inventory \<Rightarrow> 's \<Rightarrow> call list" where
  "run_calls conn dryrun search available resources s =
     calls_of (map snd (fst (openstack_clean conn dryrun search available resources s)))"

text \<open>All events of a run, in order, without the categories.\<close>

definition run_events ::
  "'s conn \<Rightarrow> bool \<Rightarrow> (string \<Rightarrow> bool) \<Rightarrow> available_services \<Rightarrow> inventory \<Rightarrow> 's \<Rightarrow> event list" where
  "run_events conn dryrun search available resources s =
     map snd (fst (openstack_clean conn dryrun search available resources s))"

section \<open>What a dry run shows for the inventory\<close>

text \<open>
  The would-delete reports of the entries of one kind, in the order of the dictionary,
  under the label the cleaner prints for the kind.
\<close>

definition would_delete :: "string \<Rightarrow> (string, string) dict \<Rightarrow> event list" where
  "would_delete rtype entries = map (\<lambda>(i, name). Report rtype name WouldDelete) entries"

text \<open>
  \<open>blocks_of ok entries evs\<close>: the events are made of one block of events per entry, in
  the order of the entries, and the block of each entry satisfies \<open>ok\<close>.
\<close>

definition blocks_of :: "('x \<Rightarrow> event list \<Rightarrow> bool) \<Rightarrow> 'x list \<Rightarrow> event list \<Rightarrow> bool" where
  "blocks_of ok entries evs = (\<exists>blocks. evs = concat blocks \<and> list_all2 ok entries blocks)"

text \<open>
  The block of an entry that the dry run probes with one read-only call: the block starts
  with the call, and when the call returns normally the would-delete report of the entry
  is all that follows.
\<close>

definition probed :: "(string \<Rightarrow> call) \<Rightarrow> string \<Rightarrow> string \<times> string \<Rightarrow> event list \<Rightarrow> bool" where
  "probed get rtype = (\<lambda>(i, name) block.
     \<exists>r rest. block = Call (get i) r # rest \<and>
       (r = None \<longrightarrow> rest = [Report rtype name WouldDelete]))"

text \<open>
  The block of an instance: when \<open>get_server\<close> returns normally, would-delete reports
  for floating addresses and then the would-delete report of the instance.
\<close>

definition instance_block :: "string \<times> string \<Rightarrow> event list \<Rightarrow> bool" where
  "instance_block = (\<lambda>(i, name) block.
     \<exists>r rest. block = Call (GetServer i) r # rest \<and>
       (r = None \<longrightarrow>
          (\<exists>addrs. rest = map (\<lambda>a. Report ''FLOATING IP'' a WouldDelete) addrs
                          @ [Report ''INSTANCE'' name WouldDelete])))"

text \<open>
  The block of a router: when \<open>get_router\<close> returns normally, the would-delete report of
  its gateway and the listing of its ports; when the listing returns normally too,
  would-delete reports for interfaces and then the would-delete report of the router.
\<close>

definition router_block :: "string \<times> string \<Rightarrow> event list \<Rightarrow> bool" where
  "router_block = (\<lambda>(i, name) block.
     \<exists>r rest. block = Call (GetRouter i) r # rest \<and>
       (r = None \<longrightarrow>
          (\<exists>r2 rest2. rest = Report ''Router Gateway'' name WouldDelete
                              # Call (ListPorts (ByDevice i)) r2 # rest2 \<and>
             (r2 = None \<longrightarrow>
                (\<exists>addrs. rest2 = map (\<lambda>a. Report ''Router Interface'' a WouldDelete) addrs
                                 @ [Report ''ROUTER'' name WouldDelete])))))"

text \<open>
  Floating IPs. \<open>get_ip_states\<close> gives the state of the control plane in which each
  floating IP of the inventory is fetched, one \<open>get_ip\<close> after the other. When the fetch
  returns normally the floating IP is reported would-delete under the address fetched,
  followed by the start of its description if it has one; otherwise it is reported under
  the name of the inventory as already gone or failed.
\<close>

fun get_ip_states :: "'s conn \<Rightarrow> (string \<times> string) list \<Rightarrow> 's \<Rightarrow> 's list" where
  "get_ip_states conn [] s = []"
| "get_ip_states conn ((i, name) # entries) s = s # get_ip_states conn entries (snd (get_ip conn i s))"

definition floating_ip_block :: "'s conn \<Rightarrow> (string \<times> string) \<times> 's \<Rightarrow> event list" where
  "floating_ip_block conn = (\<lambda>((i, name), t).
     (case fst (get_ip conn i t) of
        Inr fip \<Rightarrow>
          [Call (GetIp i) None,
           Report ''FLOATING IP''
             (floating_ip_address fip
              @ (if fip_description fip \<noteq> []
                 then '' (desc: '' @ take 30 (fip_description fip) @ ''...)'' else []))
             WouldDelete]
      | Inl e \<Rightarrow>
          [Call (GetIp i) (Some e),
           Report ''FLOATING IP'' name
             (if is_not_found_error e then AlreadyGone else Failed (exc_msg e))]))"

text \<open>
  The events of the two sweeps of a dry run: the listings, and would-delete reports for
  floating IPs and ports that are not in the inventory.
\<close>

fun sweep_event :: "event \<Rightarrow> bool" where
  "sweep_event (Call c r) = (c = ListIps \<or> c = ListPorts AllPorts)"
| "sweep_event (Report rtype name out) = ((rtype = ''FLOATING IP'' \<or> rtype = ''PORT'') \<and> out = WouldDelete)"
| "sweep_event (Sleep n) = False"

text \<open>
  What a dry run of each cleaner, started in state \<open>s\<close>, shows for the inventory. Kinds that
  the dry run does not probe are reported would-delete entry by entry (Heat stacks and
  DNS zones only when their service is available); the others come in blocks.
\<close>

fun dry_run_trace ::
  "'s conn \<Rightarrow> available_services \<Rightarrow> inventory \<Rightarrow> category \<Rightarrow> 's \<Rightarrow> event list \<Rightarrow> bool" where
  "dry_run_trace conn available resources AdvancedServices s evs =
     (evs = (if heat available then would_delete ''HEAT STACK'' (heat_stacks resources) else [])
            @ (if dns available then would_delete ''DNS ZONE'' (dns_zones resources) else []))"
| "dry_run_trace conn available resources Compute s evs =
     (\<exists>inst. evs = inst @ would_delete ''FLAVOR'' (flavors resources)
                   @ would_delete ''KEYPAIR'' (keypairs resources)
                   @ would_delete ''IMAGE'' (images resources) \<and>
             blocks_of instance_block (instances resources) inst)"
| "dry_run_trace conn available resources Storage s evs =
     (\<exists>vol snap. evs = vol @ snap \<and>
        blocks_of (probed GetVolume ''VOLUME'') (volumes resources) vol \<and>
        blocks_of (probed GetSnapshot ''VOLUME SNAPSHOT'') (volume_snapshots resources) snap)"
| "dry_run_trace conn available resources LoadBalancer s evs =
     (evs = would_delete ''LOAD BALANCER'' (loadbalancers resources))"
| "dry_run_trace conn available resources Network s evs =
     (\<exists>sweeps rts nets sgs.
        evs = concat (map (floating_ip_block conn)
                        (zip (floating_ips resources)
                             (get_ip_states conn (floating_ips resources) s)))
              @ sweeps @ rts @ nets @ sgs \<and>
        list_all sweep_event sweeps \<and>
        blocks_of router_block (routers resources) rts \<and>
        blocks_of (probed GetNetwork ''NETWORK'') (networks resources) nets \<and>
        blocks_of (probed GetSecurityGroup ''SECURITY GROUP'') (sec_groups resources) sgs)"

section \<open>Deletions of Heat stacks\<close>

text \<open>
  A Heat stack is deleted through the object \<open>get_stack\<close> returned for its id. For each
  \<open>delete_stack\<close> call of a list of calls, in order, \<open>stack_delete_ids\<close> gives the id of
  the \<open>get_stack\<close> call issued just before it (\<open>None\<close> when the call just before it is
  not a \<open>get_stack\<close>).
\<close>

fun attribute_deletes :: "string option \<Rightarrow> call list \<Rightarrow> string option list" where
  "attribute_deletes fetched [] = []"
| "attribute_deletes fetched (DeleteStack st # cs) = fetched # attribute_deletes None cs"
| "attribute_deletes fetched (GetStack i # cs) = attribute_deletes (Some i) cs"
| "attribute_deletes fetched (c # cs) = attribute_deletes None cs"

definition stack_delete_ids :: "call list \<Rightarrow> string option list" where
  "stack_delete_ids cs = attribute_deletes None cs"

fun is_stack_delete :: "call \<Rightarrow> bool" where
  "is_stack_delete (DeleteStack st) = True"
| "is_stack_delete c = False"

section \<open>What the teardown of a router deletes\<close>

text \<open>
  The floating IPs of a listing that are bound to a router. The listing is examined in
  order; a floating IP that names the router, or that has a port id, has its port
  fetched with \<open>get_port\<close>. \<open>lookup_states\<close> gives the state of the control plane in which
  each floating IP is examined. A floating IP is bound to the router when it is examined
  with a fetch and the port fetched belongs to the router.
\<close>

definition port_fetched :: "string \<Rightarrow> floating_ip \<Rightarrow> bool" where
  "port_fetched rid f =
     (fip_router_id f = Some rid \<or> (fip_port_id f \<noteq> None \<and> fip_port_id f \<noteq> Some []))"

fun lookup_states :: "'s conn \<Rightarrow> string \<Rightarrow> floating_ip list \<Rightarrow> 's \<Rightarrow> 's list" where
  "lookup_states conn rid [] s = []"
| "lookup_states conn rid (f # fs) s =
     s # lookup_states conn rid fs
           (if port_fetched rid f then snd (get_port conn (fip_port_id f) s) else s)"

definition on_router_port :: "'s conn \<Rightarrow> string \<Rightarrow> floating_ip \<times> 's \<Rightarrow> bool" where
  "on_router_port conn rid = (\<lambda>(f, t).
     port_fetched rid f \<and>
     (case fst (get_port conn (fip_port_id f) t) of
        Inr port \<Rightarrow> device_id port = rid
      | Inl e \<Rightarrow> False))"

definition router_bound_fips :: "'s conn \<Rightarrow> string \<Rightarrow> floating_ip list \<Rightarrow> 's \<Rightarrow> floating_ip list" where
  "router_bound_fips conn rid listing s =
     map fst (filter (on_router_port conn rid) (zip listing (lookup_states conn rid listing s)))"

text \<open>The subnet of the first fixed IP of each port that has fixed IPs.\<close>

definition first_subnets :: "port list \<Rightarrow> string list" where
  "first_subnets port_list =
     concat (map (\<lambda>port. map subnet_id (take 1 (fixed_ips port))) port_list)"

text \<open>An error of the control plane that is neither a not-found error nor a conflict.\<close>

definition server_error_500 :: exc where
  "server_error_500 = \<lparr>exc_type = ''<class 'openstack.exceptions.HttpException'>'',
                       exc_msg = ''500: Internal Server Error'', exc_resource_not_found = False\<rparr>"

section \<open>Loading and discovery\<close>

lemma dict_set_entries: "set (dict_set k v kvs) \<subseteq> insert (k, v) (set kvs)"
  by (induction k v kvs rule: dict_set.induct) (auto split: if_splits)

lemma fold_entries:
  "(i, n) \<in> set (fold (\<lambda>r resources. if name_matches search r
                          then dict_set (res_id r) (display_name r) resources
                          else resources) rs acc)
   \<Longrightarrow> (i, n) \<in> set acc \<or>
       (\<exists>r\<in>set rs. name_matches search r \<and> res_id r = i \<and> display_name r = n)"
proof (induction rs arbitrary: acc)
  case Nil
  then show ?case by simp
next
  case (Cons r rs)
  show ?case
  proof (cases "name_matches search r")
    case True
    with Cons.prems have "(i, n) \<in> set (fold (\<lambda>r resources. if name_matches search r
                          then dict_set (res_id r) (display_name r) resources
                          else resources) rs (dict_set (res_id r) (display_name r) acc))"
      by simp
    from Cons.IH[OF this] show ?thesis
      using dict_set_entries[of "res_id r" "display_name r" acc] True by auto
  next
    case False
    with Cons.prems Cons.IH[of acc] show ?thesis by auto
  qed
qed

text \<open>
  C4, as the code has it. The fields of a line are type, name and id, so the line
  \<open>keypairs||kp1\<close> has an empty name and the id \<open>kp1\<close>: it is stored under its id, and no
  entry with the id \<open>0\<close> appears.
\<close>

theorem keypairs_line_with_empty_name_counterexample:
  "get_resources_from_cleanup_log [''keypairs||kp1'' @ [CHR 0x0A]]
     = Inr ([(''keypairs'', [(''kp1'', [])])], []) \<and>
   get_resources_from_cleanup_log [''keypairs||kp1'' @ [CHR 0x0A]]
     \<noteq> Inr ([(''keypairs'', [(''0'', ''kp1'')])], [])"
  by (simp add: get_resources_from_cleanup_log_def load_line_def strip_def is_space_def
        store_resource_def)

text \<open>
  C4, amended: a line whose third field (the id) is empty is stored under the id \<open>0\<close> when
  its type is \<open>keypairs\<close>; for any other type the error message is printed; in both cases
  the load goes on with the lines that follow.
\<close>

theorem load_line_with_empty_id:
  assumes "split_on (CHR ''|'') (strip line) = [restype, resname, []]"
  shows "(restype = ''keypairs'' \<longrightarrow>
            load_lines (line # rest) (resources, printed)
              = load_lines rest (store_resource ''keypairs'' ''0'' resname resources, printed)) \<and>
         (restype \<noteq> ''keypairs'' \<longrightarrow>
            (\<exists>resources'. load_lines (line # rest) (resources, printed)
              = load_lines rest (resources', printed @ [no_id_message restype])))"
  using assms by (auto simp: load_line_def)

theorem load_line_with_empty_id_witness:
  "split_on (CHR ''|'') (strip (''keypairs|kp1|'' @ [CHR 0x0A])) = [''keypairs'', ''kp1'', []] \<and>
   get_resources_from_cleanup_log [''keypairs|kp1|'' @ [CHR 0x0A]]
     = Inr ([(''keypairs'', [(''0'', ''kp1'')])], []) \<and>
   split_on (CHR ''|'') (strip (''volumes|vol1|'' @ [CHR 0x0A])) = [''volumes'', ''vol1'', []] \<and>
   (\<exists>resources'. get_resources_from_cleanup_log [''volumes|vol1|'' @ [CHR 0x0A]]
     = Inr (resources', [''Error: resource type volumes has no ID - ignored!!!'']))"
proof -
  have k: "split_on (CHR ''|'') (strip (''keypairs|kp1|'' @ [CHR 0x0A])) = [''keypairs'', ''kp1'', []]"
    by (simp add: strip_def is_space_def)
  have v: "split_on (CHR ''|'') (strip (''volumes|vol1|'' @ [CHR 0x0A])) = [''volumes'', ''vol1'', []]"
    by (simp add: strip_def is_space_def)
  from load_line_with_empty_id[OF k, of "[]" "[]" "[]"]
  have 1: "get_resources_from_cleanup_log [''keypairs|kp1|'' @ [CHR 0x0A]]
     = Inr ([(''keypairs'', [(''0'', ''kp1'')])], [])"
    by (simp add: get_resources_from_cleanup_log_def store_resource_def)
  from load_line_with_empty_id[OF v, of "[]" "[]" "[]"]
  have 2: "\<exists>resources'. get_resources_from_cleanup_log [''volumes|vol1|'' @ [CHR 0x0A]]
     = Inr (resources', [''Error: resource type volumes has no ID - ignored!!!''])"
    by (simp add: get_resources_from_cleanup_log_def no_id_message_def)
  from k v 1 2 show ?thesis by blast
qed

text \<open>
  C5: with the pattern \<open>^test-.*$\<close>, the resource named \<open>test-abc\<close> without description
  is retained, and so is the resource named \<open>prod-abc\<close> with the description \<open>test-env\<close>,
  as the claim says. A resource whose name is the empty string and whose description is
  \<open>test-env\<close> is not retained, although the pattern matches its description.
\<close>

theorem empty_name_matching_description_dropped:
  "build_resource_dict search_test_prefix
     [\<lparr>res_id = ''r1'', res_name = Some ''test-abc'', res_description = [],
       res_floating_ip_address = None\<rparr>] = [(''r1'', ''test-abc'')] \<and>
   build_resource_dict search_test_prefix
     [\<lparr>res_id = ''r2'', res_name = Some ''prod-abc'', res_description = ''test-env'',
       res_floating_ip_address = None\<rparr>] = [(''r2'', ''prod-abc'')] \<and>
   search_test_prefix ''test-env'' \<and>
   build_resource_dict search_test_prefix
     [\<lparr>res_id = ''r3'', res_name = Some [], res_description = ''test-env'',
       res_floating_ip_address = None\<rparr>] = []"
  by (simp add: build_resource_dict_def name_matches_def display_name_def search_test_prefix_def)

text \<open>
  C10: a listed resource whose display name is empty adds nothing to the dictionary,
  whatever its description, and every entry of the dictionary has a non-empty display
  name.
\<close>

theorem build_resource_dict_skips_empty_names:
  "(display_name r = [] \<longrightarrow>
      build_resource_dict search (xs @ r # ys) = build_resource_dict search (xs @ ys)) \<and>
   (\<forall>(i, n) \<in> set (build_resource_dict search rs). n \<noteq> [])"
proof -
  have "display_name r = [] \<longrightarrow>
      build_resource_dict search (xs @ r # ys) = build_resource_dict search (xs @ ys)"
    by (simp add: build_resource_dict_def name_matches_def)
  moreover have "n \<noteq> []" if "(i, n) \<in> set (build_resource_dict search rs)" for i n
    using that unfolding build_resource_dict_def
    by (drule_tac fold_entries) (auto simp: name_matches_def)
  ultimately show ?thesis by blast
qed

theorem build_resource_dict_skips_empty_names_witness:
  "display_name \<lparr>res_id = ''r3'', res_name = Some [], res_description = ''test-env'',
                 res_floating_ip_address = None\<rparr> = [] \<and>
   search_test_prefix ''test-env'' \<and>
   build_resource_dict search_test_prefix
     ([\<lparr>res_id = ''r1'', res_name = Some ''test-abc'', res_description = [],
        res_floating_ip_address = None\<rparr>]
      @ \<lparr>res_id = ''r3'', res_name = Some [], res_description = ''test-env'',
          res_floating_ip_address = None\<rparr> # [])
     = [(''r1'', ''test-abc'')] \<and>
   snd (hd [(''r1'', ''test-abc'')]) \<noteq> []"
  using build_resource_dict_skips_empty_names[of
          "\<lparr>res_id = ''r3'', res_name = Some [], res_description = ''test-env'',
            res_floating_ip_address = None\<rparr>" search_test_prefix
          "[\<lparr>res_id = ''r1'', res_name = Some ''test-abc'', res_description = [],
             res_floating_ip_address = None\<rparr>]" "[]"
          "[\<lparr>res_id = ''r1'', res_name = Some ''test-abc'', res_description = [],
             res_floating_ip_address = None\<rparr>]"]
  by (simp add: build_resource_dict_def name_matches_def display_name_def search_test_prefix_def)

section \<open>Verification of a single deletion\<close>

lemma probe_kind_table:
  "map_of (kind_table conn rid) kind = Some (c, g) \<Longrightarrow>
     probe conn kind rid s = Some (c, fst (g s), snd (g s))"
  by (auto simp: kind_table_def probe_def fetch_def case_prod_beta split: if_splits)

lemma verify_loop_timeout:
  assumes "map_of (kind_table conn rid) (upper rt) = Some (c, g)"
    and "\<forall>j<n. fst (g (poll_state g j s)) = None"
  shows "verify_loop conn rt rid delay n s
           = (False, concat (replicate n [Sleep delay, Call c None]), poll_state g n s)"
  using assms(2)
proof (induction n arbitrary: s)
  case 0
  then show ?case by simp
next
  case (Suc n)
  from Suc.prems have first: "fst (g s) = None" by (metis poll_state.simps(1) zero_less_Suc)
  have "\<forall>j<n. fst (g (poll_state g j (snd (g s)))) = None"
  proof (intro allI impI)
    fix j assume "j < n"
    with Suc.prems have "fst (g (poll_state g (Suc j) s)) = None" by (metis Suc_less_eq)
    then show "fst (g (poll_state g j (snd (g s)))) = None" by simp
  qed
  from Suc.IH[OF this] first probe_kind_table[OF assms(1), of s] show ?case by simp
qed

lemma verify_loop_raised:
  assumes "map_of (kind_table conn rid) (upper rt) = Some (c, g)"
    and "k < n" and "\<forall>j<k. fst (g (poll_state g j s)) = None"
    and "fst (g (poll_state g k s)) = Some e"
  shows "verify_loop conn rt rid delay n s
           = (True, concat (replicate k [Sleep delay, Call c None]) @ [Sleep delay, Call c (Some e)],
              poll_state g (Suc k) s)"
  using assms(2-4)
proof (induction k arbitrary: n s)
  case 0
  then obtain m where n: "n = Suc m" by (cases n) auto
  from 0 probe_kind_table[OF assms(1), of s] show ?case unfolding n by simp
next
  case (Suc k)
  then obtain m where n: "n = Suc m" and km: "k < m" by (cases n) auto
  from Suc.prems(2) have first: "fst (g s) = None" by (metis poll_state.simps(1) zero_less_Suc)
  have quiet: "\<forall>j<k. fst (g (poll_state g j (snd (g s)))) = None"
  proof (intro allI impI)
    fix j assume "j < k"
    with Suc.prems(2) have "fst (g (poll_state g (Suc j) s)) = None" by (metis Suc_less_eq)
    then show "fst (g (poll_state g j (snd (g s)))) = None" by simp
  qed
  from Suc.prems(3) have last: "fst (g (poll_state g k (snd (g s)))) = Some e" by simp
  from Suc.IH[OF km quiet last] first probe_kind_table[OF assms(1), of s] show ?case
    unfolding n by simp
qed

lemma upper_load_balancer: "upper ''LOAD BALANCER'' = ''LOAD BALANCER''"
  by (simp add: upper_def upper_char_def)

text \<open>
  C8, as the code has it. A monitor in dry-run mode polls nothing and answers True at
  once, also for a resource that every \<open>get\<close> returns. A kind name outside the eleven
  the monitor tests for polls nothing either: on a control plane where every call raises
  a not-found error, the verification of a keypair, or of a security group under the
  name the cleaner reports it with (\<open>SECURITY GROUP\<close>, with a space), sleeps three times
  and returns False.
\<close>

theorem verify_without_poll_counterexample:
  "verify_resource_deleted (scripted_conn (\<lambda>c n. None) [] []) True
     ''VOLUME'' ''v1'' 3 2 0 = (True, [], 0) \<and>
   invoke (scripted_conn (\<lambda>c n. None) [] []) (GetVolume ''v1'') 0 = (None, 1) \<and>
   verify_resource_deleted (scripted_conn (\<lambda>c n. Some missing) [] []) False
     ''KEYPAIR'' ''kp1'' 3 2 0 = (False, [Sleep 2, Sleep 2, Sleep 2], 0) \<and>
   verify_resource_deleted (scripted_conn (\<lambda>c n. Some missing) [] []) False
     ''SECURITY GROUP'' ''sg1'' 3 2 0 = (False, [Sleep 2, Sleep 2, Sleep 2], 0) \<and>
   invoke (scripted_conn (\<lambda>c n. Some missing) [] []) (GetSecurityGroup ''sg1'') 0
     = (Some missing, 1) \<and>
   exc_resource_not_found missing"
  by (simp add: verify_resource_deleted_def numeral_3_eq_3 probe_def upper_def upper_char_def
        scripted_conn_def missing_def)

text \<open>
  C8, amended: a monitor in dry-run mode verifies nothing and answers True. Otherwise,
  for a kind whose
  name in upper case is one of \<open>INSTANCE\<close>, \<open>SERVER\<close>, \<open>FLAVOR\<close>, \<open>VOLUME\<close>, \<open>SNAPSHOT\<close>,
  \<open>NETWORK\<close>, \<open>ROUTER\<close>, \<open>PORT\<close>, \<open>SECURITY_GROUP\<close>, \<open>LOAD BALANCER\<close> and \<open>IMAGE\<close>, each
  attempt sleeps for the delay and then polls \<open>get(kind, id)\<close>. When the first \<open>k\<close> polls
  return the resource and the next one, still within \<open>max_attempts\<close>, raises an exception
  (not-found or any other), the verification stops there and returns True. When
  \<open>max_attempts\<close> polls return the resource, it returns False.
\<close>

theorem verify_resource_deleted_polls:
  "verify_resource_deleted conn True rt rid max_attempts delay s = (True, [], s) \<and>
   (map_of (kind_table conn rid) (upper rt) = Some (c, g) \<and> k < max_attempts \<and>
    (\<forall>j<k. fst (g (poll_state g j s)) = None) \<and> fst (g (poll_state g k s)) = Some e \<longrightarrow>
      verify_resource_deleted conn False rt rid max_attempts delay s
        = (True, concat (replicate k [Sleep delay, Call c None]) @ [Sleep delay, Call c (Some e)],
           poll_state g (Suc k) s)) \<and>
   (map_of (kind_table conn rid) (upper rt) = Some (c, g) \<and>
    (\<forall>j<max_attempts. fst (g (poll_state g j s)) = None) \<longrightarrow>
      verify_resource_deleted conn False rt rid max_attempts delay s
        = (False, concat (replicate max_attempts [Sleep delay, Call c None]),
           poll_state g max_attempts s))"
  using verify_loop_raised[of conn rid rt c g k max_attempts s e delay]
        verify_loop_timeout[of conn rid rt c g max_attempts s delay]
  by (simp add: verify_resource_deleted_def)

theorem verify_resource_deleted_polls_witness:
  "verify_resource_deleted
     (scripted_conn (\<lambda>c n. if c = GetLoadBalancer ''lb1'' \<and> 1 \<le> n then Some missing else None) [] [])
     False ''load balancer'' ''lb1'' 3 2 0
   = (True, [Sleep 2, Call (GetLoadBalancer ''lb1'') None,
             Sleep 2, Call (GetLoadBalancer ''lb1'') (Some missing)], 2) \<and>
   verify_resource_deleted
     (scripted_conn (\<lambda>c n. if c = GetLoadBalancer ''lb1'' \<and> 1 \<le> n then Some conflict_409 else None)
        [] [])
     False ''load balancer'' ''lb1'' 3 2 0
   = (True, [Sleep 2, Call (GetLoadBalancer ''lb1'') None,
             Sleep 2, Call (GetLoadBalancer ''lb1'') (Some conflict_409)], 2) \<and>
   verify_resource_deleted (scripted_conn (\<lambda>c n. None) [] []) False ''load balancer'' ''lb1'' 2 2 0
   = (False, [Sleep 2, Call (GetLoadBalancer ''lb1'') None,
              Sleep 2, Call (GetLoadBalancer ''lb1'') None], 2)"
proof -
  let ?gone = "scripted_conn
     (\<lambda>c n. if c = GetLoadBalancer ''lb1'' \<and> 1 \<le> n then Some missing else None) [] []"
  let ?odd = "scripted_conn
     (\<lambda>c n. if c = GetLoadBalancer ''lb1'' \<and> 1 \<le> n then Some conflict_409 else None) [] []"
  let ?stays = "scripted_conn (\<lambda>c n. None) [] []"
  have u: "upper ''load balancer'' = ''LOAD BALANCER''"
    by code_simp
  have 1: "verify_resource_deleted ?gone False ''load balancer'' ''lb1'' 3 2 0
     = (True, [Sleep 2, Call (GetLoadBalancer ''lb1'') None,
               Sleep 2, Call (GetLoadBalancer ''lb1'') (Some missing)], 2)"
    using verify_resource_deleted_polls[of ?gone "''load balancer''" "''lb1''" 3 2 0
            "GetLoadBalancer ''lb1''" "fetch (get_load_balancer ?gone ''lb1'')" "Suc 0" missing]
    by (simp add: u kind_table_def fetch_def scripted_conn_def answer_def raised_def)
  have 2: "verify_resource_deleted ?odd False ''load balancer'' ''lb1'' 3 2 0
     = (True, [Sleep 2, Call (GetLoadBalancer ''lb1'') None,
               Sleep 2, Call (GetLoadBalancer ''lb1'') (Some conflict_409)], 2)"
    using verify_resource_deleted_polls[of ?odd "''load balancer''" "''lb1''" 3 2 0
            "GetLoadBalancer ''lb1''" "fetch (get_load_balancer ?odd ''lb1'')" "Suc 0" conflict_409]
    by (simp add: u kind_table_def fetch_def scripted_conn_def answer_def raised_def)
  have 3: "verify_resource_deleted ?stays False ''load balancer'' ''lb1'' 2 2 0
     = (False, [Sleep 2, Call (GetLoadBalancer ''lb1'') None,
                Sleep 2, Call (GetLoadBalancer ''lb1'') None], 2)"
    using verify_resource_deleted_polls[of ?stays "''load balancer''" "''lb1''" 2 2 0
            "GetLoadBalancer ''lb1''" "fetch (get_load_balancer ?stays ''lb1'')" 0 missing]
    by (simp add: u kind_table_def fetch_def scripted_conn_def answer_def raised_def
          numeral_2_eq_2 All_less_Suc)
  from 1 2 3 show ?thesis by simp
qed

section \<open>Retries of a security-group deletion\<close>









section \<open>The calls each step can issue\<close>

lemma calls_of_append [simp]: "calls_of (a @ b) = calls_of a @ calls_of b"
  by (induction a rule: calls_of.induct) auto

lemma calls_of_reports [simp]:
  "calls_of (report_deletion d t n # evs) = calls_of evs"
  "calls_of (report_not_found t n # evs) = calls_of evs"
  "calls_of (report_error t n m # evs) = calls_of evs"
  "calls_of (report_failure t n e # evs) = calls_of evs"
  by (simp_all add: report_deletion_def report_not_found_def report_error_def report_failure_def)

lemma calls_of_map_report [simp]: "calls_of (map (report_deletion d t) xs) = []"
  by (induction xs) auto

lemma calls_of_handlers [simp]:
  "calls_of (storage_handler t n e # evs) = calls_of evs"
  "calls_of (advanced_handler t n e # evs) = calls_of evs"
  "calls_of (router_handler n e # evs) = calls_of evs"
  by (simp_all add: storage_handler_def advanced_handler_def router_handler_def)

lemma call_in_calls_of: "Call c r \<in> set evs \<Longrightarrow> c \<in> set (calls_of evs)"
  by (induction evs rule: calls_of.induct) auto

lemma fst_seq: "fst (seq f g s) = fst (f s) @ fst (g (snd (f s)))"
  by (simp add: seq_def case_prod_beta)

lemma snd_seq: "snd (seq f g s) = snd (g (snd (f s)))"
  by (simp add: seq_def case_prod_beta)

lemma list_all_weaken: "list_all P xs \<Longrightarrow> (\<And>x. P x \<Longrightarrow> Q x) \<Longrightarrow> list_all Q xs"
  by (induction xs) auto

lemma count_zero_if_all: "list_all P xs \<Longrightarrow> \<not> P d \<Longrightarrow> count_list xs d = 0"
  by (induction xs) auto

lemma count_map_other: "(\<And>x. f x \<noteq> d) \<Longrightarrow> count_list (map f xs) d = 0"
  by (induction xs) auto

lemma for_each_all:
  "(\<And>x s. x \<in> set xs \<Longrightarrow> list_all P (calls_of (fst (f x s)))) \<Longrightarrow>
   list_all P (calls_of (fst (for_each f xs s)))"
proof (induction xs arbitrary: s)
  case Nil
  then show ?case by simp
next
  case (Cons x xs)
  have "list_all P (calls_of (fst (f x s)))" using Cons.prems by simp
  moreover have "list_all P (calls_of (fst (for_each f xs (snd (f x s)))))"
    using Cons.IH Cons.prems by simp
  ultimately show ?case by (simp add: fst_seq)
qed

lemma for_each_calls_eq:
  "(\<And>x s. x \<in> set xs \<Longrightarrow> calls_of (fst (f x s)) = g x) \<Longrightarrow>
   calls_of (fst (for_each f xs s)) = concat (map g xs)"
proof (induction xs arbitrary: s)
  case Nil
  then show ?case by simp
next
  case (Cons x xs)
  have "calls_of (fst (f x s)) = g x" using Cons.prems by simp
  moreover have "calls_of (fst (for_each f xs (snd (f x s)))) = concat (map g xs)"
    using Cons.IH Cons.prems by simp
  ultimately show ?case by (simp add: fst_seq)
qed

lemma for_each_count:
  "(\<And>x s. x \<in> set xs \<Longrightarrow> count_list (calls_of (fst (f x s))) d \<le> bound x) \<Longrightarrow>
   count_list (calls_of (fst (for_each f xs s))) d \<le> sum_list (map bound xs)"
proof (induction xs arbitrary: s)
  case Nil
  then show ?case by simp
next
  case (Cons x xs)
  have "count_list (calls_of (fst (f x s))) d \<le> bound x" using Cons.prems by simp
  moreover have "count_list (calls_of (fst (for_each f xs (snd (f x s))))) d
                   \<le> sum_list (map bound xs)"
    using Cons.IH Cons.prems by simp
  ultimately show ?case by (simp add: fst_seq)
qed

lemma sum_list_key_bound:
  "distinct (map fst xs) \<Longrightarrow> sum_list (map (\<lambda>x. if fst x = i then k else 0) xs) \<le> (k::nat)"
proof (induction xs)
  case Nil
  then show ?case by simp
next
  case (Cons x xs)
  show ?case
  proof (cases "fst x = i")
    case True
    with Cons.prems have "i \<notin> fst ` set xs" by auto
    then have "sum_list (map (\<lambda>x. if fst x = i then k else 0) xs) = 0"
      by (induction xs) auto
    with True show ?thesis by simp
  next
    case False
    with Cons show ?thesis by simp
  qed
qed

lemma count_list_map_key:
  "distinct (map fst xs) \<Longrightarrow> inj D \<Longrightarrow> count_list (map (\<lambda>x. D (fst x)) xs) (D i) \<le> 1"
proof (induction xs)
  case Nil
  then show ?case by simp
next
  case (Cons x xs)
  show ?case
  proof (cases "fst x = i")
    case True
    with Cons.prems have "D i \<notin> set (map (\<lambda>x. D (fst x)) xs)"
      by (auto dest: injD)
    then have "count_list (map (\<lambda>x. D (fst x)) xs) (D i) = 0" by simp
    with True show ?thesis by simp
  next
    case False
    with Cons show ?thesis by (auto dest: injD)
  qed
qed

lemma calls_of_try_call:
  "calls_of [d] = [] \<Longrightarrow> (\<And>e. calls_of [h e] = []) \<Longrightarrow>
   calls_of (fst (try_call conn c d h s)) = (case c of None \<Rightarrow> [] | Some c' \<Rightarrow> [c'])"
  by (auto simp: try_call_def case_prod_beta split: option.splits)

subsection \<open>Loops with one call per resource\<close>

lemma clean_volume_calls:
  "calls_of (fst (clean_volume conn dry x s)) = [if dry then GetVolume (fst x) else DeleteVolume (fst x)]"
  by (simp add: clean_volume_def case_prod_beta calls_of_try_call)

lemma clean_snapshot_calls:
  "calls_of (fst (clean_snapshot conn dry x s))
     = [if dry then GetSnapshot (fst x) else DeleteSnapshot (fst x)]"
  by (simp add: clean_snapshot_def case_prod_beta calls_of_try_call)

lemma clean_flavor_calls:
  "calls_of (fst (clean_flavor conn dry x s)) = (if dry then [] else [DeleteFlavor (fst x)])"
  by (simp add: clean_flavor_def case_prod_beta calls_of_try_call)

lemma clean_keypair_calls:
  "calls_of (fst (clean_keypair conn dry x s)) = (if dry then [] else [DeleteKeypair (snd x)])"
  by (simp add: clean_keypair_def case_prod_beta calls_of_try_call)

lemma clean_image_calls:
  "calls_of (fst (clean_image conn dry x s)) = (if dry then [] else [DeleteImage (fst x)])"
  by (simp add: clean_image_def case_prod_beta calls_of_try_call)

lemma clean_zone_calls:
  "calls_of (fst (clean_zone conn dry x s)) = (if dry then [] else [DeleteZone (fst x)])"
  by (simp add: clean_zone_def case_prod_beta calls_of_try_call)

lemma volume_loop_calls:
  "calls_of (fst (for_each (clean_volume conn dry) xs s))
     = map (\<lambda>x. if dry then GetVolume (fst x) else DeleteVolume (fst x)) xs"
  using for_each_calls_eq[of xs "clean_volume conn dry"
          "\<lambda>x. [if dry then GetVolume (fst x) else DeleteVolume (fst x)]" s, OF clean_volume_calls]
  by (simp add: concat_map_singleton)

lemma snapshot_loop_calls:
  "calls_of (fst (for_each (clean_snapshot conn dry) xs s))
     = map (\<lambda>x. if dry then GetSnapshot (fst x) else DeleteSnapshot (fst x)) xs"
  using for_each_calls_eq[of xs "clean_snapshot conn dry"
          "\<lambda>x. [if dry then GetSnapshot (fst x) else DeleteSnapshot (fst x)]" s,
          OF clean_snapshot_calls]
  by (simp add: concat_map_singleton)

lemma flavor_loop_calls:
  "calls_of (fst (for_each (clean_flavor conn dry) xs s))
     = (if dry then [] else map (\<lambda>x. DeleteFlavor (fst x)) xs)"
  using for_each_calls_eq[of xs "clean_flavor conn dry"
          "\<lambda>x. if dry then [] else [DeleteFlavor (fst x)]" s, OF clean_flavor_calls]
  by (simp add: concat_map_singleton)

lemma keypair_loop_calls:
  "calls_of (fst (for_each (clean_keypair conn dry) xs s))
     = (if dry then [] else map (\<lambda>x. DeleteKeypair (snd x)) xs)"
  using for_each_calls_eq[of xs "clean_keypair conn dry"
          "\<lambda>x. if dry then [] else [DeleteKeypair (snd x)]" s, OF clean_keypair_calls]
  by (simp add: concat_map_singleton)

lemma image_loop_calls:
  "calls_of (fst (for_each (clean_image conn dry) xs s))
     = (if dry then [] else map (\<lambda>x. DeleteImage (fst x)) xs)"
  using for_each_calls_eq[of xs "clean_image conn dry"
          "\<lambda>x. if dry then [] else [DeleteImage (fst x)]" s, OF clean_image_calls]
  by (simp add: concat_map_singleton)

lemma zone_loop_calls:
  "calls_of (fst (for_each (clean_zone conn dry) xs s))
     = (if dry then [] else map (\<lambda>x. DeleteZone (fst x)) xs)"
  using for_each_calls_eq[of xs "clean_zone conn dry"
          "\<lambda>x. if dry then [] else [DeleteZone (fst x)]" s, OF clean_zone_calls]
  by (simp add: concat_map_singleton)

lemma storage_clean_calls:
  "calls_of (fst (storage_clean conn dry resources s))
     = map (\<lambda>x. if dry then GetVolume (fst x) else DeleteVolume (fst x)) (volumes resources)
       @ map (\<lambda>x. if dry then GetSnapshot (fst x) else DeleteSnapshot (fst x))
           (volume_snapshots resources)"
  by (simp add: storage_clean_def fst_seq volume_loop_calls snapshot_loop_calls)

subsection \<open>Instances\<close>

lemma delete_fip_by_address_calls:
  "list_all (instance_call False) (calls_of (fst (delete_fip_by_address conn lst a s)))"
  by (simp add: delete_fip_by_address_def calls_of_try_call split: option.splits)

lemma delete_floating_ips_calls:
  "list_all (instance_call False) (calls_of (fst (snd (delete_floating_ips conn fips s))))"
  using for_each_all[of fips "instance_call False" "delete_fip_by_address conn _",
                     OF delete_fip_by_address_calls]
  by (simp add: delete_floating_ips_def case_prod_beta split: sum.splits)

lemma clean_instance_calls:
  "list_all (instance_call dry) (calls_of (fst (snd (clean_instance conn dry x s))))"
  using delete_floating_ips_calls[of conn]
  by (cases dry)
     (simp_all add: clean_instance_def instance_handler_def Let_def case_prod_beta
        split: sum.splits option.splits)

lemma clean_instance_count:
  "count_list (calls_of (fst (snd (clean_instance conn dry x s)))) (DeleteServer i)
     \<le> (if fst x = i then 1 else 0)"
proof -
  have "count_list (calls_of (fst (snd (delete_floating_ips conn fips s1)))) (DeleteServer i) = 0"
    for fips s1
  proof -
    have "list_all (\<lambda>c. c \<noteq> DeleteServer i)
            (calls_of (fst (snd (delete_floating_ips conn fips s1))))"
      using for_each_all[of fips "\<lambda>c. c \<noteq> DeleteServer i" "delete_fip_by_address conn _"]
      by (simp add: delete_floating_ips_def case_prod_beta delete_fip_by_address_def
            calls_of_try_call split: sum.splits option.splits)
    then show ?thesis by (rule count_zero_if_all) simp
  qed
  then show ?thesis
    by (simp add: clean_instance_def instance_handler_def Let_def case_prod_beta
          split: sum.splits option.splits)
qed

lemma clean_instances_calls:
  "list_all (instance_call dry) (calls_of (fst (snd (clean_instances conn dry xs s))))"
proof (induction xs arbitrary: s)
  case Nil
  then show ?case by simp
next
  case (Cons x xs)
  from Cons.IH[of "snd (snd (clean_instance conn dry x s))"] clean_instance_calls[of dry conn x s]
  show ?case by (simp add: case_prod_beta)
qed

lemma clean_instances_count:
  "count_list (calls_of (fst (snd (clean_instances conn dry xs s)))) (DeleteServer i)
     \<le> sum_list (map (\<lambda>x. if fst x = i then 1 else 0) xs)"
proof (induction xs arbitrary: s)
  case Nil
  then show ?case by simp
next
  case (Cons x xs)
  from Cons.IH[of "snd (snd (clean_instance conn dry x s))"] clean_instance_count[of conn dry x s i]
  show ?case by (simp add: case_prod_beta)
qed

lemma check_instances_calls:
  "list_all (instance_call dry) (calls_of (fst (snd (check_instances conn xs s))))"
proof (induction xs arbitrary: s)
  case Nil
  then show ?case by simp
next
  case (Cons x xs)
  obtain i n where x: "x = (i, n)" by (cases x)
  from Cons.IH[of "snd (get_server conn i s)"] show ?case
    unfolding x by (simp add: case_prod_beta split: sum.splits)
qed

lemma wait_loop_calls:
  "list_all (instance_call dry) (calls_of (fst (wait_loop conn n deleting s)))"
proof (induction n arbitrary: deleting s)
  case 0
  then show ?case by simp
next
  case (Suc n)
  from Suc.IH[of "fst (check_instances conn deleting s)" "snd (snd (check_instances conn deleting s))"]
       check_instances_calls[of dry conn deleting s]
  show ?case by (simp add: case_prod_beta)
qed

lemma compute_instances_calls:
  "list_all (instance_call dry) (calls_of (fst (compute_instances conn dry resources s)))"
  using clean_instances_calls[of dry conn "instances resources" s]
        wait_loop_calls[of dry conn DEFAULT_INSTANCE_DELETE_RETRIES]
  by (cases dry)
     (simp_all add: compute_instances_def wait_for_instance_deletion_def case_prod_beta)

lemma compute_instances_count:
  assumes "distinct (map fst (instances resources))"
  shows "count_list (calls_of (fst (compute_instances conn dry resources s))) (DeleteServer i) \<le> 1"
proof -
  have w: "count_list (calls_of (fst (wait_loop conn n deleting s1))) (DeleteServer i) = 0"
    for n deleting s1
    using wait_loop_calls[of True conn n deleting s1] by (rule count_zero_if_all) simp
  have "count_list (calls_of (fst (snd (clean_instances conn dry (instances resources) s))))
          (DeleteServer i) \<le> 1"
    using clean_instances_count[of conn dry "instances resources" s i]
          sum_list_key_bound[OF assms, of i 1]
    by simp
  with w show ?thesis
    by (cases dry)
       (simp_all add: compute_instances_def wait_for_instance_deletion_def case_prod_beta)
qed

subsection \<open>The compute cleaner as a whole\<close>

lemma list_all_map_iff: "list_all Q (map f xs) = (\<forall>x\<in>set xs. Q (f x))"
  by (induction xs) auto

lemma compute_clean_all:
  assumes "\<And>c. instance_call dry c \<Longrightarrow> Q c"
    and "\<And>i. \<not> dry \<Longrightarrow> Q (DeleteFlavor i)"
    and "\<And>i. \<not> dry \<Longrightarrow> Q (DeleteKeypair i)"
    and "\<And>i. \<not> dry \<Longrightarrow> Q (DeleteImage i)"
  shows "list_all Q (calls_of (fst (compute_clean conn dry resources s)))"
proof -
  have "list_all Q (calls_of (fst (compute_instances conn dry resources s)))"
    using compute_instances_calls[of dry conn resources s] assms(1) by (rule list_all_weaken)
  then show ?thesis
    using assms(2-4)
    by (simp add: compute_clean_def fst_seq snd_seq flavor_loop_calls keypair_loop_calls
          image_loop_calls list_all_map_iff)
qed

subsection \<open>Advanced services\<close>

lemma clean_stack_calls:
  "list_all (stack_call dry) (calls_of (fst (clean_stack conn dry x s)))"
  by (cases dry) (simp_all add: clean_stack_def case_prod_beta split: option.splits sum.splits)

lemma advanced_clean_all:
  assumes "\<And>c. stack_call dry c \<Longrightarrow> Q c"
    and "\<And>i. \<not> dry \<Longrightarrow> Q (DeleteZone i)"
  shows "list_all Q (calls_of (fst (advanced_clean conn dry available resources s)))"
proof -
  have "list_all Q (calls_of (fst (for_each (clean_stack conn dry) xs s1)))" for xs s1
    using for_each_all[of xs "stack_call dry" "clean_stack conn dry" s1, OF clean_stack_calls]
          assms(1)
    by (rule list_all_weaken)
  then show ?thesis
    using assms(2)
    by (simp add: advanced_clean_def fst_seq snd_seq zone_loop_calls list_all_map_iff)
qed

lemma advanced_clean_zone_count:
  assumes "distinct (map fst (dns_zones resources))"
  shows "count_list (calls_of (fst (advanced_clean conn dry available resources s))) (DeleteZone i) \<le> 1"
proof -
  have "count_list (calls_of (fst (for_each (clean_stack conn dry) xs s1))) (DeleteZone i) = 0"
    for xs s1
    using for_each_all[of xs "stack_call dry" "clean_stack conn dry" s1, OF clean_stack_calls]
    by (rule count_zero_if_all) simp
  then show ?thesis
    using count_list_map_key[OF assms, of DeleteZone i]
    by (cases dry) (simp_all add: advanced_clean_def fst_seq snd_seq zone_loop_calls inj_def)
qed

subsection \<open>Load balancers\<close>

lemma verify_loop_load_balancer_calls:
  "list_all (\<lambda>c. c = GetLoadBalancer lb_id)
     (calls_of (fst (snd (verify_loop conn ''LOAD BALANCER'' lb_id delay n s))))"
proof (induction n arbitrary: s)
  case 0
  then show ?case by simp
next
  case (Suc n)
  have p: "probe conn (upper ''LOAD BALANCER'') lb_id s
        = Some (GetLoadBalancer lb_id, raised (fst (get_load_balancer conn lb_id s)),
                snd (get_load_balancer conn lb_id s))"
    by (simp add: upper_load_balancer probe_def case_prod_beta)
  from Suc.IH[of "snd (get_load_balancer conn lb_id s)"] show ?case
    by (simp add: p case_prod_beta split: option.splits)
qed

lemma verify_load_balancer_calls:
  "list_all (\<lambda>c. c = GetLoadBalancer lb_id)
     (calls_of (fst (snd (verify_resource_deleted conn mdry ''LOAD BALANCER'' lb_id k delay s))))"
  using verify_loop_load_balancer_calls[of lb_id conn delay k s]
  by (simp add: verify_resource_deleted_def)

lemma lb_loop_calls:
  "list_all (\<lambda>c. \<not> dry \<and> (c = GetLoadBalancer lb_id \<or> c = DeleteLoadBalancer lb_id))
     (calls_of (fst (lb_loop conn dry monitor lb_id name n s)))"
proof (induction n arbitrary: s)
  case 0
  then show ?case by simp
next
  case (Suc n)
  have v: "list_all (\<lambda>c. \<not> dry \<and> (c = GetLoadBalancer lb_id \<or> c = DeleteLoadBalancer lb_id))
     (calls_of (fst (snd (verify_resource_deleted conn mdry ''LOAD BALANCER'' lb_id k delay s1))))"
    if "\<not> dry" for mdry k delay s1
    by (rule list_all_weaken[OF verify_load_balancer_calls[of lb_id conn mdry k delay s1]])
       (simp add: that)
  show ?case
  proof (cases dry)
    case True
    then show ?thesis by simp
  next
    case False
    with Suc.IH v[OF False] show ?thesis
      by (simp add: case_prod_beta lb_except_def split: sum.splits option.splits)
  qed
qed

lemma lb_loop_count_live:
  "count_list (calls_of (fst (lb_loop conn False monitor lb_id name n s))) (DeleteLoadBalancer i)
     \<le> (if lb_id = i then n else 0)"
proof (induction n arbitrary: s)
  case 0
  then show ?case by simp
next
  case (Suc n)
  have v: "count_list
     (calls_of (fst (snd (verify_resource_deleted conn mdry ''LOAD BALANCER'' lb_id k delay s1))))
     (DeleteLoadBalancer i) = 0" for mdry k delay s1
    using verify_load_balancer_calls[of lb_id conn mdry k delay s1]
    by (rule count_zero_if_all) simp
  have ih: "count_list (calls_of (fst (lb_loop conn False monitor lb_id name n s1)))
              (DeleteLoadBalancer i) \<le> (if lb_id = i then n else 0)" for s1
    by (rule Suc.IH)
  show ?case
  proof (cases "lb_id = i")
    case True
    have ih': "count_list (calls_of (fst (lb_loop conn False monitor lb_id name n s1)))
              (DeleteLoadBalancer i) \<le> n" for s1 using ih[of s1] True by simp
    have le: "count_list (calls_of (fst (lb_loop conn False monitor lb_id name n s1)))
              (DeleteLoadBalancer i) \<le> Suc n" for s1
      using ih'[of s1] by simp
    from v ih' le show ?thesis
      unfolding True[symmetric]
      by (cases monitor)
         (simp_all add: case_prod_beta lb_except_def split: sum.splits option.splits)
  next
    case False
    have ih': "count_list (calls_of (fst (lb_loop conn False monitor lb_id name n s1)))
              (DeleteLoadBalancer i) = 0" for s1 using ih[of s1] False by simp
    from False v ih' show ?thesis
      by (cases monitor)
         (simp_all add: case_prod_beta lb_except_def split: sum.splits option.splits)
  qed
qed

lemma lb_loop_count:
  "count_list (calls_of (fst (lb_loop conn dry monitor lb_id name n s))) (DeleteLoadBalancer i)
     \<le> (if lb_id = i then n else 0)"
proof (cases dry)
  case True
  then show ?thesis by (cases n) simp_all
next
  case False
  then show ?thesis using lb_loop_count_live[of conn monitor lb_id name n s i] by simp
qed

lemma loadbalancer_clean_calls:
  "list_all (loadbalancer_call dry)
     (calls_of (fst (loadbalancer_clean conn dry monitor resources s)))"
proof -
  have "list_all (loadbalancer_call dry) (calls_of (fst (clean_loadbalancer conn dry monitor x s1)))"
    for x s1
  proof -
    have eq: "clean_loadbalancer conn dry monitor x s1
                = lb_loop conn dry monitor (fst x) (snd x) DEFAULT_RETRY_COUNT s1"
      by (simp add: clean_loadbalancer_def case_prod_beta)
    show ?thesis
      unfolding eq
      by (rule list_all_weaken[OF lb_loop_calls[of dry "fst x" conn monitor "snd x"
                                                   DEFAULT_RETRY_COUNT s1]]) auto
  qed
  then show ?thesis
    unfolding loadbalancer_clean_def by (rule for_each_all)
qed

lemma loadbalancer_clean_count:
  assumes "distinct (map fst (loadbalancers resources))"
  shows "count_list (calls_of (fst (loadbalancer_clean conn dry monitor resources s)))
           (DeleteLoadBalancer i) \<le> 3"
proof -
  have "count_list (calls_of (fst (clean_loadbalancer conn dry monitor x s1))) (DeleteLoadBalancer i)
          \<le> (if fst x = i then 3 else 0)" for x s1
  proof -
    have eq: "clean_loadbalancer conn dry monitor x s1
                = lb_loop conn dry monitor (fst x) (snd x) 3 s1"
      by (simp add: clean_loadbalancer_def case_prod_beta DEFAULT_RETRY_COUNT_def)
    show ?thesis
      unfolding eq by (rule lb_loop_count)
  qed
  from for_each_count[of "loadbalancers resources" "clean_loadbalancer conn dry monitor"
         "DeleteLoadBalancer i" "\<lambda>x. if fst x = i then 3 else 0" s, OF this]
       sum_list_key_bound[OF assms, of i 3]
  show ?thesis by (simp add: loadbalancer_clean_def)
qed

subsection \<open>Floating IPs and ports of the network cleaner\<close>

lemma delete_floating_ip_calls:
  "calls_of (fst (delete_floating_ip conn dry fip s)) = (if dry then [] else [DeleteIp (fip_id fip)])"
  by (simp add: delete_floating_ip_def calls_of_try_call)

lemma clean_floating_ip_calls:
  "list_all (floating_ip_call dry) (calls_of (fst (clean_floating_ip conn dry x s)))"
  by (cases dry)
     (simp_all add: clean_floating_ip_def case_prod_beta delete_floating_ip_calls split: sum.splits)

lemma sweep_floating_ip_calls:
  "list_all (floating_ip_call dry) (calls_of (fst (sweep_floating_ip conn dry search resources fip s)))"
  by (cases dry) (simp_all add: sweep_floating_ip_def delete_floating_ip_calls)

lemma sweep_floating_ips_calls:
  "list_all (floating_ip_call dry) (calls_of (fst (sweep_floating_ips conn dry search resources s)))"
  using for_each_all[of _ "floating_ip_call dry" "sweep_floating_ip conn dry search resources",
                     OF sweep_floating_ip_calls]
  by (simp add: sweep_floating_ips_def case_prod_beta split: sum.splits)

lemma sweep_port_calls:
  "list_all (port_sweep_call dry) (calls_of (fst (sweep_port conn dry search port s)))"
  by (cases dry) (simp_all add: sweep_port_def calls_of_try_call)

lemma sweep_ports_calls:
  "list_all (port_sweep_call dry) (calls_of (fst (sweep_ports conn dry search s)))"
  using for_each_all[of _ "port_sweep_call dry" "sweep_port conn dry search", OF sweep_port_calls]
  by (simp add: sweep_ports_def case_prod_beta split: sum.splits)

subsection \<open>Routers\<close>

lemma collect_router_fips_calls:
  "list_all (\<lambda>c. \<exists>p. c = GetPort p) (calls_of (fst (snd (collect_router_fips conn rid fips s))))"
proof (induction fips arbitrary: s)
  case Nil
  then show ?case by simp
next
  case (Cons fip fips)
  from Cons.IH[of s] Cons.IH[of "snd (get_port conn (fip_port_id fip) s)"]
  show ?case by (simp add: case_prod_beta)
qed

lemma delete_router_fip_calls:
  "calls_of (fst (delete_router_fip conn fip s)) = [DeleteIp (fip_id fip)]"
  by (simp add: delete_router_fip_def case_prod_beta split: option.splits)

lemma delete_router_fips_calls:
  "calls_of (fst (for_each (delete_router_fip conn) fips s)) = map (\<lambda>fip. DeleteIp (fip_id fip)) fips"
  using for_each_calls_eq[of fips "delete_router_fip conn" "\<lambda>fip. [DeleteIp (fip_id fip)]" s,
                          OF delete_router_fip_calls]
  by (simp add: concat_map_singleton)

lemma filter_none: "list_all (\<lambda>c. \<not> P c) xs \<Longrightarrow> filter P xs = []"
  by (induction xs) auto

lemma filter_all: "list_all P xs \<Longrightarrow> filter P xs = xs"
  by (induction xs) auto

lemma router_fips_phase_mutating:
  "\<exists>fs. filter mutating (calls_of (fst (snd (router_fips_phase conn rid previous s))))
           = map DeleteIp fs"
proof (cases "fst (ips conn s)")
  case (Inl e)
  then have "filter mutating (calls_of (fst (snd (router_fips_phase conn rid previous s)))) = map DeleteIp []"
    by (simp add: router_fips_phase_def case_prod_beta)
  then show ?thesis by (intro exI[of _ "[]"]) simp
next
  case (Inr all_fips)
  let ?s1 = "snd (ips conn s)"
  let ?col = "collect_router_fips conn rid all_fips ?s1"
  have c: "filter mutating (calls_of (fst (snd ?col))) = []"
    by (rule filter_none, rule list_all_weaken[OF collect_router_fips_calls]) auto
  have "filter mutating (calls_of (fst (snd (router_fips_phase conn rid previous s))))
          = map DeleteIp (map fip_id (fst ?col))"
    using Inr c
    by (simp add: router_fips_phase_def case_prod_beta delete_router_fips_calls filter_all
          list_all_map_iff o_def)
  then show ?thesis by blast
qed

lemma router_fips_phase_calls:
  "list_all router_fip_call (calls_of (fst (snd (router_fips_phase conn rid previous s))))"
proof -
  have "list_all router_fip_call (calls_of (fst (snd (collect_router_fips conn rid fips s1))))"
    for fips s1
    by (rule list_all_weaken[OF collect_router_fips_calls]) auto
  then show ?thesis
    by (simp add: router_fips_phase_def case_prod_beta delete_router_fips_calls list_all_map_iff
          split: sum.splits)
qed

lemma clear_gateway_calls:
  "calls_of (fst (clear_gateway conn rid name router s)) = [] \<or>
   calls_of (fst (clear_gateway conn rid name router s)) = [UpdateRouter rid]"
  by (simp add: clear_gateway_def case_prod_beta split: option.splits)

lemma remove_interface_calls:
  "calls_of (fst (remove_interface conn rid port s))
     = map (\<lambda>fixed. RemoveInterfaceFromRouter rid (subnet_id fixed)) (take 1 (fixed_ips port))"
  by (simp add: remove_interface_def case_prod_beta split: list.splits)

lemma remove_interfaces_calls:
  "calls_of (fst (for_each (remove_interface conn rid) port_list s))
     = map (RemoveInterfaceFromRouter rid)
         (concat (map (\<lambda>port. map subnet_id (take 1 (fixed_ips port))) port_list))"
  using for_each_calls_eq[of port_list "remove_interface conn rid"
          "\<lambda>port. map (\<lambda>fixed. RemoveInterfaceFromRouter rid (subnet_id fixed))
                     (take 1 (fixed_ips port))" s, OF remove_interface_calls]
  by (simp add: map_concat o_def)

lemma remove_interfaces_and_delete_calls:
  "\<exists>ifs del. calls_of (fst (remove_interfaces_and_delete conn rid name s))
             = ListPorts (ByDevice rid) # map (RemoveInterfaceFromRouter rid) ifs @ del \<and>
           (del = [] \<or> del = [DeleteRouter rid])"
proof (cases "fst (ports conn (ByDevice rid) s)")
  case (Inl e)
  then have "calls_of (fst (remove_interfaces_and_delete conn rid name s))
             = ListPorts (ByDevice rid) # map (RemoveInterfaceFromRouter rid) [] @ []"
    by (simp add: remove_interfaces_and_delete_def case_prod_beta)
  then show ?thesis by blast
next
  case (Inr port_list)
  then have "calls_of (fst (remove_interfaces_and_delete conn rid name s))
             = ListPorts (ByDevice rid)
               # map (RemoveInterfaceFromRouter rid)
                   (concat (map (\<lambda>port. map subnet_id (take 1 (fixed_ips port))) port_list))
               @ [DeleteRouter rid]"
    by (simp add: remove_interfaces_and_delete_def case_prod_beta fst_seq snd_seq
          remove_interfaces_calls calls_of_try_call)
  then show ?thesis by blast
qed

text \<open>
  The mutating calls of the teardown of one router in a live run: deletions of floating
  IPs, then at most one gateway update, then removals of interfaces of this router, then
  at most one deletion of this router.
\<close>

lemma clean_router_mutating:
  "\<exists>fs gw ifs del.
     filter mutating (calls_of (fst (snd (clean_router conn False previous (rid, name) s))))
       = map DeleteIp fs @ gw @ map (RemoveInterfaceFromRouter rid) ifs @ del \<and>
     (gw = [] \<or> gw = [UpdateRouter rid]) \<and> (del = [] \<or> del = [DeleteRouter rid])"
proof (cases "fst (get_router conn rid s)")
  case (Inl e)
  then have "filter mutating (calls_of (fst (snd (clean_router conn False previous (rid, name) s))))
       = map DeleteIp [] @ [] @ map (RemoveInterfaceFromRouter rid) [] @ []"
    by (simp add: clean_router_def case_prod_beta)
  then show ?thesis by (intro exI[of _ "[]"]) simp
next
  case (Inr router)
  let ?s1 = "snd (get_router conn rid s)"
  let ?ph = "router_fips_phase conn rid previous ?s1"
  obtain fs where fs: "filter mutating (calls_of (fst (snd ?ph))) = map DeleteIp fs"
    using router_fips_phase_mutating[of conn rid previous ?s1] by blast
  show ?thesis
  proof (cases "fst ?ph")
    case None
    with Inr fs have "filter mutating (calls_of (fst (snd (clean_router conn False previous (rid, name) s))))
       = map DeleteIp fs @ [] @ map (RemoveInterfaceFromRouter rid) [] @ []"
      by (simp add: clean_router_def case_prod_beta)
    then show ?thesis by blast
  next
    case (Some router_fips)
    let ?s2 = "snd (snd ?ph)"
    let ?gw = "clear_gateway conn rid name router ?s2"
    let ?rd = "remove_interfaces_and_delete conn rid name (snd ?gw)"
    obtain ifs del where rd: "calls_of (fst ?rd)
             = ListPorts (ByDevice rid) # map (RemoveInterfaceFromRouter rid) ifs @ del"
        and del: "del = [] \<or> del = [DeleteRouter rid]"
      using remove_interfaces_and_delete_calls[of conn rid name "snd ?gw"] by blast
    have gw: "calls_of (fst ?gw) = [] \<or> calls_of (fst ?gw) = [UpdateRouter rid]"
      by (rule clear_gateway_calls)
    have frd: "filter mutating (calls_of (fst ?rd)) = map (RemoveInterfaceFromRouter rid) ifs @ del"
      using del unfolding rd by (auto simp: filter_all list_all_map_iff)
    have fgw: "filter mutating (calls_of (fst ?gw)) = calls_of (fst ?gw)"
      using gw by auto
    have "filter mutating (calls_of (fst (snd (clean_router conn False previous (rid, name) s))))
       = map DeleteIp fs @ calls_of (fst ?gw) @ map (RemoveInterfaceFromRouter rid) ifs @ del"
      using Inr Some fs frd fgw
      by (simp add: clean_router_def case_prod_beta fst_seq snd_seq)
    with gw del show ?thesis by blast
  qed
qed

lemma count_list_filter: "P d \<Longrightarrow> count_list (filter P xs) d = count_list xs d"
  by (induction xs) auto

lemma calls_of_interface_reports [simp]: "calls_of (interface_reports port_list) = []"
  by (induction port_list) (auto simp: interface_reports_def split: list.splits)

lemma clean_router_count:
  "count_list (calls_of (fst (snd (clean_router conn dry previous x s)))) (DeleteRouter i)
     \<le> (if fst x = i then 1 else 0)"
proof (cases dry)
  case True
  then show ?thesis
    by (simp add: clean_router_def case_prod_beta split: sum.splits)
next
  case False
  obtain rid name where x: "x = (rid, name)" by (cases x)
  obtain fs gw ifs del where
    sh: "filter mutating (calls_of (fst (snd (clean_router conn False previous (rid, name) s))))
           = map DeleteIp fs @ gw @ map (RemoveInterfaceFromRouter rid) ifs @ del"
    and gw: "gw = [] \<or> gw = [UpdateRouter rid]" and del: "del = [] \<or> del = [DeleteRouter rid]"
    using clean_router_mutating[of conn previous rid name s] by blast
  have "count_list (calls_of (fst (snd (clean_router conn False previous (rid, name) s)))) (DeleteRouter i)
        = count_list (map DeleteIp fs @ gw @ map (RemoveInterfaceFromRouter rid) ifs @ del)
            (DeleteRouter i)"
    unfolding sh[symmetric] by (simp add: count_list_filter)
  also have "\<dots> \<le> (if rid = i then 1 else 0)"
    using gw del by (auto simp: count_map_other)
  finally show ?thesis using False x by simp
qed

lemma clean_routers_count:
  "count_list (calls_of (fst (clean_routers conn dry previous xs s))) (DeleteRouter i)
     \<le> sum_list (map (\<lambda>x. if fst x = i then 1 else 0) xs)"
proof (induction xs arbitrary: previous s)
  case Nil
  then show ?case by simp
next
  case (Cons x xs)
  from Cons.IH[of "fst (clean_router conn dry previous x s)"
                  "snd (snd (clean_router conn dry previous x s))"]
       clean_router_count[of conn dry previous x s i]
  show ?case by (simp add: case_prod_beta)
qed

lemma clear_gateway_all:
  "list_all (router_call False) (calls_of (fst (clear_gateway conn rid name router s)))"
  by (simp add: clear_gateway_def case_prod_beta split: option.splits)

lemma remove_interfaces_and_delete_all:
  "list_all (router_call False) (calls_of (fst (remove_interfaces_and_delete conn rid name s)))"
proof -
  obtain ifs del where "calls_of (fst (remove_interfaces_and_delete conn rid name s))
             = ListPorts (ByDevice rid) # map (RemoveInterfaceFromRouter rid) ifs @ del"
      and "del = [] \<or> del = [DeleteRouter rid]"
    using remove_interfaces_and_delete_calls[of conn rid name s] by blast
  then show ?thesis by (auto simp: list_all_map_iff)
qed

lemma clean_router_calls:
  "list_all (router_call dry) (calls_of (fst (snd (clean_router conn dry previous x s))))"
proof (cases dry)
  case True
  then show ?thesis
    by (simp add: clean_router_def case_prod_beta split: sum.splits)
next
  case False
  have ph: "list_all (router_call False)
              (calls_of (fst (snd (router_fips_phase conn rid previous s1))))" for rid s1
    by (rule list_all_weaken[OF router_fips_phase_calls]) (auto elim: router_fip_call.elims)
  from False ph clear_gateway_all[of conn] remove_interfaces_and_delete_all[of conn]
  show ?thesis
    by (simp add: clean_router_def case_prod_beta fst_seq snd_seq split: sum.splits option.splits)
qed

lemma clean_routers_calls:
  "list_all (router_call dry) (calls_of (fst (clean_routers conn dry previous xs s)))"
proof (induction xs arbitrary: previous s)
  case Nil
  then show ?case by simp
next
  case (Cons x xs)
  from Cons.IH[of "fst (clean_router conn dry previous x s)"
                  "snd (snd (clean_router conn dry previous x s))"]
       clean_router_calls[of dry conn previous x s]
  show ?case by (simp add: case_prod_beta)
qed

lemma reports_are_not_calls [simp]:
  "Call c r \<noteq> router_handler n e" "Call c r \<noteq> report_deletion d t n"
  "Call c r \<noteq> report_not_found t n" "Call c r \<noteq> report_error t n m"
  "Call c r \<noteq> report_failure t n e"
  by (simp_all add: router_handler_def report_deletion_def report_not_found_def report_error_def
        report_failure_def)

lemma not_in_if_all: "list_all P (calls_of evs) \<Longrightarrow> \<not> P c \<Longrightarrow> Call c r \<notin> set evs"
  using call_in_calls_of[of c r evs] by (auto simp: list_all_iff)

subsection \<open>What the teardown of a router performs\<close>

lemma port_fetched_candidate: "is_router_fip_candidate rid f = port_fetched rid f"
  by (simp add: is_router_fip_candidate_def port_fetched_def split: option.splits)

lemma collect_router_fips_bound:
  "fst (collect_router_fips conn rid listing s) = router_bound_fips conn rid listing s"
proof (induction listing arbitrary: s)
  case Nil
  then show ?case by (simp add: router_bound_fips_def)
next
  case (Cons f listing)
  show ?case
  proof (cases "port_fetched rid f")
    case True
    with Cons.IH[of "snd (get_port conn (fip_port_id f) s)"] show ?thesis
      by (simp add: router_bound_fips_def on_router_port_def port_fetched_candidate case_prod_beta
            split: sum.splits)
  next
    case False
    with Cons.IH[of s] show ?thesis
      by (simp add: router_bound_fips_def on_router_port_def port_fetched_candidate)
  qed
qed

lemma clear_gateway_calls_eq:
  "calls_of (fst (clear_gateway conn rid name router s))
     = (if external_gateway_info router \<noteq> None then [UpdateRouter rid] else [])"
  by (simp add: clear_gateway_def case_prod_beta split: option.splits)

lemma clean_router_performed:
  assumes gr: "get_router conn rid s = (Inr router, s1)"
    and li: "ips conn s1 = (Inr listing, s2)"
    and co: "collect_router_fips conn rid listing s2 = (router_fips, evs2, s3)"
    and de: "for_each (delete_router_fip conn) router_fips s3 = (evs3, s4)"
    and gw: "clear_gateway conn rid name router s4 = (evs4, s5)"
    and po: "ports conn (ByDevice rid) s5 = (Inr port_list, s6)"
  shows "filter mutating (calls_of (fst (snd (clean_router conn False previous (rid, name) s))))
           = map DeleteIp (map fip_id (router_bound_fips conn rid listing s2))
             @ (if external_gateway_info router \<noteq> None then [UpdateRouter rid] else [])
             @ map (RemoveInterfaceFromRouter rid) (first_subnets port_list)
             @ [DeleteRouter rid]"
proof -
  have ph: "router_fips_phase conn rid previous s1
              = (Some router_fips, Call ListIps None # evs2 @ evs3, s4)"
    by (simp add: router_fips_phase_def li co de)
  have rf: "router_fips = router_bound_fips conn rid listing s2"
    using collect_router_fips_bound[of conn rid listing s2] co by simp
  have c2: "filter mutating (calls_of evs2) = []"
    using collect_router_fips_calls[of conn rid listing s2] co
    by (intro filter_none) (auto elim: list_all_weaken)
  have c3: "calls_of evs3 = map (\<lambda>fip. DeleteIp (fip_id fip)) router_fips"
    using delete_router_fips_calls[of conn router_fips s3] de by simp
  have c4: "calls_of evs4 = (if external_gateway_info router \<noteq> None then [UpdateRouter rid] else [])"
    using clear_gateway_calls_eq[of conn rid name router s4] gw by simp
  have rd: "calls_of (fst (remove_interfaces_and_delete conn rid name s5))
              = ListPorts (ByDevice rid) # map (RemoveInterfaceFromRouter rid) (first_subnets port_list)
                @ [DeleteRouter rid]"
    by (simp add: remove_interfaces_and_delete_def po case_prod_beta fst_seq remove_interfaces_calls
          calls_of_try_call first_subnets_def)
  have ev: "calls_of (fst (snd (clean_router conn False previous (rid, name) s)))
              = GetRouter rid # ListIps # calls_of evs2 @ calls_of evs3 @ calls_of evs4
                @ calls_of (fst (remove_interfaces_and_delete conn rid name s5))"
    by (simp add: clean_router_def gr ph case_prod_beta fst_seq snd_seq gw)
  show ?thesis
    unfolding ev rd c3 c4 rf[symmetric]
    by (simp add: c2 filter_all list_all_map_iff o_def)
qed

lemma router_handler_report:
  "router_handler name e
     = Report ''ROUTER'' name
         (if is_not_found_error e then AlreadyGone
          else if contains ''Conflict'' (exc_type e) \<or> contains ''409'' (exc_msg e)
          then Failed (''Conflict (may have dependencies): '' @ exc_msg e)
          else Failed (exc_msg e))"
  by (simp add: router_handler_def report_not_found_def report_error_def)

lemma remove_interfaces_and_delete_last:
  assumes "Call (DeleteRouter rid) r \<in> set (fst (remove_interfaces_and_delete conn rid name s))"
  shows "\<exists>pre. fst (remove_interfaces_and_delete conn rid name s)
           = pre @ [Call (DeleteRouter rid) r,
                    (case r of None \<Rightarrow> report_deletion False ''ROUTER'' name
                             | Some e \<Rightarrow> router_handler name e)]"
proof (cases "fst (ports conn (ByDevice rid) s)")
  case (Inl x)
  with assms show ?thesis
    by (simp add: remove_interfaces_and_delete_def case_prod_beta)
next
  case (Inr port_list)
  let ?s1 = "snd (ports conn (ByDevice rid) s)"
  let ?loop = "for_each (remove_interface conn rid) port_list ?s1"
  have "list_all (\<lambda>c. c \<noteq> DeleteRouter rid) (calls_of (fst ?loop))"
    by (simp add: remove_interfaces_calls list_all_map_iff)
  then have no: "Call (DeleteRouter rid) r \<notin> set (fst ?loop)"
    by (rule not_in_if_all) simp
  have ev: "fst (remove_interfaces_and_delete conn rid name s)
      = (Call (ListPorts (ByDevice rid)) None # fst ?loop)
        @ [Call (DeleteRouter rid) (fst (invoke conn (DeleteRouter rid) (snd ?loop))),
           (case fst (invoke conn (DeleteRouter rid) (snd ?loop)) of
              None \<Rightarrow> report_deletion False ''ROUTER'' name
            | Some e \<Rightarrow> router_handler name e)]"
    using Inr
    by (simp add: remove_interfaces_and_delete_def case_prod_beta fst_seq snd_seq try_call_def
          split: option.splits)
  from assms no have "r = fst (invoke conn (DeleteRouter rid) (snd ?loop))"
    unfolding ev by (auto split: option.splits)
  with ev show ?thesis by blast
qed

lemma clean_router_last:
  assumes "Call (DeleteRouter rid) r \<in> set (fst (snd (clean_router conn False previous (rid, name) s)))"
  shows "\<exists>pre. fst (snd (clean_router conn False previous (rid, name) s))
           = pre @ [Call (DeleteRouter rid) r,
                    (case r of None \<Rightarrow> report_deletion False ''ROUTER'' name
                             | Some e \<Rightarrow> router_handler name e)]"
proof (cases "fst (get_router conn rid s)")
  case (Inl x)
  with assms show ?thesis
    by (simp add: clean_router_def case_prod_beta)
next
  case (Inr router)
  let ?s1 = "snd (get_router conn rid s)"
  let ?ph = "router_fips_phase conn rid previous ?s1"
  have noph: "Call (DeleteRouter rid) r \<notin> set (fst (snd ?ph))"
    by (rule not_in_if_all[OF router_fips_phase_calls]) simp
  show ?thesis
  proof (cases "fst ?ph")
    case None
    with assms Inr noph show ?thesis
      by (simp add: clean_router_def case_prod_beta)
  next
    case (Some router_fips)
    let ?gw = "clear_gateway conn rid name router (snd (snd ?ph))"
    let ?rd = "remove_interfaces_and_delete conn rid name (snd ?gw)"
    have nogw: "Call (DeleteRouter rid) r \<notin> set (fst ?gw)"
      by (simp add: clear_gateway_def case_prod_beta split: option.splits)
    have ev: "fst (snd (clean_router conn False previous (rid, name) s))
        = (Call (GetRouter rid) None # fst (snd ?ph)
           @ (if router_fips \<noteq> [] then [Sleep DEFAULT_ROUTER_FIP_WAIT] else []) @ fst ?gw)
          @ fst ?rd"
      using Inr Some by (simp add: clean_router_def case_prod_beta fst_seq snd_seq)
    from assms noph nogw have "Call (DeleteRouter rid) r \<in> set (fst ?rd)"
      unfolding ev by (auto split: if_splits)
    from remove_interfaces_and_delete_last[OF this] obtain pre where
      "fst ?rd = pre @ [Call (DeleteRouter rid) r,
                    (case r of None \<Rightarrow> report_deletion False ''ROUTER'' name
                             | Some e \<Rightarrow> router_handler name e)]"
      by blast
    then have "fst (snd (clean_router conn False previous (rid, name) s))
        = ((Call (GetRouter rid) None # fst (snd ?ph)
           @ (if router_fips \<noteq> [] then [Sleep DEFAULT_ROUTER_FIP_WAIT] else []) @ fst ?gw) @ pre)
          @ [Call (DeleteRouter rid) r,
                    (case r of None \<Rightarrow> report_deletion False ''ROUTER'' name
                             | Some e \<Rightarrow> router_handler name e)]"
      unfolding ev by simp
    then show ?thesis by blast
  qed
qed

text \<open>
  C6, as the code has it. A conflict on the deletion of a router is not retried: the
  scripted control plane raises a conflict on the first \<open>delete_router\<close> only (a second
  attempt would succeed); the run issues one \<open>delete_router\<close> and reports the router
  failed. When \<open>get_router\<close> raises, nothing is torn down; when the listing of the
  floating IPs raises for the first router, or the listing of the ports of the router
  raises, the router is not deleted.
\<close>

theorem router_teardown_counterexample:
  "clean_routers
     (scripted_conn (\<lambda>c n. if c = DeleteRouter ''r1'' \<and> n \<le> 4 then Some conflict_409 else None) [] [])
     False None [(''r1'', ''test-router'')] 0
   = ([Call (GetRouter ''r1'') None, Call ListIps None, Call (UpdateRouter ''r1'') None,
       Report ''Router Gateway'' ''test-router'' Deleted,
       Call (ListPorts (ByDevice ''r1'')) None,
       Call (DeleteRouter ''r1'') (Some conflict_409),
       Report ''ROUTER'' ''test-router''
         (Failed (''Conflict (may have dependencies): '' @ exc_msg conflict_409))], 5) \<and>
   invoke (scripted_conn (\<lambda>c n. if c = DeleteRouter ''r1'' \<and> n \<le> 4 then Some conflict_409 else None)
             [] []) (DeleteRouter ''r1'') 5 = (None, 6) \<and>
   clean_routers
     (scripted_conn (\<lambda>c n. if c = GetRouter ''r1'' then Some server_error_500 else None)
        [fip_on_router] [port_on_router])
     False None [(''r1'', ''test-router'')] 0
   = ([Call (GetRouter ''r1'') (Some server_error_500),
       Report ''ROUTER'' ''test-router'' (Failed (exc_msg server_error_500))], 1) \<and>
   clean_routers
     (scripted_conn (\<lambda>c n. if c = ListIps then Some server_error_500 else None)
        [fip_on_router] [port_on_router])
     False None [(''r1'', ''test-router'')] 0
   = ([Call (GetRouter ''r1'') None, Call ListIps (Some server_error_500),
       Report ''ROUTER'' ''test-router'' (Failed (exc_msg unbound_local_error))], 2) \<and>
   clean_routers
     (scripted_conn (\<lambda>c n. if c = ListPorts (ByDevice ''r1'') then Some server_error_500 else None)
        [fip_on_router] [port_on_router])
     False None [(''r1'', ''test-router'')] 0
   = ([Call (GetRouter ''r1'') None, Call ListIps None, Call (GetPort (Some ''p1'')) None,
       Call (DeleteIp ''f1'') None, Report ''FLOATING IP'' ''203.0.113.7'' Deleted, Sleep 5,
       Call (UpdateRouter ''r1'') None, Report ''Router Gateway'' ''test-router'' Deleted,
       Call (ListPorts (ByDevice ''r1'')) (Some server_error_500),
       Report ''ROUTER'' ''test-router'' (Failed (exc_msg server_error_500))], 6)"
  by code_simp

text \<open>
  C6, amended. In a live run the mutating calls made for one router are always, in this
  order, deletions of floating IPs, at most one clearing of the gateway, removals of
  interfaces of this router, and at most one deletion of the router. When \<open>get_router\<close>,
  the listing of the floating IPs and the listing of the ports of the router return
  normally, the teardown is performed in full, whatever the deletions of floating IPs,
  the clearing of the gateway and the removals of interfaces raise: the floating IPs of
  the listing that are bound to a port of the router are deleted, the gateway is cleared
  when the router has one, the interface on the first subnet of each port of the router
  is removed, and \<open>delete_router\<close> is called. The \<open>delete_router\<close> call is the last call
  for the router and a single report follows it: deleted when it returns; already gone
  when it raises an error classified as not-found; otherwise, for a conflict, failed with
  the message \<open>Conflict (may have dependencies): ...\<close>, without another attempt.
\<close>

theorem router_teardown_order:
  "(\<exists>fs gw ifs del.
      filter mutating (calls_of (fst (snd (clean_router conn False previous (rid, name) s))))
        = map DeleteIp fs @ gw @ map (RemoveInterfaceFromRouter rid) ifs @ del \<and>
      (gw = [] \<or> gw = [UpdateRouter rid]) \<and> (del = [] \<or> del = [DeleteRouter rid])) \<and>
   count_list (calls_of (fst (snd (clean_router conn False previous (rid, name) s))))
     (DeleteRouter rid) \<le> 1 \<and>
   (get_router conn rid s = (Inr router, s1) \<and> ips conn s1 = (Inr listing, s2) \<and>
    collect_router_fips conn rid listing s2 = (router_fips, evs2, s3) \<and>
    for_each (delete_router_fip conn) router_fips s3 = (evs3, s4) \<and>
    clear_gateway conn rid name router s4 = (evs4, s5) \<and>
    ports conn (ByDevice rid) s5 = (Inr port_list, s6) \<longrightarrow>
      filter mutating (calls_of (fst (snd (clean_router conn False previous (rid, name) s))))
        = map DeleteIp (map fip_id (router_bound_fips conn rid listing s2))
          @ (if external_gateway_info router \<noteq> None then [UpdateRouter rid] else [])
          @ map (RemoveInterfaceFromRouter rid) (first_subnets port_list)
          @ [DeleteRouter rid]) \<and>
   (Call (DeleteRouter rid) r \<in> set (fst (snd (clean_router conn False previous (rid, name) s))) \<longrightarrow>
      (\<exists>pre. fst (snd (clean_router conn False previous (rid, name) s))
         = pre @ [Call (DeleteRouter rid) r,
                  Report ''ROUTER'' name
                    (case r of
                       None \<Rightarrow> Deleted
                     | Some e \<Rightarrow>
                         if is_not_found_error e then AlreadyGone
                         else if contains ''Conflict'' (exc_type e) \<or> contains ''409'' (exc_msg e)
                         then Failed (''Conflict (may have dependencies): '' @ exc_msg e)
                         else Failed (exc_msg e))]))"
  (is "?order \<and> ?once \<and> (?reads \<longrightarrow> ?performed) \<and> (?issued \<longrightarrow> ?ends)")
proof -
  have last: "\<exists>pre. fst (snd (clean_router conn False previous (rid, name) s))
         = pre @ [Call (DeleteRouter rid) r,
                  Report ''ROUTER'' name
                    (case r of
                       None \<Rightarrow> Deleted
                     | Some e \<Rightarrow>
                         if is_not_found_error e then AlreadyGone
                         else if contains ''Conflict'' (exc_type e) \<or> contains ''409'' (exc_msg e)
                         then Failed (''Conflict (may have dependencies): '' @ exc_msg e)
                         else Failed (exc_msg e))]"
    if "Call (DeleteRouter rid) r \<in> set (fst (snd (clean_router conn False previous (rid, name) s)))"
    using clean_router_last[OF that]
    by (cases r) (simp_all add: router_handler_report report_deletion_def)
  have performed: "filter mutating (calls_of (fst (snd (clean_router conn False previous (rid, name) s))))
        = map DeleteIp (map fip_id (router_bound_fips conn rid listing s2))
          @ (if external_gateway_info router \<noteq> None then [UpdateRouter rid] else [])
          @ map (RemoveInterfaceFromRouter rid) (first_subnets port_list)
          @ [DeleteRouter rid]"
    if "get_router conn rid s = (Inr router, s1)" "ips conn s1 = (Inr listing, s2)"
       "collect_router_fips conn rid listing s2 = (router_fips, evs2, s3)"
       "for_each (delete_router_fip conn) router_fips s3 = (evs3, s4)"
       "clear_gateway conn rid name router s4 = (evs4, s5)"
       "ports conn (ByDevice rid) s5 = (Inr port_list, s6)"
    using that by (rule clean_router_performed)
  have order: ?order
    by (rule clean_router_mutating)
  have once: ?once
    using clean_router_count[of conn False previous "(rid, name)" s rid] by simp
  have p: "?reads \<longrightarrow> ?performed"
    using performed by blast
  have l: "?issued \<longrightarrow> ?ends"
    using last by blast
  from order once p l show ?thesis by (intro conjI)
qed

theorem router_teardown_order_witness:
  "get_router (scripted_conn (\<lambda>c n. if c = DeleteRouter ''r1'' then Some conflict_409 else None)
        [fip_on_router, fip_elsewhere] [port_on_router, port_elsewhere]) ''r1'' 0
     = (Inr \<lparr>external_gateway_info = Some ''ext-net''\<rparr>, 1) \<and>
   ips (scripted_conn (\<lambda>c n. if c = DeleteRouter ''r1'' then Some conflict_409 else None)
        [fip_on_router, fip_elsewhere] [port_on_router, port_elsewhere]) 1
     = (Inr [fip_on_router, fip_elsewhere], 2) \<and>
   ports (scripted_conn (\<lambda>c n. if c = DeleteRouter ''r1'' then Some conflict_409 else None)
        [fip_on_router, fip_elsewhere] [port_on_router, port_elsewhere]) (ByDevice ''r1'') 6
     = (Inr [port_on_router], 7) \<and>
   router_bound_fips (scripted_conn (\<lambda>c n. if c = DeleteRouter ''r1'' then Some conflict_409 else None)
        [fip_on_router, fip_elsewhere] [port_on_router, port_elsewhere]) ''r1''
        [fip_on_router, fip_elsewhere] 2 = [fip_on_router] \<and>
   filter mutating (calls_of (fst (snd (clean_router
     (scripted_conn (\<lambda>c n. if c = DeleteRouter ''r1'' then Some conflict_409 else None)
        [fip_on_router, fip_elsewhere] [port_on_router, port_elsewhere])
     False None (''r1'', ''test-router'') 0))))
   = [DeleteIp ''f1'', UpdateRouter ''r1'', RemoveInterfaceFromRouter ''r1'' ''sn1'',
      DeleteRouter ''r1''] \<and>
   fst (snd (clean_router
     (scripted_conn (\<lambda>c n. if c = DeleteRouter ''r1'' then Some conflict_409 else None)
        [fip_on_router, fip_elsewhere] [port_on_router, port_elsewhere])
     False None (''r1'', ''test-router'') 0))
   = [Call (GetRouter ''r1'') None, Call ListIps None, Call (GetPort (Some ''p1'')) None,
      Call (GetPort (Some ''p2'')) None,
      Call (DeleteIp ''f1'') None, Report ''FLOATING IP'' ''203.0.113.7'' Deleted,
      Sleep 5,
      Call (UpdateRouter ''r1'') None, Report ''Router Gateway'' ''test-router'' Deleted,
      Call (ListPorts (ByDevice ''r1'')) None,
      Call (RemoveInterfaceFromRouter ''r1'' ''sn1'') None,
      Call (DeleteRouter ''r1'') (Some conflict_409),
      Report ''ROUTER'' ''test-router''
        (Failed (''Conflict (may have dependencies): '' @ exc_msg conflict_409))]"
proof -
  let ?conn = "scripted_conn (\<lambda>c n. if c = DeleteRouter ''r1'' then Some conflict_409 else None)
                 [fip_on_router, fip_elsewhere] [port_on_router, port_elsewhere]"
  have gr: "get_router ?conn ''r1'' 0 = (Inr \<lparr>external_gateway_info = Some ''ext-net''\<rparr>, 1)"
    by code_simp
  have li: "ips ?conn 1 = (Inr [fip_on_router, fip_elsewhere], 2)"
    by code_simp
  have co: "collect_router_fips ?conn ''r1'' [fip_on_router, fip_elsewhere] 2
      = ([fip_on_router], [Call (GetPort (Some ''p1'')) None, Call (GetPort (Some ''p2'')) None], 4)"
    by code_simp
  have de: "for_each (delete_router_fip ?conn) [fip_on_router] 4
      = ([Call (DeleteIp ''f1'') None, Report ''FLOATING IP'' ''203.0.113.7'' Deleted], 5)"
    by code_simp
  have gw: "clear_gateway ?conn ''r1'' ''test-router'' \<lparr>external_gateway_info = Some ''ext-net''\<rparr> 5
      = ([Call (UpdateRouter ''r1'') None, Report ''Router Gateway'' ''test-router'' Deleted], 6)"
    by code_simp
  have po: "ports ?conn (ByDevice ''r1'') 6 = (Inr [port_on_router], 7)"
    by code_simp
  have bound: "router_bound_fips ?conn ''r1'' [fip_on_router, fip_elsewhere] 2 = [fip_on_router]"
    by code_simp
  have subnets: "first_subnets [port_on_router] = [''sn1'']"
    by code_simp
  have f1: "fip_id fip_on_router = ''f1''"
    by (simp add: fip_on_router_def)
  have run: "fst (snd (clean_router ?conn False None (''r1'', ''test-router'') 0))
   = [Call (GetRouter ''r1'') None, Call ListIps None, Call (GetPort (Some ''p1'')) None,
      Call (GetPort (Some ''p2'')) None,
      Call (DeleteIp ''f1'') None, Report ''FLOATING IP'' ''203.0.113.7'' Deleted,
      Sleep 5,
      Call (UpdateRouter ''r1'') None, Report ''Router Gateway'' ''test-router'' Deleted,
      Call (ListPorts (ByDevice ''r1'')) None,
      Call (RemoveInterfaceFromRouter ''r1'' ''sn1'') None,
      Call (DeleteRouter ''r1'') (Some conflict_409),
      Report ''ROUTER'' ''test-router''
        (Failed (''Conflict (may have dependencies): '' @ exc_msg conflict_409))]"
    by code_simp
  from router_teardown_order[of ?conn None "''r1''" "''test-router''" 0
         "\<lparr>external_gateway_info = Some ''ext-net''\<rparr>" 1 "[fip_on_router, fip_elsewhere]" 2
         "[fip_on_router]" "[Call (GetPort (Some ''p1'')) None, Call (GetPort (Some ''p2'')) None]" 4
         "[Call (DeleteIp ''f1'') None, Report ''FLOATING IP'' ''203.0.113.7'' Deleted]" 5
         "[Call (UpdateRouter ''r1'') None, Report ''Router Gateway'' ''test-router'' Deleted]" 6
         "[port_on_router]" 7 "Some conflict_409"]
       gr li co de gw po
  have "filter mutating (calls_of (fst (snd (clean_router ?conn False None (''r1'', ''test-router'') 0))))
   = [DeleteIp ''f1'', UpdateRouter ''r1'', RemoveInterfaceFromRouter ''r1'' ''sn1'',
      DeleteRouter ''r1'']"
    by (simp add: bound subnets f1)
  with gr li po bound run show ?thesis by simp
qed

section \<open>Not-found errors in the advanced-services cleaner\<close>

text \<open>
  C2 at a failing input: \<open>delete_zone\<close> raises a not-found error (a NotFoundException with
  a 404 message, which \<open>is_not_found_error\<close> and the handlers of the other cleaners
  classify as not found). The handler of the advanced-services cleaner looks for
  \<open>NotFound\<close> in the message only and reports the zone as failed; the same error on
  \<open>delete_flavor\<close> is reported as already gone.
\<close>

theorem dns_zone_not_found_reported_failed:
  "is_not_found_error not_found_404 \<and> exc_resource_not_found not_found_404 \<and>
   fst (advanced_clean
          (scripted_conn (\<lambda>c n. if c = DeleteZone ''z1'' then Some not_found_404 else None) [] [])
          False \<lparr>dns = True, heat = False\<rparr>
          (no_resources\<lparr>dns_zones := [(''z1'', ''test-zone.example.'')]\<rparr>) 0)
     = [Call (DeleteZone ''z1'') (Some not_found_404),
        Report ''DNS ZONE'' ''test-zone.example.'' (Failed ''404: Could not find Zone'')] \<and>
   fst (compute_clean
          (scripted_conn (\<lambda>c n. if c = DeleteFlavor ''fl1'' then Some not_found_404 else None) [] [])
          False (no_resources\<lparr>flavors := [(''fl1'', ''test-flavor'')]\<rparr>) 0)
     = [Call (DeleteFlavor ''fl1'') (Some not_found_404),
        Report ''FLAVOR'' ''test-flavor'' AlreadyGone]"
  by (simp add: advanced_clean_def compute_clean_def compute_instances_def seq_def clean_zone_def
        clean_flavor_def try_call_def scripted_conn_def advanced_handler_def report_failure_def
        is_not_found_error_def not_found_404_def no_resources_def report_error_def
        report_not_found_def)

subsection \<open>Networks and security groups\<close>

lemma delete_remaining_port_calls:
  "list_all (port_sweep_call False) (calls_of (fst (delete_remaining_port conn port s)))"
  by (simp add: delete_remaining_port_def case_prod_beta)

lemma delete_remaining_ports_calls:
  "list_all (port_sweep_call False) (calls_of (fst (delete_remaining_ports conn net_id s)))"
  using for_each_all[of _ "port_sweep_call False" "delete_remaining_port conn",
                     OF delete_remaining_port_calls]
  by (simp add: delete_remaining_ports_def case_prod_beta split: sum.splits)

lemma network_loop_calls:
  "list_all (network_step_call dry) (calls_of (fst (network_loop conn dry net_id name n s)))"
proof (cases dry)
  case True
  have "list_all (network_step_call True) (calls_of (fst (network_loop conn True net_id name n s)))"
  proof (induction n arbitrary: s)
    case 0
    then show ?case by simp
  next
    case (Suc n)
    from Suc.IH show ?case
      by (simp add: case_prod_beta Let_def split: option.splits)
  qed
  with True show ?thesis by simp
next
  case False
  have p: "list_all (network_step_call False) (calls_of (fst (delete_remaining_ports conn net_id s1)))"
    for s1
    by (rule list_all_weaken[OF delete_remaining_ports_calls]) (auto elim: port_sweep_call.elims)
  have "list_all (network_step_call False) (calls_of (fst (network_loop conn False net_id name n s)))"
  proof (induction n arbitrary: s)
    case 0
    then show ?case by simp
  next
    case (Suc n)
    from Suc.IH p show ?case
      by (simp add: case_prod_beta Let_def split: option.splits)
  qed
  with False show ?thesis by simp
qed

lemma network_loop_count:
  "count_list (calls_of (fst (network_loop conn dry net_id name n s))) (DeleteNetwork i)
     \<le> (if net_id = i then n else 0)"
proof (cases dry)
  case True
  have "count_list (calls_of (fst (network_loop conn True net_id name n s))) (DeleteNetwork i) = 0"
    using network_loop_calls[of True conn net_id name n s] by (rule count_zero_if_all) simp
  with True show ?thesis by simp
next
  case False
  have p: "count_list (calls_of (fst (delete_remaining_ports conn net_id s1))) (DeleteNetwork i) = 0"
    for s1
    using delete_remaining_ports_calls[of conn net_id s1] by (rule count_zero_if_all) simp
  have "count_list (calls_of (fst (network_loop conn False net_id name n s))) (DeleteNetwork i)
     \<le> (if net_id = i then n else 0)"
  proof (induction n arbitrary: s)
    case 0
    then show ?case by simp
  next
    case (Suc n)
    show ?case
    proof (cases "net_id = i")
      case True
      have ih: "count_list (calls_of (fst (network_loop conn False net_id name n s1)))
                  (DeleteNetwork i) \<le> n" for s1
        using Suc.IH[of s1] True by simp
      from p ih show ?thesis
        unfolding True[symmetric]
        by (simp add: case_prod_beta Let_def split: option.splits)
    next
      case False
      have ih: "count_list (calls_of (fst (network_loop conn False net_id name n s1)))
                  (DeleteNetwork i) = 0" for s1
        using Suc.IH[of s1] False by simp
      from p ih False show ?thesis
        by (simp add: case_prod_beta Let_def split: option.splits)
    qed
  qed
  with False show ?thesis by simp
qed

lemma sec_group_loop_calls:
  "list_all (\<lambda>c. c = (if dry then GetSecurityGroup sg_id else DeleteSecurityGroup sg_id))
     (calls_of (fst (sec_group_loop conn dry sg_id name n s)))"
proof (induction n arbitrary: s)
  case 0
  then show ?case by simp
next
  case (Suc n)
  from Suc.IH show ?case
    by (cases dry) (simp_all add: case_prod_beta Let_def split: option.splits)
qed

lemma sec_group_loop_length:
  "length (calls_of (fst (sec_group_loop conn dry sg_id name n s))) \<le> n"
proof (induction n arbitrary: s)
  case 0
  then show ?case by simp
next
  case (Suc n)
  have "length (calls_of (fst (sec_group_loop conn dry sg_id name n s1))) \<le> Suc n" for s1
    using Suc.IH[of s1] by simp
  with Suc.IH show ?case
    by (cases dry) (simp_all add: case_prod_beta Let_def split: option.splits)
qed

lemma sec_group_loop_count:
  "count_list (calls_of (fst (sec_group_loop conn dry sg_id name n s))) (DeleteSecurityGroup i)
     \<le> (if sg_id = i then n else 0)"
proof (cases "sg_id = i")
  case True
  then show ?thesis
    using count_le_length[of "calls_of (fst (sec_group_loop conn dry sg_id name n s))"
                             "DeleteSecurityGroup i"]
          sec_group_loop_length[of conn dry sg_id name n s]
    by simp
next
  case False
  have "count_list (calls_of (fst (sec_group_loop conn dry sg_id name n s))) (DeleteSecurityGroup i) = 0"
    using sec_group_loop_calls[of dry sg_id conn name n s]
    by (rule count_zero_if_all) (use False in auto)
  with False show ?thesis by simp
qed

lemma clean_sec_groups_calls:
  "list_all (sec_group_call dry) (calls_of (fst (clean_sec_groups conn dry sgs s)))"
proof -
  have "list_all (sec_group_call dry) (calls_of (fst (clean_sec_group conn dry x s1)))" for x s1
  proof -
    have eq: "clean_sec_group conn dry x s1 = sec_group_loop conn dry (fst x) (snd x) 3 s1"
      by (simp add: clean_sec_group_def case_prod_beta)
    show ?thesis unfolding eq
      by (rule list_all_weaken[OF sec_group_loop_calls]) (cases dry; simp)
  qed
  from for_each_all[of sgs "sec_group_call dry" "clean_sec_group conn dry" s, OF this]
  show ?thesis by (simp add: clean_sec_groups_def case_prod_beta)
qed

lemma clean_sec_groups_count:
  assumes "distinct (map fst sgs)"
  shows "count_list (calls_of (fst (clean_sec_groups conn dry sgs s))) (DeleteSecurityGroup i) \<le> 3"
proof -
  have "count_list (calls_of (fst (clean_sec_group conn dry x s1))) (DeleteSecurityGroup i)
          \<le> (if fst x = i then 3 else 0)" for x s1
  proof -
    have eq: "clean_sec_group conn dry x s1 = sec_group_loop conn dry (fst x) (snd x) 3 s1"
      by (simp add: clean_sec_group_def case_prod_beta)
    show ?thesis unfolding eq by (rule sec_group_loop_count)
  qed
  from for_each_count[of sgs "clean_sec_group conn dry" "DeleteSecurityGroup i"
         "\<lambda>x. if fst x = i then 3 else 0" s, OF this]
       sum_list_key_bound[OF assms, of i 3]
  show ?thesis by (simp add: clean_sec_groups_def case_prod_beta)
qed

lemma network_loops_calls:
  "list_all (network_step_call dry) (calls_of (fst (for_each (clean_network conn dry) xs s)))"
proof -
  have "list_all (network_step_call dry) (calls_of (fst (clean_network conn dry x s1)))" for x s1
  proof -
    have eq: "clean_network conn dry x s1 = network_loop conn dry (fst x) (snd x) 3 s1"
      by (simp add: clean_network_def case_prod_beta)
    show ?thesis unfolding eq by (rule network_loop_calls)
  qed
  then show ?thesis by (rule for_each_all)
qed

lemma network_loops_count:
  assumes "distinct (map fst xs)"
  shows "count_list (calls_of (fst (for_each (clean_network conn dry) xs s))) (DeleteNetwork i) \<le> 3"
proof -
  have "count_list (calls_of (fst (clean_network conn dry x s1))) (DeleteNetwork i)
          \<le> (if fst x = i then 3 else 0)" for x s1
  proof -
    have eq: "clean_network conn dry x s1 = network_loop conn dry (fst x) (snd x) 3 s1"
      by (simp add: clean_network_def case_prod_beta)
    show ?thesis unfolding eq by (rule network_loop_count)
  qed
  from for_each_count[of xs "clean_network conn dry" "DeleteNetwork i"
         "\<lambda>x. if fst x = i then 3 else 0" s, OF this]
       sum_list_key_bound[OF assms, of i 3]
  show ?thesis by simp
qed

lemma network_before_sec_groups_all:
  assumes "\<And>c. floating_ip_call dry c \<Longrightarrow> Q c"
    and "\<And>c. port_sweep_call dry c \<Longrightarrow> Q c"
    and "\<And>c. router_call dry c \<Longrightarrow> Q c"
    and "\<And>c. network_step_call dry c \<Longrightarrow> Q c"
  shows "list_all Q (calls_of (fst (network_before_sec_groups conn dry search resources s)))"
proof -
  have 1: "list_all Q (calls_of (fst (for_each (clean_floating_ip conn dry) xs s1)))" for xs s1
    by (rule list_all_weaken[OF for_each_all[of xs "floating_ip_call dry", OF clean_floating_ip_calls]])
       (rule assms(1))
  have 2: "list_all Q (calls_of (fst (sweep_floating_ips conn dry search resources s1)))" for s1
    by (rule list_all_weaken[OF sweep_floating_ips_calls]) (rule assms(1))
  have 3: "list_all Q (calls_of (fst (sweep_ports conn dry search s1)))" for s1
    by (rule list_all_weaken[OF sweep_ports_calls]) (rule assms(2))
  have 4: "list_all Q (calls_of (fst (clean_routers conn dry previous xs s1)))" for previous xs s1
    by (rule list_all_weaken[OF clean_routers_calls]) (rule assms(3))
  have 5: "list_all Q (calls_of (fst (for_each (clean_network conn dry) xs s1)))" for xs s1
    by (rule list_all_weaken[OF network_loops_calls]) (rule assms(4))
  from 1 2 3 4 5 show ?thesis
    by (simp add: network_before_sec_groups_def fst_seq snd_seq)
qed

section \<open>The order of a whole run\<close>

lemma openstack_clean_events:
  "\<exists>s1 s2 s3 s4.
     fst (openstack_clean conn dry search available resources s)
       = map (Pair AdvancedServices) (fst (advanced_clean conn dry available resources s))
         @ map (Pair Compute) (fst (compute_clean conn dry resources s1))
         @ map (Pair Storage) (fst (storage_clean conn dry resources s2))
         @ map (Pair LoadBalancer) (fst (loadbalancer_clean conn dry (Some dry) resources s3))
         @ map (Pair Network) (fst (network_clean conn dry search resources s4))"
  by (simp add: openstack_clean_def cleaner_types_def case_prod_beta) blast

lemma sorted_blocks:
  "sorted (replicate a (0::nat) @ replicate b 1 @ replicate c 2 @ replicate d 3 @ replicate e 4)"
  by (auto simp: sorted_append)

lemma position_values:
  "position AdvancedServices = 0" "position Compute = 1" "position Storage = 2"
  "position LoadBalancer = 3" "position Network = 4"
  by (simp_all add: position_def cleaner_types_def)

lemma map_position_tagged: "map (position \<circ> fst) (map (Pair c) evs) = replicate (length evs) (position c)"
  by (induction evs) auto

lemma no_sg_delete_events:
  "list_all (\<lambda>c. \<not> is_sg_delete_call c) (calls_of evs) \<Longrightarrow>
   list_all (\<lambda>ev. \<not> is_sec_group_delete ev) evs"
  by (induction evs rule: calls_of.induct) auto

lemma advanced_no_sg_delete:
  "list_all (\<lambda>ev. \<not> is_sec_group_delete ev) (fst (advanced_clean conn dry available resources s))"
  by (rule no_sg_delete_events, rule advanced_clean_all) (auto elim: stack_call.elims)

lemma compute_no_sg_delete:
  "list_all (\<lambda>ev. \<not> is_sec_group_delete ev) (fst (compute_clean conn dry resources s))"
  by (rule no_sg_delete_events, rule compute_clean_all) (auto elim: instance_call.elims)

lemma storage_no_sg_delete:
  "list_all (\<lambda>ev. \<not> is_sec_group_delete ev) (fst (storage_clean conn dry resources s))"
  by (rule no_sg_delete_events) (simp add: storage_clean_calls list_all_map_iff)

lemma loadbalancer_no_sg_delete:
  "list_all (\<lambda>ev. \<not> is_sec_group_delete ev)
     (fst (loadbalancer_clean conn dry monitor resources s))"
  by (rule no_sg_delete_events, rule list_all_weaken[OF loadbalancer_clean_calls])
     (auto elim: loadbalancer_call.elims)

lemma network_before_no_sg_delete:
  "list_all (\<lambda>ev. \<not> is_sec_group_delete ev)
     (fst (network_before_sec_groups conn dry search resources s))"
  by (rule no_sg_delete_events, rule network_before_sec_groups_all)
     (auto elim: floating_ip_call.elims port_sweep_call.elims router_call.elims
                 network_step_call.elims)

lemma sec_group_events_live:
  "list_all (\<lambda>ev. \<forall>c r. ev = Call c r \<longrightarrow> is_sg_delete_call c)
     (fst (clean_sec_groups conn False sgs s))"
proof -
  have "list_all is_sg_delete_call (calls_of evs) \<Longrightarrow>
        list_all (\<lambda>ev. \<forall>c r. ev = Call c r \<longrightarrow> is_sg_delete_call c) evs" for evs
    by (induction evs rule: calls_of.induct) auto
  moreover have "list_all is_sg_delete_call (calls_of (fst (clean_sec_groups conn False sgs s)))"
    by (rule list_all_weaken[OF clean_sec_groups_calls]) (auto elim: sec_group_call.elims)
  ultimately show ?thesis by blast
qed

lemma sec_group_events_dry:
  "list_all (\<lambda>ev. \<not> is_sec_group_delete ev) (fst (clean_sec_groups conn True sgs s))"
  by (rule no_sg_delete_events, rule list_all_weaken[OF clean_sec_groups_calls])
     (auto elim: sec_group_call.elims)

lemma dropWhile_tagged:
  "list_all (\<lambda>ev. \<not> is_sec_group_delete ev) evs \<Longrightarrow>
   dropWhile (\<lambda>(cat, ev). \<not> is_sec_group_delete ev) (map (Pair c) evs @ rest)
     = dropWhile (\<lambda>(cat, ev). \<not> is_sec_group_delete ev) rest"
  by (induction evs) auto

lemma from_first_sg_delete:
  "(cat, ev) \<in> set (dropWhile (\<lambda>(cat, ev). \<not> is_sec_group_delete ev)
                     (fst (openstack_clean conn dry search available resources s)))
   \<Longrightarrow> cat = Network \<and> (\<forall>c r. ev = Call c r \<longrightarrow> is_sg_delete_call c)"
proof -
  assume a: "(cat, ev) \<in> set (dropWhile (\<lambda>(cat, ev). \<not> is_sec_group_delete ev)
                     (fst (openstack_clean conn dry search available resources s)))"
  obtain s1 s2 s3 s4 where tr: "fst (openstack_clean conn dry search available resources s)
       = map (Pair AdvancedServices) (fst (advanced_clean conn dry available resources s))
         @ map (Pair Compute) (fst (compute_clean conn dry resources s1))
         @ map (Pair Storage) (fst (storage_clean conn dry resources s2))
         @ map (Pair LoadBalancer) (fst (loadbalancer_clean conn dry (Some dry) resources s3))
         @ map (Pair Network) (fst (network_clean conn dry search resources s4))"
    using openstack_clean_events[of conn dry search available resources s] by blast
  let ?before = "fst (network_before_sec_groups conn dry search resources s4)"
  let ?sg = "fst (clean_sec_groups conn dry (sec_groups resources)
                   (snd (network_before_sec_groups conn dry search resources s4)))"
  have net: "map (Pair Network) (fst (network_clean conn dry search resources s4))
               = map (Pair Network) ?before @ map (Pair Network) ?sg @ []"
    by (simp add: network_clean_def fst_seq)
  have dw: "dropWhile (\<lambda>(cat, ev). \<not> is_sec_group_delete ev)
              (fst (openstack_clean conn dry search available resources s))
            = dropWhile (\<lambda>(cat, ev). \<not> is_sec_group_delete ev) (map (Pair Network) ?sg @ [])"
    unfolding tr net
    by (simp only: dropWhile_tagged[OF advanced_no_sg_delete] dropWhile_tagged[OF compute_no_sg_delete]
          dropWhile_tagged[OF storage_no_sg_delete] dropWhile_tagged[OF loadbalancer_no_sg_delete]
          dropWhile_tagged[OF network_before_no_sg_delete])
  show ?thesis
  proof (cases dry)
    case True
    have "list_all (\<lambda>ev. \<not> is_sec_group_delete ev) ?sg"
      using sec_group_events_dry[of conn "sec_groups resources"] True by simp
    then have "dropWhile (\<lambda>(cat, ev). \<not> is_sec_group_delete ev) (map (Pair Network) ?sg @ [])
                 = dropWhile (\<lambda>(cat, ev). \<not> is_sec_group_delete ev) []"
      by (rule dropWhile_tagged)
    then have e: "dropWhile (\<lambda>(cat, ev). \<not> is_sec_group_delete ev)
                    (map (Pair Network) ?sg @ []) = []"
      by (simp only: dropWhile.simps)
    from a show ?thesis unfolding dw e by simp
  next
    case False
    from a dw have "(cat, ev) \<in> set (map (Pair Network) ?sg)"
      using set_dropWhileD[of "(cat, ev)" "\<lambda>(cat, ev). \<not> is_sec_group_delete ev"
                              "map (Pair Network) ?sg"]
      by simp
    then have "cat = Network" "ev \<in> set ?sg" by auto
    with sec_group_events_live[of conn "sec_groups resources"] False show ?thesis
      by (auto simp: list_all_iff)
  qed
qed

lemma run_cleaners_tagged:
  "fst (run_cleaners clean cs s)
     = concat (map (\<lambda>(c, t). map (Pair c) (fst (clean c t))) (zip cs (start_states clean cs s)))"
  by (induction cs arbitrary: s) (simp_all add: case_prod_beta)

text \<open>
  C1: the cleaners run in the order AdvancedServices, Compute, Storage, LoadBalancer,
  Network (the events of a run are sorted by the place of their category in the list of
  cleaners). From the first deletion of a security group to the end of the run, every
  event belongs to the Network cleaner and every call is a deletion of a security group;
  so every event of the Compute cleaner lies before the first deletion of a security
  group. The run is made of the events of the five cleaners of the list, in this order,
  each cleaner started in the state its predecessor left.
\<close>

theorem security_groups_deleted_last:
  "cleaner_types = [AdvancedServices, Compute, Storage, LoadBalancer, Network] \<and>
   sorted (map (position \<circ> fst) (fst (openstack_clean conn dry search available resources s))) \<and>
   (\<forall>(cat, ev) \<in> set (dropWhile (\<lambda>(cat, ev). \<not> is_sec_group_delete ev)
                          (fst (openstack_clean conn dry search available resources s))).
      cat = Network \<and> (\<forall>c r. ev = Call c r \<longrightarrow> is_sg_delete_call c)) \<and>
   (\<forall>(cat, ev) \<in> set (fst (openstack_clean conn dry search available resources s)).
      cat = Compute \<longrightarrow>
      (cat, ev) \<in> set (takeWhile (\<lambda>(cat, ev). \<not> is_sec_group_delete ev)
                         (fst (openstack_clean conn dry search available resources s)))) \<and>
   fst (openstack_clean conn dry search available resources s)
     = concat (map (\<lambda>(category, t).
                      map (Pair category)
                        (fst (cleaner_clean conn dry search available resources category t)))
                 (zip cleaner_types
                    (start_states (cleaner_clean conn dry search available resources)
                       cleaner_types s)))"
  (is "?types \<and> ?sorted \<and> ?after \<and> ?before \<and> ?all")
proof -
  let ?trace = "fst (openstack_clean conn dry search available resources s)"
  let ?P = "\<lambda>(cat, ev). \<not> is_sec_group_delete ev"
  have order: "sorted (map (position \<circ> fst) ?trace)"
  proof -
    obtain s1 s2 s3 s4 where tr: "?trace
       = map (Pair AdvancedServices) (fst (advanced_clean conn dry available resources s))
         @ map (Pair Compute) (fst (compute_clean conn dry resources s1))
         @ map (Pair Storage) (fst (storage_clean conn dry resources s2))
         @ map (Pair LoadBalancer) (fst (loadbalancer_clean conn dry (Some dry) resources s3))
         @ map (Pair Network) (fst (network_clean conn dry search resources s4))"
      using openstack_clean_events[of conn dry search available resources s] by blast
    show ?thesis
      unfolding tr map_append map_position_tagged position_values
      by (simp only: sorted_blocks One_nat_def[symmetric])
  qed
  have last: "cat = Network \<and> (\<forall>c r. ev = Call c r \<longrightarrow> is_sg_delete_call c)"
    if "(cat, ev) \<in> set (dropWhile ?P ?trace)" for cat ev
    using from_first_sg_delete[OF that] .
  have before: "(cat, ev) \<in> set (takeWhile ?P ?trace)"
    if "(cat, ev) \<in> set ?trace" "cat = Compute" for cat ev
  proof -
    have "set ?trace = set (takeWhile ?P ?trace) \<union> set (dropWhile ?P ?trace)"
      using takeWhile_dropWhile_id[of ?P ?trace] set_append[of "takeWhile ?P ?trace" "dropWhile ?P ?trace"]
      by simp
    with that(1) have "(cat, ev) \<in> set (takeWhile ?P ?trace) \<or> (cat, ev) \<in> set (dropWhile ?P ?trace)"
      by blast
    with last[of cat ev] that(2) show ?thesis by auto
  qed
  have ?all
    unfolding openstack_clean_def by (rule run_cleaners_tagged)
  moreover from order last before have "?types \<and> ?sorted \<and> ?after \<and> ?before"
    by (auto simp: cleaner_types_def)
  ultimately show ?thesis by (intro conjI) blast+
qed

lemma sample_run_live:
  "fst (openstack_clean (scripted_conn server_gone_script [] []) False search_test_prefix
          \<lparr>dns = False, heat = False\<rparr> sample_resources 0)
   = [(Compute, Call (GetServer ''i1'') None),
      (Compute, Call (DeleteServer ''i1'') None),
      (Compute, Call (GetServer ''i1'') (Some missing)),
      (Compute, Report ''INSTANCE'' ''test-vm'' Deleted),
      (Storage, Call (DeleteVolume ''v1'') None),
      (Storage, Report ''VOLUME'' ''test-vol'' Deleted),
      (Network, Call ListIps None), (Network, Call (ListPorts AllPorts) None),
      (Network, Sleep 5), (Network, Call (DeleteSecurityGroup ''sg1'') None),
      (Network, Report ''SECURITY GROUP'' ''test-sg'' Deleted)]"
  by code_simp

theorem security_groups_deleted_last_witness:
  "sorted (map (position \<circ> fst)
     (fst (openstack_clean (scripted_conn server_gone_script [] []) False search_test_prefix
             \<lparr>dns = False, heat = False\<rparr> sample_resources 0))) \<and>
   dropWhile (\<lambda>(cat, ev). \<not> is_sec_group_delete ev)
     (fst (openstack_clean (scripted_conn server_gone_script [] []) False search_test_prefix
             \<lparr>dns = False, heat = False\<rparr> sample_resources 0))
   = [(Network, Call (DeleteSecurityGroup ''sg1'') None),
      (Network, Report ''SECURITY GROUP'' ''test-sg'' Deleted)] \<and>
   (Compute, Call (DeleteServer ''i1'') None)
     \<in> set (takeWhile (\<lambda>(cat, ev). \<not> is_sec_group_delete ev)
         (fst (openstack_clean (scripted_conn server_gone_script [] []) False search_test_prefix
             \<lparr>dns = False, heat = False\<rparr> sample_resources 0)))"
proof -
  let ?trace = "fst (openstack_clean (scripted_conn server_gone_script [] []) False
                       search_test_prefix \<lparr>dns = False, heat = False\<rparr> sample_resources 0)"
  note run = security_groups_deleted_last[of "scripted_conn server_gone_script [] []" False
               search_test_prefix "\<lparr>dns = False, heat = False\<rparr>" sample_resources 0]
  from run have 1: "sorted (map (position \<circ> fst) ?trace)"
    by blast
  have 2: "dropWhile (\<lambda>(cat, ev). \<not> is_sec_group_delete ev) ?trace
             = [(Network, Call (DeleteSecurityGroup ''sg1'') None),
                (Network, Report ''SECURITY GROUP'' ''test-sg'' Deleted)]"
    by (simp add: sample_run_live)
  have "(Compute, Call (DeleteServer ''i1'') None) \<in> set ?trace"
    by (simp add: sample_run_live)
  with run have 3: "(Compute, Call (DeleteServer ''i1'') None)
                      \<in> set (takeWhile (\<lambda>(cat, ev). \<not> is_sec_group_delete ev) ?trace)"
    by blast
  from 1 2 3 show ?thesis by (intro conjI)
qed

section \<open>How often a resource is deleted\<close>

lemma run_calls_parts:
  "\<exists>s1 s2 s3 s4.
     run_calls conn dry search available resources s
       = calls_of (fst (advanced_clean conn dry available resources s))
         @ calls_of (fst (compute_clean conn dry resources s1))
         @ calls_of (fst (storage_clean conn dry resources s2))
         @ calls_of (fst (loadbalancer_clean conn dry (Some dry) resources s3))
         @ calls_of (fst (network_clean conn dry search resources s4))"
proof -
  obtain s1 s2 s3 s4 where tr: "fst (openstack_clean conn dry search available resources s)
       = map (Pair AdvancedServices) (fst (advanced_clean conn dry available resources s))
         @ map (Pair Compute) (fst (compute_clean conn dry resources s1))
         @ map (Pair Storage) (fst (storage_clean conn dry resources s2))
         @ map (Pair LoadBalancer) (fst (loadbalancer_clean conn dry (Some dry) resources s3))
         @ map (Pair Network) (fst (network_clean conn dry search resources s4))"
    using openstack_clean_events[of conn dry search available resources s] by blast
  have "run_calls conn dry search available resources s
       = calls_of (fst (advanced_clean conn dry available resources s))
         @ calls_of (fst (compute_clean conn dry resources s1))
         @ calls_of (fst (storage_clean conn dry resources s2))
         @ calls_of (fst (loadbalancer_clean conn dry (Some dry) resources s3))
         @ calls_of (fst (network_clean conn dry search resources s4))"
    unfolding run_calls_def tr by (simp add: o_def)
  then show ?thesis by blast
qed

lemma advanced_zero:
  "\<not> stack_call dry d \<Longrightarrow> (\<And>i. d \<noteq> DeleteZone i) \<Longrightarrow>
   count_list (calls_of (fst (advanced_clean conn dry available resources s))) d = 0"
  by (rule count_zero_if_all[of "\<lambda>c. c \<noteq> d"], rule advanced_clean_all) auto

lemma compute_zero:
  "\<not> instance_call dry d \<Longrightarrow> (\<And>i. d \<noteq> DeleteFlavor i) \<Longrightarrow> (\<And>i. d \<noteq> DeleteKeypair i) \<Longrightarrow>
   (\<And>i. d \<noteq> DeleteImage i) \<Longrightarrow>
   count_list (calls_of (fst (compute_clean conn dry resources s))) d = 0"
  by (rule count_zero_if_all[of "\<lambda>c. c \<noteq> d"], rule compute_clean_all) auto

lemma storage_zero:
  "(\<And>i. GetVolume i \<noteq> d) \<Longrightarrow> (\<And>i. DeleteVolume i \<noteq> d) \<Longrightarrow> (\<And>i. GetSnapshot i \<noteq> d) \<Longrightarrow>
   (\<And>i. DeleteSnapshot i \<noteq> d) \<Longrightarrow>
   count_list (calls_of (fst (storage_clean conn dry resources s))) d = 0"
  by (cases dry) (simp_all add: storage_clean_calls count_map_other)

lemma loadbalancer_zero:
  "\<not> loadbalancer_call dry d \<Longrightarrow>
   count_list (calls_of (fst (loadbalancer_clean conn dry monitor resources s))) d = 0"
  by (rule count_zero_if_all[OF loadbalancer_clean_calls])

lemma network_before_zero:
  "\<not> floating_ip_call dry d \<Longrightarrow> \<not> port_sweep_call dry d \<Longrightarrow> \<not> router_call dry d \<Longrightarrow>
   \<not> network_step_call dry d \<Longrightarrow>
   count_list (calls_of (fst (network_before_sec_groups conn dry search resources s))) d = 0"
  by (rule count_zero_if_all[of "\<lambda>c. c \<noteq> d"], rule network_before_sec_groups_all) auto

lemma sec_groups_zero:
  "\<not> sec_group_call dry d \<Longrightarrow> count_list (calls_of (fst (clean_sec_groups conn dry sgs s))) d = 0"
  by (rule count_zero_if_all[OF clean_sec_groups_calls])

lemma network_zero:
  "\<not> floating_ip_call dry d \<Longrightarrow> \<not> port_sweep_call dry d \<Longrightarrow> \<not> router_call dry d \<Longrightarrow>
   \<not> network_step_call dry d \<Longrightarrow> \<not> sec_group_call dry d \<Longrightarrow>
   count_list (calls_of (fst (network_clean conn dry search resources s))) d = 0"
  by (simp add: network_clean_def fst_seq network_before_zero sec_groups_zero)

lemma compute_count_server:
  assumes "distinct (map fst (instances resources))"
  shows "count_list (calls_of (fst (compute_clean conn dry resources s))) (DeleteServer i) \<le> 1"
  using compute_instances_count[OF assms, of conn dry s i]
  by (cases dry)
     (simp_all add: compute_clean_def fst_seq snd_seq flavor_loop_calls keypair_loop_calls
        image_loop_calls count_map_other)

lemma compute_instances_zero:
  "\<not> instance_call dry d \<Longrightarrow>
   count_list (calls_of (fst (compute_instances conn dry resources s))) d = 0"
  by (rule count_zero_if_all[OF compute_instances_calls])

lemma compute_count_flavor:
  assumes "distinct (map fst (flavors resources))"
  shows "count_list (calls_of (fst (compute_clean conn dry resources s))) (DeleteFlavor i) \<le> 1"
  using count_list_map_key[OF assms, of DeleteFlavor i]
  by (cases dry)
     (simp_all add: compute_clean_def fst_seq snd_seq flavor_loop_calls keypair_loop_calls
        image_loop_calls count_map_other compute_instances_zero inj_def)

lemma compute_count_image:
  assumes "distinct (map fst (images resources))"
  shows "count_list (calls_of (fst (compute_clean conn dry resources s))) (DeleteImage i) \<le> 1"
  using count_list_map_key[OF assms, of DeleteImage i]
  by (cases dry)
     (simp_all add: compute_clean_def fst_seq snd_seq flavor_loop_calls keypair_loop_calls
        image_loop_calls count_map_other compute_instances_zero inj_def)

lemma storage_count_volume:
  assumes "distinct (map fst (volumes resources))"
  shows "count_list (calls_of (fst (storage_clean conn dry resources s))) (DeleteVolume i) \<le> 1"
  using count_list_map_key[OF assms, of DeleteVolume i]
  by (cases dry) (simp_all add: storage_clean_calls count_map_other inj_def)

lemma storage_count_snapshot:
  assumes "distinct (map fst (volume_snapshots resources))"
  shows "count_list (calls_of (fst (storage_clean conn dry resources s))) (DeleteSnapshot i) \<le> 1"
  using count_list_map_key[OF assms, of DeleteSnapshot i]
  by (cases dry) (simp_all add: storage_clean_calls count_map_other inj_def)

lemma floating_ip_loop_zero:
  "\<not> floating_ip_call dry d \<Longrightarrow>
   count_list (calls_of (fst (for_each (clean_floating_ip conn dry) xs s))) d = 0"
  by (rule count_zero_if_all[OF for_each_all[of xs "floating_ip_call dry", OF clean_floating_ip_calls]])

lemma network_count_router:
  assumes "distinct (map fst (routers resources))"
  shows "count_list (calls_of (fst (network_clean conn dry search resources s))) (DeleteRouter i) \<le> 1"
proof -
  have r: "count_list (calls_of (fst (clean_routers conn dry previous (routers resources) s1)))
             (DeleteRouter i) \<le> 1" for previous s1
    using clean_routers_count[of conn dry previous "routers resources" s1 i]
          sum_list_key_bound[OF assms, of i 1]
    by simp
  have z: "count_list (calls_of (fst (sweep_floating_ips conn dry search resources s1))) (DeleteRouter i) = 0"
          "count_list (calls_of (fst (sweep_ports conn dry search s1))) (DeleteRouter i) = 0"
          "count_list (calls_of (fst (for_each (clean_network conn dry) xs s1))) (DeleteRouter i) = 0"
    for xs s1
    by (rule count_zero_if_all[OF sweep_floating_ips_calls], simp,
        rule count_zero_if_all[OF sweep_ports_calls], simp,
        rule count_zero_if_all[OF network_loops_calls], simp)
  from r z show ?thesis
    by (simp add: network_clean_def network_before_sec_groups_def fst_seq snd_seq
          floating_ip_loop_zero sec_groups_zero)
qed

lemma network_count_network:
  assumes "distinct (map fst (networks resources))"
  shows "count_list (calls_of (fst (network_clean conn dry search resources s))) (DeleteNetwork i) \<le> 3"
proof -
  have r: "count_list (calls_of (fst (for_each (clean_network conn dry) (networks resources) s1)))
             (DeleteNetwork i) \<le> 3" for s1
    by (rule network_loops_count[OF assms])
  have z: "count_list (calls_of (fst (sweep_floating_ips conn dry search resources s1))) (DeleteNetwork i) = 0"
          "count_list (calls_of (fst (sweep_ports conn dry search s1))) (DeleteNetwork i) = 0"
          "count_list (calls_of (fst (clean_routers conn dry previous xs s1))) (DeleteNetwork i) = 0"
    for previous xs s1
    by (rule count_zero_if_all[OF sweep_floating_ips_calls], simp,
        rule count_zero_if_all[OF sweep_ports_calls], simp,
        rule count_zero_if_all[OF clean_routers_calls], simp)
  from r z show ?thesis
    by (simp add: network_clean_def network_before_sec_groups_def fst_seq snd_seq
          floating_ip_loop_zero sec_groups_zero)
qed

lemma network_count_sec_group:
  assumes "distinct (map fst (sec_groups resources))"
  shows "count_list (calls_of (fst (network_clean conn dry search resources s)))
           (DeleteSecurityGroup i) \<le> 3"
  using clean_sec_groups_count[OF assms, of conn dry _ i]
  by (simp add: network_clean_def fst_seq network_before_zero)

lemma count_list_map_value:
  "inj D \<Longrightarrow> count_list (map (\<lambda>x. D (snd x)) xs) (D n) = count_list (map snd xs) n"
  by (induction xs) (auto simp: inj_def)

lemma compute_count_keypair:
  "count_list (calls_of (fst (compute_clean conn dry resources s))) (DeleteKeypair n)
     \<le> count_list (map snd (keypairs resources)) n"
  using count_list_map_value[of DeleteKeypair "keypairs resources" n]
  by (cases dry)
     (simp_all add: compute_clean_def fst_seq snd_seq flavor_loop_calls keypair_loop_calls
        image_loop_calls count_map_other compute_instances_zero inj_def)

subsection \<open>Heat stacks\<close>

lemma attribute_deletes_none:
  "list_all (\<lambda>c. \<not> is_stack_delete c) cs \<Longrightarrow> attribute_deletes l cs = []"
proof (induction cs arbitrary: l)
  case Nil
  then show ?case by simp
next
  case (Cons c cs)
  then show ?case by (cases c) simp_all
qed

lemma clean_stack_shape:
  "calls_of (fst (clean_stack conn dry (j, n) s)) = [] \<or>
   calls_of (fst (clean_stack conn dry (j, n) s)) = [GetStack j] \<or>
   (\<exists>st. calls_of (fst (clean_stack conn dry (j, n) s)) = [GetStack j, DeleteStack st]) \<or>
   (\<exists>st. calls_of (fst (clean_stack conn dry (j, n) s))
            = [GetStack j, DeleteStack st, WaitForDelete st])"
  by (cases dry) (simp_all add: clean_stack_def case_prod_beta split: option.splits sum.splits)

lemma stack_loop_attributed:
  assumes "list_all (\<lambda>c. \<not> is_stack_delete c) tail"
  shows "None \<notin> set (attribute_deletes l
                         (calls_of (fst (for_each (clean_stack conn dry) xs s)) @ tail)) \<and>
         count_list (attribute_deletes l
                       (calls_of (fst (for_each (clean_stack conn dry) xs s)) @ tail)) (Some i)
           \<le> count_list (map fst xs) i"
proof (induction xs arbitrary: s l)
  case Nil
  then show ?case using attribute_deletes_none[OF assms] by simp
next
  case (Cons x xs)
  obtain j n where x: "x = (j, n)" by (cases x) auto
  let ?rest = "calls_of (fst (for_each (clean_stack conn dry) xs
                                 (snd (clean_stack conn dry (j, n) s)))) @ tail"
  have split: "calls_of (fst (for_each (clean_stack conn dry) (x # xs) s)) @ tail
      = calls_of (fst (clean_stack conn dry (j, n) s)) @ ?rest"
    by (simp add: x fst_seq)
  from clean_stack_shape[of conn dry j n s] show ?case
  proof (elim disjE exE)
    assume "calls_of (fst (clean_stack conn dry (j, n) s)) = []"
    with Cons.IH[of l "snd (clean_stack conn dry (j, n) s)"] show ?thesis
      unfolding split by (auto simp: x)
  next
    assume "calls_of (fst (clean_stack conn dry (j, n) s)) = [GetStack j]"
    with Cons.IH[of "Some j" "snd (clean_stack conn dry (j, n) s)"] show ?thesis
      unfolding split by (auto simp: x)
  next
    fix st assume "calls_of (fst (clean_stack conn dry (j, n) s)) = [GetStack j, DeleteStack st]"
    with Cons.IH[of None "snd (clean_stack conn dry (j, n) s)"] show ?thesis
      unfolding split by (auto simp: x)
  next
    fix st assume "calls_of (fst (clean_stack conn dry (j, n) s))
                     = [GetStack j, DeleteStack st, WaitForDelete st]"
    with Cons.IH[of None "snd (clean_stack conn dry (j, n) s)"] show ?thesis
      unfolding split by (auto simp: x)
  qed
qed

lemma advanced_attributed:
  assumes "list_all (\<lambda>c. \<not> is_stack_delete c) tail"
  shows "None \<notin> set (attribute_deletes None
                         (calls_of (fst (advanced_clean conn dry available resources s)) @ tail)) \<and>
         count_list (attribute_deletes None
                       (calls_of (fst (advanced_clean conn dry available resources s)) @ tail))
           (Some i) \<le> count_list (map fst (heat_stacks resources)) i"
proof (cases "heat available")
  case True
  have z: "list_all (\<lambda>c. \<not> is_stack_delete c)
             ((if dns available
               then calls_of (fst (for_each (clean_zone conn dry) (dns_zones resources) s1))
               else []) @ tail)" for s1
    using assms by (simp add: zone_loop_calls list_all_map_iff)
  from stack_loop_attributed[OF z[of "snd (for_each (clean_stack conn dry) (heat_stacks resources) s)"],
         where l = None and conn = conn and dry = dry
         and xs = "heat_stacks resources" and s = s and i = i] True
  show ?thesis by (cases "dns available") (simp_all add: advanced_clean_def fst_seq)
next
  case False
  have "list_all (\<lambda>c. \<not> is_stack_delete c)
          (calls_of (fst (advanced_clean conn dry available resources s)) @ tail)"
    using assms False by (simp add: advanced_clean_def fst_seq zone_loop_calls list_all_map_iff)
  from attribute_deletes_none[OF this] show ?thesis by simp
qed

lemma distinct_count_le_1: "distinct xs \<Longrightarrow> count_list xs i \<le> 1"
  by (induction xs) (auto simp: count_list_0_iff)

lemma is_stack_deleteD: "is_stack_delete c \<Longrightarrow> \<exists>st. c = DeleteStack st"
  by (cases c) simp_all

lemma no_stack_delete_after_advanced:
  "list_all (\<lambda>c. \<not> is_stack_delete c)
     (calls_of (fst (compute_clean conn dry resources s1))
      @ calls_of (fst (storage_clean conn dry resources s2))
      @ calls_of (fst (loadbalancer_clean conn dry monitor resources s3))
      @ calls_of (fst (network_clean conn dry search resources s4)))"
proof -
  have 1: "list_all (\<lambda>c. \<not> is_stack_delete c) (calls_of (fst (compute_clean conn dry resources s1)))"
    by (rule compute_clean_all) (auto dest!: is_stack_deleteD)
  have 2: "list_all (\<lambda>c. \<not> is_stack_delete c) (calls_of (fst (storage_clean conn dry resources s2)))"
    by (simp add: storage_clean_calls list_all_map_iff)
  have 3: "list_all (\<lambda>c. \<not> is_stack_delete c)
             (calls_of (fst (loadbalancer_clean conn dry monitor resources s3)))"
    by (rule list_all_weaken[OF loadbalancer_clean_calls]) (auto dest!: is_stack_deleteD)
  have 4: "list_all (\<lambda>c. \<not> is_stack_delete c)
             (calls_of (fst (network_before_sec_groups conn dry search resources s4)))"
    by (rule network_before_sec_groups_all) (auto dest!: is_stack_deleteD)
  have 5: "list_all (\<lambda>c. \<not> is_stack_delete c) (calls_of (fst (clean_sec_groups conn dry sgs s5)))"
    for sgs s5
    by (rule list_all_weaken[OF clean_sec_groups_calls]) (auto dest!: is_stack_deleteD)
  from 1 2 3 4 5 show ?thesis by (simp add: network_clean_def fst_seq)
qed

text \<open>
  C9, as the code has it. A conflict on the deletion of a security group, of a network or
  of a load balancer is retried, so the same id is deleted twice in one run. Keypairs are
  deleted by name: two keypairs of the inventory with the same name give the same delete
  call twice. The floating IP of an instance is deleted by the Compute cleaner with the
  instance and again, under the same id, by the Network cleaner. Every inventory here has
  one entry per id.
\<close>

theorem delete_issued_twice_counterexample:
  "count_list
     (run_calls
        (scripted_conn (\<lambda>c n. if c = DeleteSecurityGroup ''sg1'' \<and> n \<le> 2 then Some conflict_409
                               else None) [] [])
        False search_test_prefix \<lparr>dns = False, heat = False\<rparr>
        (no_resources\<lparr>sec_groups := [(''sg1'', ''test-sg'')]\<rparr>) 0)
     (DeleteSecurityGroup ''sg1'') = 2 \<and>
   run_calls
     (scripted_conn (\<lambda>c n. if c = DeleteNetwork ''n1'' \<and> n \<le> 3 then Some conflict_409 else None)
        [] [])
     False search_test_prefix \<lparr>dns = False, heat = False\<rparr>
     (no_resources\<lparr>networks := [(''n1'', ''test-net'')]\<rparr>) 0
   = [ListIps, ListPorts AllPorts, ListPorts (ByNetwork ''n1''), DeleteNetwork ''n1'',
      ListPorts (ByNetwork ''n1''), DeleteNetwork ''n1''] \<and>
   run_calls
     (scripted_conn (\<lambda>c n. if c = DeleteLoadBalancer ''lb1'' \<and> n \<le> 1 then Some conflict_409
                            else if c = GetLoadBalancer ''lb1'' \<and> 4 \<le> n then Some missing
                            else None) [] [])
     False search_test_prefix \<lparr>dns = False, heat = False\<rparr>
     (no_resources\<lparr>loadbalancers := [(''lb1'', ''test-lb'')]\<rparr>) 0
   = [GetLoadBalancer ''lb1'', DeleteLoadBalancer ''lb1'', GetLoadBalancer ''lb1'',
      DeleteLoadBalancer ''lb1'', GetLoadBalancer ''lb1'', ListIps, ListPorts AllPorts] \<and>
   unique_keys (no_resources\<lparr>keypairs := [(''1'', ''test-kp''), (''2'', ''test-kp'')]\<rparr>) \<and>
   run_calls (scripted_conn (\<lambda>c n. None) [] [])
     False search_test_prefix \<lparr>dns = False, heat = False\<rparr>
     (no_resources\<lparr>keypairs := [(''1'', ''test-kp''), (''2'', ''test-kp'')]\<rparr>) 0
   = [DeleteKeypair ''test-kp'', DeleteKeypair ''test-kp'', ListIps, ListPorts AllPorts] \<and>
   unique_keys (no_resources\<lparr>instances := [(''i1'', ''test-vm'')],
                             floating_ips := [(''f1'', ''203.0.113.7'')]\<rparr>) \<and>
   run_calls
     (scripted_conn_with_server
        (\<lambda>c n. if c = GetServer ''i1'' \<and> 4 \<le> n then Some missing else None)
        [fip_on_router] [port_on_router] server_with_fip)
     False search_test_prefix \<lparr>dns = False, heat = False\<rparr>
     (no_resources\<lparr>instances := [(''i1'', ''test-vm'')],
                    floating_ips := [(''f1'', ''203.0.113.7'')]\<rparr>) 0
   = [GetServer ''i1'', ListIps, DeleteIp ''f1'', DeleteServer ''i1'', GetServer ''i1'',
      GetIp ''f1'', DeleteIp ''f1'', ListIps, ListPorts AllPorts]"
  by code_simp

text \<open>
  C9, amended: in one run with one inventory entry per id, the delete call for an id is
  issued at most once for instances, flavors, images, volumes, volume snapshots, routers
  and DNS zones, and at most three times (the attempts of the retry loop) for networks,
  security groups and load balancers. The delete call for a keypair name is issued at
  most once per keypair of the inventory with that name. Every \<open>delete_stack\<close> call is
  issued on the stack that the \<open>get_stack\<close> call just before it fetched, and at most one
  of them follows the \<open>get_stack\<close> of a given id. Floating IPs are not covered.
\<close>

theorem delete_calls_per_resource:
  assumes "unique_keys resources"
  shows "count_list (run_calls conn dry search available resources s) (DeleteServer i) \<le> 1 \<and>
         count_list (run_calls conn dry search available resources s) (DeleteFlavor i) \<le> 1 \<and>
         count_list (run_calls conn dry search available resources s) (DeleteImage i) \<le> 1 \<and>
         count_list (run_calls conn dry search available resources s) (DeleteVolume i) \<le> 1 \<and>
         count_list (run_calls conn dry search available resources s) (DeleteSnapshot i) \<le> 1 \<and>
         count_list (run_calls conn dry search available resources s) (DeleteRouter i) \<le> 1 \<and>
         count_list (run_calls conn dry search available resources s) (DeleteZone i) \<le> 1 \<and>
         count_list (run_calls conn dry search available resources s) (DeleteNetwork i) \<le> 3 \<and>
         count_list (run_calls conn dry search available resources s) (DeleteSecurityGroup i) \<le> 3 \<and>
         count_list (run_calls conn dry search available resources s) (DeleteLoadBalancer i) \<le> 3 \<and>
         count_list (run_calls conn dry search available resources s) (DeleteKeypair n)
           \<le> count_list (map snd (keypairs resources)) n \<and>
         None \<notin> set (stack_delete_ids (run_calls conn dry search available resources s)) \<and>
         count_list (stack_delete_ids (run_calls conn dry search available resources s)) (Some i) \<le> 1"
proof -
  obtain s1 s2 s3 s4 where parts: "run_calls conn dry search available resources s
       = calls_of (fst (advanced_clean conn dry available resources s))
         @ calls_of (fst (compute_clean conn dry resources s1))
         @ calls_of (fst (storage_clean conn dry resources s2))
         @ calls_of (fst (loadbalancer_clean conn dry (Some dry) resources s3))
         @ calls_of (fst (network_clean conn dry search resources s4))"
    using run_calls_parts[of conn dry search available resources s] by blast
  from assms have d: "distinct (map fst (instances resources))"
    "distinct (map fst (flavors resources))" "distinct (map fst (images resources))"
    "distinct (map fst (volumes resources))" "distinct (map fst (volume_snapshots resources))"
    "distinct (map fst (routers resources))" "distinct (map fst (dns_zones resources))"
    "distinct (map fst (networks resources))" "distinct (map fst (sec_groups resources))"
    "distinct (map fst (loadbalancers resources))" "distinct (map fst (heat_stacks resources))"
    by (simp_all add: unique_keys_def)
  have 1: "count_list (run_calls conn dry search available resources s) (DeleteServer i) \<le> 1"
    unfolding parts using compute_count_server[OF d(1), of conn dry s1 i]
    by (simp add: advanced_zero storage_zero loadbalancer_zero network_zero)
  have 2: "count_list (run_calls conn dry search available resources s) (DeleteFlavor i) \<le> 1"
    unfolding parts using compute_count_flavor[OF d(2), of conn dry s1 i]
    by (simp add: advanced_zero storage_zero loadbalancer_zero network_zero)
  have 3: "count_list (run_calls conn dry search available resources s) (DeleteImage i) \<le> 1"
    unfolding parts using compute_count_image[OF d(3), of conn dry s1 i]
    by (simp add: advanced_zero storage_zero loadbalancer_zero network_zero)
  have 4: "count_list (run_calls conn dry search available resources s) (DeleteVolume i) \<le> 1"
    unfolding parts using storage_count_volume[OF d(4), of conn dry s2 i]
    by (simp add: advanced_zero compute_zero loadbalancer_zero network_zero)
  have 5: "count_list (run_calls conn dry search available resources s) (DeleteSnapshot i) \<le> 1"
    unfolding parts using storage_count_snapshot[OF d(5), of conn dry s2 i]
    by (simp add: advanced_zero compute_zero loadbalancer_zero network_zero)
  have 6: "count_list (run_calls conn dry search available resources s) (DeleteRouter i) \<le> 1"
    unfolding parts using network_count_router[OF d(6), of conn dry search s4 i]
    by (simp add: advanced_zero compute_zero storage_zero loadbalancer_zero)
  have 7: "count_list (run_calls conn dry search available resources s) (DeleteZone i) \<le> 1"
    unfolding parts using advanced_clean_zone_count[OF d(7), of conn dry available s i]
    by (simp add: compute_zero storage_zero loadbalancer_zero network_zero)
  have 8: "count_list (run_calls conn dry search available resources s) (DeleteNetwork i) \<le> 3"
    unfolding parts using network_count_network[OF d(8), of conn dry search s4 i]
    by (simp add: advanced_zero compute_zero storage_zero loadbalancer_zero)
  have 9: "count_list (run_calls conn dry search available resources s) (DeleteSecurityGroup i) \<le> 3"
    unfolding parts using network_count_sec_group[OF d(9), of conn dry search s4 i]
    by (simp add: advanced_zero compute_zero storage_zero loadbalancer_zero)
  have 10: "count_list (run_calls conn dry search available resources s) (DeleteLoadBalancer i) \<le> 3"
    unfolding parts using loadbalancer_clean_count[OF d(10), of conn dry "Some dry" s3 i]
    by (simp add: advanced_zero compute_zero storage_zero network_zero)
  have 11: "count_list (run_calls conn dry search available resources s) (DeleteKeypair n)
              \<le> count_list (map snd (keypairs resources)) n"
    unfolding parts using compute_count_keypair[of conn dry resources s1 n]
    by (simp add: advanced_zero storage_zero loadbalancer_zero network_zero)
  have once: "count_list (map fst (heat_stacks resources)) i \<le> 1"
    using d(11) by (rule distinct_count_le_1)
  from advanced_attributed[OF no_stack_delete_after_advanced[of conn dry resources s1 s2
           "Some dry" s3 search s4], of conn dry available resources s i] once
  have 12: "None \<notin> set (stack_delete_ids (run_calls conn dry search available resources s))"
    and 13: "count_list (stack_delete_ids (run_calls conn dry search available resources s)) (Some i) \<le> 1"
    unfolding parts stack_delete_ids_def by simp_all
  from 1 2 3 4 5 6 7 8 9 10 11 12 13 show ?thesis by blast
qed

theorem delete_calls_per_resource_witness:
  "unique_keys sample_resources \<and>
   run_calls (scripted_conn server_gone_script [] []) False search_test_prefix
     \<lparr>dns = False, heat = False\<rparr> sample_resources 0
   = [GetServer ''i1'', DeleteServer ''i1'', GetServer ''i1'', DeleteVolume ''v1'', ListIps,
      ListPorts AllPorts, DeleteSecurityGroup ''sg1''] \<and>
   count_list (run_calls (scripted_conn server_gone_script [] []) False search_test_prefix
     \<lparr>dns = False, heat = False\<rparr> sample_resources 0) (DeleteServer ''i1'') \<le> 1 \<and>
   count_list (run_calls (scripted_conn server_gone_script [] []) False search_test_prefix
     \<lparr>dns = False, heat = False\<rparr> sample_resources 0) (DeleteSecurityGroup ''sg1'') \<le> 3 \<and>
   unique_keys (no_resources\<lparr>heat_stacks := [(''s1'', ''test-stack'')],
                             keypairs := [(''k1'', ''test-kp'')]\<rparr>) \<and>
   run_calls (scripted_conn (\<lambda>c n. None) [] []) False search_test_prefix
     \<lparr>dns = True, heat = True\<rparr>
     (no_resources\<lparr>heat_stacks := [(''s1'', ''test-stack'')], keypairs := [(''k1'', ''test-kp'')]\<rparr>) 0
   = [GetStack ''s1'', DeleteStack (Stack ''s1''), WaitForDelete (Stack ''s1''),
      DeleteKeypair ''test-kp'', ListIps, ListPorts AllPorts] \<and>
   stack_delete_ids [GetStack ''s1'', DeleteStack (Stack ''s1''), WaitForDelete (Stack ''s1''),
      DeleteKeypair ''test-kp'', ListIps, ListPorts AllPorts] = [Some ''s1''] \<and>
   count_list (stack_delete_ids (run_calls (scripted_conn (\<lambda>c n. None) [] []) False
     search_test_prefix \<lparr>dns = True, heat = True\<rparr>
     (no_resources\<lparr>heat_stacks := [(''s1'', ''test-stack'')], keypairs := [(''k1'', ''test-kp'')]\<rparr>)
     0)) (Some ''s1'') \<le> 1"
proof -
  let ?inv = "no_resources\<lparr>heat_stacks := [(''s1'', ''test-stack'')],
                           keypairs := [(''k1'', ''test-kp'')]\<rparr>"
  have u2: "unique_keys ?inv"
    by (simp add: unique_keys_def no_resources_def)
  have r2: "run_calls (scripted_conn (\<lambda>c n. None) [] []) False search_test_prefix
     \<lparr>dns = True, heat = True\<rparr> ?inv 0
   = [GetStack ''s1'', DeleteStack (Stack ''s1''), WaitForDelete (Stack ''s1''),
      DeleteKeypair ''test-kp'', ListIps, ListPorts AllPorts]"
    by code_simp
  have a2: "stack_delete_ids [GetStack ''s1'', DeleteStack (Stack ''s1''), WaitForDelete (Stack ''s1''),
      DeleteKeypair ''test-kp'', ListIps, ListPorts AllPorts] = [Some ''s1'']"
    by (simp add: stack_delete_ids_def)
  have u: "unique_keys sample_resources"
    by (simp add: unique_keys_def sample_resources_def no_resources_def)
  have r: "run_calls (scripted_conn server_gone_script [] []) False search_test_prefix
     \<lparr>dns = False, heat = False\<rparr> sample_resources 0
   = [GetServer ''i1'', DeleteServer ''i1'', GetServer ''i1'', DeleteVolume ''v1'', ListIps,
      ListPorts AllPorts, DeleteSecurityGroup ''sg1'']"
    by (simp add: run_calls_def sample_run_live)
  from delete_calls_per_resource[OF u, of "scripted_conn server_gone_script [] []" False
         search_test_prefix "\<lparr>dns = False, heat = False\<rparr>" 0 "''i1''"]
       delete_calls_per_resource[OF u, of "scripted_conn server_gone_script [] []" False
         search_test_prefix "\<lparr>dns = False, heat = False\<rparr>" 0 "''sg1''"]
       delete_calls_per_resource[OF u2, of "scripted_conn (\<lambda>c n. None) [] []" False
         search_test_prefix "\<lparr>dns = True, heat = True\<rparr>" 0 "''s1''"]
       u r u2 r2 a2
  show ?thesis by blast
qed

section \<open>Dry runs\<close>

lemma dry_run_reads_only:
  "list_all (\<lambda>c. \<not> mutating c) (run_calls conn True search available resources s)"
proof -
  obtain s1 s2 s3 s4 where parts: "run_calls conn True search available resources s
       = calls_of (fst (advanced_clean conn True available resources s))
         @ calls_of (fst (compute_clean conn True resources s1))
         @ calls_of (fst (storage_clean conn True resources s2))
         @ calls_of (fst (loadbalancer_clean conn True (Some True) resources s3))
         @ calls_of (fst (network_clean conn True search resources s4))"
    using run_calls_parts[of conn True search available resources s] by blast
  have 1: "list_all (\<lambda>c. \<not> mutating c) (calls_of (fst (advanced_clean conn True available resources s)))"
    by (rule advanced_clean_all) (auto elim: stack_call.elims)
  have 2: "list_all (\<lambda>c. \<not> mutating c) (calls_of (fst (compute_clean conn True resources s1)))"
    by (rule compute_clean_all) (auto elim: instance_call.elims)
  have 3: "list_all (\<lambda>c. \<not> mutating c) (calls_of (fst (storage_clean conn True resources s2)))"
    by (simp add: storage_clean_calls list_all_map_iff)
  have 4: "list_all (\<lambda>c. \<not> mutating c)
             (calls_of (fst (loadbalancer_clean conn True (Some True) resources s3)))"
    by (rule list_all_weaken[OF loadbalancer_clean_calls]) (auto elim: loadbalancer_call.elims)
  have 5: "list_all (\<lambda>c. \<not> mutating c)
             (calls_of (fst (network_before_sec_groups conn True search resources s4)))"
    by (rule network_before_sec_groups_all)
       (auto elim: floating_ip_call.elims port_sweep_call.elims router_call.elims
                   network_step_call.elims)
  have 6: "list_all (\<lambda>c. \<not> mutating c) (calls_of (fst (clean_sec_groups conn True sgs s5)))"
    for sgs s5
    by (rule list_all_weaken[OF clean_sec_groups_calls]) (auto elim: sec_group_call.elims)
  from 1 2 3 4 5 6 show ?thesis
    unfolding parts by (simp add: network_clean_def fst_seq)
qed

subsection \<open>The events of a dry run, entry by entry\<close>

lemma for_each_events_eq:
  "(\<And>x t. x \<in> set xs \<Longrightarrow> fst (f x t) = g x) \<Longrightarrow> fst (for_each f xs s) = concat (map g xs)"
proof (induction xs arbitrary: s)
  case Nil
  then show ?case by simp
next
  case (Cons x xs)
  from Cons.prems have "fst (f x s) = g x" by simp
  moreover from Cons.IH[of "snd (f x s)"] Cons.prems
  have "fst (for_each f xs (snd (f x s))) = concat (map g xs)" by simp
  ultimately show ?case by (simp add: fst_seq)
qed

lemma unprobed_loop:
  assumes "\<And>i name t. fst (f (i, name) t) = [Report rtype name WouldDelete]"
  shows "fst (for_each f xs s) = would_delete rtype xs"
proof -
  have "fst (for_each f xs s) = concat (map (\<lambda>x. [Report rtype (snd x) WouldDelete]) xs)"
    by (rule for_each_events_eq) (simp add: assms[of "fst x" "snd x" for x, simplified] split_beta)
  then show ?thesis by (simp add: would_delete_def split_beta concat_map_singleton)
qed

lemma unprobed_loops:
  "fst (for_each (clean_flavor conn True) xs s) = would_delete ''FLAVOR'' xs"
  "fst (for_each (clean_keypair conn True) xs s) = would_delete ''KEYPAIR'' xs"
  "fst (for_each (clean_image conn True) xs s) = would_delete ''IMAGE'' xs"
  "fst (for_each (clean_zone conn True) xs s) = would_delete ''DNS ZONE'' xs"
  "fst (for_each (clean_stack conn True) xs s) = would_delete ''HEAT STACK'' xs"
  "fst (for_each (clean_loadbalancer conn True monitor) xs s) = would_delete ''LOAD BALANCER'' xs"
  by (rule unprobed_loop,
      simp add: clean_flavor_def clean_keypair_def clean_image_def clean_zone_def clean_stack_def
        clean_loadbalancer_def DEFAULT_RETRY_COUNT_def numeral_3_eq_3 try_call_def
        report_deletion_def)+

lemma blocks_of_for_each:
  "(\<And>x t. x \<in> set xs \<Longrightarrow> ok x (fst (f x t))) \<Longrightarrow> blocks_of ok xs (fst (for_each f xs s))"
proof (induction xs arbitrary: s)
  case Nil
  then show ?case by (simp add: blocks_of_def)
next
  case (Cons x xs)
  from Cons.IH[of "snd (f x s)"] Cons.prems obtain blocks
    where b: "fst (for_each f xs (snd (f x s))) = concat blocks" "list_all2 ok xs blocks"
    by (auto simp: blocks_of_def)
  from Cons.prems have "ok x (fst (f x s))" by simp
  with b have "fst (for_each f (x # xs) s) = concat (fst (f x s) # blocks) \<and>
               list_all2 ok (x # xs) (fst (f x s) # blocks)"
    by (simp add: fst_seq)
  then show ?case unfolding blocks_of_def by blast
qed

lemma probed_try_call:
  "probed get rtype (i, name)
     (fst (try_call conn (Some (get i)) (report_deletion True rtype name) handler s))"
  by (simp add: probed_def try_call_def report_deletion_def case_prod_beta split: option.splits)

lemma probed_volume: "probed GetVolume ''VOLUME'' x (fst (clean_volume conn True x t))"
  using probed_try_call[of GetVolume "''VOLUME''" "fst x" "snd x" conn] 
  by (simp add: clean_volume_def case_prod_beta)

lemma probed_snapshot:
  "probed GetSnapshot ''VOLUME SNAPSHOT'' x (fst (clean_snapshot conn True x t))"
  using probed_try_call[of GetSnapshot "''VOLUME SNAPSHOT''" "fst x" "snd x" conn]
  by (simp add: clean_snapshot_def case_prod_beta)

lemma probed_network: "probed GetNetwork ''NETWORK'' x (fst (clean_network conn True x t))"
  by (cases "fst (invoke conn (GetNetwork (fst x)) t)")
     (simp_all add: probed_def clean_network_def numeral_3_eq_3 Let_def case_prod_beta
        report_deletion_def split: option.splits)

lemma probed_sec_group:
  "probed GetSecurityGroup ''SECURITY GROUP'' x (fst (clean_sec_group conn True x t))"
  by (cases "fst (invoke conn (GetSecurityGroup (fst x)) t)")
     (simp_all add: probed_def clean_sec_group_def numeral_3_eq_3 Let_def case_prod_beta
        report_deletion_def split: option.splits)

lemma instance_block_dry: "instance_block x (fst (snd (clean_instance conn True x t)))"
proof (cases "fst (get_server conn (fst x) t)")
  case (Inl e)
  then show ?thesis
    by (simp add: instance_block_def clean_instance_def instance_handler_def case_prod_beta)
next
  case (Inr srv)
  then have "fst (snd (clean_instance conn True x t))
      = Call (GetServer (fst x)) None
        # map (\<lambda>a. Report ''FLOATING IP'' a WouldDelete) (get_instance_floating_ips srv)
        @ [Report ''INSTANCE'' (snd x) WouldDelete]"
    by (simp add: clean_instance_def case_prod_beta Let_def report_deletion_def)
  then show ?thesis by (auto simp: instance_block_def case_prod_beta)
qed

lemma blocks_of_instances:
  "blocks_of instance_block xs (fst (snd (clean_instances conn True xs s)))"
proof (induction xs arbitrary: s)
  case Nil
  then show ?case by (simp add: blocks_of_def)
next
  case (Cons x xs)
  let ?one = "clean_instance conn True x s"
  from Cons.IH[of "snd (snd ?one)"] obtain blocks
    where b: "fst (snd (clean_instances conn True xs (snd (snd ?one)))) = concat blocks"
             "list_all2 instance_block xs blocks"
    by (auto simp: blocks_of_def)
  from b instance_block_dry[of x conn s]
  have "fst (snd (clean_instances conn True (x # xs) s)) = concat (fst (snd ?one) # blocks) \<and>
        list_all2 instance_block (x # xs) (fst (snd ?one) # blocks)"
    by (simp add: case_prod_beta)
  then show ?case unfolding blocks_of_def by blast
qed

lemma router_block_dry: "router_block x (fst (snd (clean_router conn True previous x t)))"
proof (cases "fst (get_router conn (fst x) t)")
  case (Inl e)
  then show ?thesis
    by (simp add: router_block_def clean_router_def case_prod_beta)
next
  case (Inr router)
  show ?thesis
  proof (cases "fst (ports conn (ByDevice (fst x)) (snd (get_router conn (fst x) t)))")
    case (Inl e)
    with Inr show ?thesis
      by (simp add: router_block_def clean_router_def case_prod_beta report_deletion_def)
  next
    case (Inr port_list)
    have "\<exists>addrs. interface_reports port_list
             = map (\<lambda>a. Report ''Router Interface'' a WouldDelete) addrs"
    proof (induction port_list)
      case Nil
      then show ?case by (simp add: interface_reports_def)
    next
      case (Cons p ps)
      then obtain addrs where "interface_reports ps
             = map (\<lambda>a. Report ''Router Interface'' a WouldDelete) addrs" by blast
      then have "interface_reports (p # ps)
             = map (\<lambda>a. Report ''Router Interface'' a WouldDelete)
                 (map ip_address (take 1 (fixed_ips p)) @ addrs)"
        by (simp add: interface_reports_def report_deletion_def split: list.splits)
      then show ?case by blast
    qed
    then obtain addrs where a: "interface_reports port_list
             = map (\<lambda>a. Report ''Router Interface'' a WouldDelete) addrs" by blast
    from Inr \<open>fst (get_router conn (fst x) t) = Inr router\<close>
    have "fst (snd (clean_router conn True previous x t))
      = Call (GetRouter (fst x)) None # Report ''Router Gateway'' (snd x) WouldDelete
        # Call (ListPorts (ByDevice (fst x))) None
        # map (\<lambda>a. Report ''Router Interface'' a WouldDelete) addrs
        @ [Report ''ROUTER'' (snd x) WouldDelete]"
      by (simp add: clean_router_def case_prod_beta report_deletion_def a)
    then show ?thesis by (auto simp: router_block_def case_prod_beta)
  qed
qed

lemma blocks_of_routers:
  "blocks_of router_block xs (fst (clean_routers conn True previous xs s))"
proof (induction xs arbitrary: previous s)
  case Nil
  then show ?case by (simp add: blocks_of_def)
next
  case (Cons x xs)
  let ?one = "clean_router conn True previous x s"
  from Cons.IH[of "fst ?one" "snd (snd ?one)"] obtain blocks
    where b: "fst (clean_routers conn True (fst ?one) xs (snd (snd ?one))) = concat blocks"
             "list_all2 router_block xs blocks"
    by (auto simp: blocks_of_def)
  from b router_block_dry[of x conn previous s]
  have "fst (clean_routers conn True previous (x # xs) s) = concat (fst (snd ?one) # blocks) \<and>
        list_all2 router_block (x # xs) (fst (snd ?one) # blocks)"
    by (simp add: case_prod_beta)
  then show ?case unfolding blocks_of_def by blast
qed

lemma floating_ip_loop_dry:
  "fst (for_each (clean_floating_ip conn True) xs s)
     = concat (map (floating_ip_block conn) (zip xs (get_ip_states conn xs s)))"
proof (induction xs arbitrary: s)
  case Nil
  then show ?case by simp
next
  case (Cons x xs)
  obtain i name where x: "x = (i, name)" by (cases x) auto
  have st: "snd (clean_floating_ip conn True (i, name) s) = snd (get_ip conn i s)"
    by (simp add: clean_floating_ip_def delete_floating_ip_def try_call_def case_prod_beta
          split: sum.splits)
  have ev: "fst (clean_floating_ip conn True (i, name) s) = floating_ip_block conn ((i, name), s)"
    by (simp add: clean_floating_ip_def delete_floating_ip_def try_call_def case_prod_beta
          floating_ip_block_def report_deletion_def report_failure_def report_not_found_def
          report_error_def description_info_def DEFAULT_DESCRIPTION_TRUNCATE_LENGTH_def
          split: sum.splits)
  from Cons.IH[of "snd (get_ip conn i s)"] show ?case
    by (simp add: x fst_seq st ev)
qed

lemma sweep_floating_ips_dry:
  "list_all sweep_event (fst (sweep_floating_ips conn True search resources s))"
proof -
  have one: "list_all sweep_event (fst (sweep_floating_ip conn True search resources fip t))"
    for fip t
    by (simp add: sweep_floating_ip_def delete_floating_ip_def try_call_def report_deletion_def)
  have "list_all sweep_event (fst (for_each (sweep_floating_ip conn True search resources) fips t))"
    for fips t
  proof (induction fips arbitrary: t)
    case Nil
    then show ?case by simp
  next
    case (Cons f fips)
    from one[of f t] Cons.IH[of "snd (sweep_floating_ip conn True search resources f t)"]
    show ?case by (simp add: fst_seq)
  qed
  then show ?thesis
    by (simp add: sweep_floating_ips_def case_prod_beta split: sum.splits)
qed

lemma sweep_ports_dry: "list_all sweep_event (fst (sweep_ports conn True search s))"
proof -
  have one: "list_all sweep_event (fst (sweep_port conn True search port t))" for port t
    by (simp add: sweep_port_def try_call_def report_deletion_def)
  have "list_all sweep_event (fst (for_each (sweep_port conn True search) prts t))" for prts t
  proof (induction prts arbitrary: t)
    case Nil
    then show ?case by simp
  next
    case (Cons p prts)
    from one[of p t] Cons.IH[of "snd (sweep_port conn True search p t)"]
    show ?case by (simp add: fst_seq)
  qed
  then show ?thesis
    by (simp add: sweep_ports_def case_prod_beta split: sum.splits)
qed

subsection \<open>The dry run of each cleaner\<close>

lemma advanced_dry:
  "dry_run_trace conn available resources AdvancedServices s
     (fst (advanced_clean conn True available resources s))"
  by (simp add: advanced_clean_def fst_seq unprobed_loops)

lemma compute_dry:
  "dry_run_trace conn available resources Compute s (fst (compute_clean conn True resources s))"
proof -
  have "fst (compute_clean conn True resources s)
      = fst (snd (clean_instances conn True (instances resources) s))
        @ would_delete ''FLAVOR'' (flavors resources)
        @ would_delete ''KEYPAIR'' (keypairs resources)
        @ would_delete ''IMAGE'' (images resources)"
    by (simp add: compute_clean_def compute_instances_def fst_seq snd_seq case_prod_beta
          unprobed_loops)
  with blocks_of_instances[of "instances resources" conn s] show ?thesis by simp
qed

lemma storage_dry:
  "dry_run_trace conn available resources Storage s (fst (storage_clean conn True resources s))"
proof -
  let ?v = "for_each (clean_volume conn True) (volumes resources)"
  let ?p = "for_each (clean_snapshot conn True) (volume_snapshots resources)"
  have ev: "fst (storage_clean conn True resources s) = fst (?v s) @ fst (?p (snd (?v s)))"
    by (simp add: storage_clean_def fst_seq)
  have 1: "blocks_of (probed GetVolume ''VOLUME'') (volumes resources) (fst (?v s))"
    by (rule blocks_of_for_each) (rule probed_volume)
  have 2: "blocks_of (probed GetSnapshot ''VOLUME SNAPSHOT'') (volume_snapshots resources)
             (fst (?p (snd (?v s))))"
    by (rule blocks_of_for_each) (rule probed_snapshot)
  from ev 1 2 show ?thesis by auto
qed

lemma loadbalancer_dry:
  "dry_run_trace conn available resources LoadBalancer s
     (fst (loadbalancer_clean conn True monitor resources s))"
  by (simp add: loadbalancer_clean_def unprobed_loops)

lemma network_dry:
  "dry_run_trace conn available resources Network s
     (fst (network_clean conn True search resources s))"
proof -
  let ?f = "for_each (clean_floating_ip conn True) (floating_ips resources)"
  let ?w = "sweep_floating_ips conn True search resources"
  let ?p = "sweep_ports conn True search"
  let ?r = "clean_routers conn True None (routers resources)"
  let ?n = "for_each (clean_network conn True) (networks resources)"
  let ?g = "for_each (clean_sec_group conn True) (sec_groups resources)"
  let ?s1 = "snd (?f s)"
  let ?s2 = "snd (?w ?s1)"
  let ?s3 = "snd (?p ?s2)"
  let ?s4 = "snd (?r ?s3)"
  let ?s5 = "snd (?n ?s4)"
  have ev: "fst (network_clean conn True search resources s)
              = fst (?f s) @ (fst (?w ?s1) @ fst (?p ?s2)) @ fst (?r ?s3) @ fst (?n ?s4) @ fst (?g ?s5)"
    by (simp add: network_clean_def network_before_sec_groups_def clean_sec_groups_def fst_seq
          snd_seq case_prod_beta)
  have 1: "list_all sweep_event (fst (?w ?s1) @ fst (?p ?s2))"
    using sweep_floating_ips_dry[of conn search resources ?s1] sweep_ports_dry[of conn search ?s2]
    by simp
  have 2: "blocks_of router_block (routers resources) (fst (?r ?s3))"
    by (rule blocks_of_routers)
  have 3: "blocks_of (probed GetNetwork ''NETWORK'') (networks resources) (fst (?n ?s4))"
    by (rule blocks_of_for_each) (rule probed_network)
  have 4: "blocks_of (probed GetSecurityGroup ''SECURITY GROUP'') (sec_groups resources)
             (fst (?g ?s5))"
    by (rule blocks_of_for_each) (rule probed_sec_group)
  from 1 2 3 4 show ?thesis
    unfolding dry_run_trace.simps ev floating_ip_loop_dry by blast
qed

lemma cleaner_dry:
  "dry_run_trace conn available resources category s
     (fst (cleaner_clean conn True search available resources category s))"
  by (cases category)
     (simp_all only: cleaner_clean.simps advanced_dry compute_dry storage_dry loadbalancer_dry
        network_dry)

lemma run_cleaners_threaded:
  "map snd (fst (run_cleaners clean cs s))
     = concat (map (\<lambda>(c, t). fst (clean c t)) (zip cs (start_states clean cs s)))"
  by (induction cs arbitrary: s) (simp_all add: case_prod_beta o_def)

text \<open>
  C3, as the code has it. In a dry run a volume is probed with \<open>get_volume\<close>; when the
  probe raises not-found the volume is reported as not found, not as would-delete. A Heat
  stack of the inventory is not reported at all when the Heat service is not available.
  The same holds for every kind the dry run probes: an instance, a volume, a snapshot, a
  floating IP, a router (whether \<open>get_router\<close> or the listing of its ports raises), a
  network and a security group are reported as not found when their probe raises a
  not-found error.
\<close>

theorem dry_run_failed_probe_counterexample:
  "fst (openstack_clean
          (scripted_conn (\<lambda>c n. if c = GetVolume ''v1'' then Some missing else None) [] [])
          True search_test_prefix \<lparr>dns = False, heat = False\<rparr>
          (no_resources\<lparr>volumes := [(''v1'', ''test-vol'')]\<rparr>) 0)
   = [(Storage, Call (GetVolume ''v1'') (Some missing)),
      (Storage, Report ''VOLUME'' ''test-vol'' AlreadyGone),
      (Network, Call ListIps None), (Network, Call (ListPorts AllPorts) None)] \<and>
   Report ''VOLUME'' ''test-vol'' WouldDelete
     \<notin> set (run_events
         (scripted_conn (\<lambda>c n. if c = GetVolume ''v1'' then Some missing else None) [] [])
         True search_test_prefix \<lparr>dns = False, heat = False\<rparr>
         (no_resources\<lparr>volumes := [(''v1'', ''test-vol'')]\<rparr>) 0) \<and>
   fst (openstack_clean (scripted_conn (\<lambda>c n. None) [] [])
          True search_test_prefix \<lparr>dns = True, heat = False\<rparr>
          (no_resources\<lparr>heat_stacks := [(''s1'', ''test-stack'')]\<rparr>) 0)
   = [(Network, Call ListIps None), (Network, Call (ListPorts AllPorts) None)] \<and>
   run_events (scripted_conn probes_raise [fip_on_router] []) True search_test_prefix
     \<lparr>dns = False, heat = False\<rparr> probed_sample 0
   = [Call (GetServer ''i1'') (Some missing), Report ''INSTANCE'' ''test-vm'' AlreadyGone,
      Call (GetVolume ''v1'') (Some missing), Report ''VOLUME'' ''test-vol'' AlreadyGone,
      Call (GetSnapshot ''p1'') (Some missing),
      Report ''VOLUME SNAPSHOT'' ''test-snap'' AlreadyGone,
      Call (GetIp ''f1'') (Some missing), Report ''FLOATING IP'' ''203.0.113.7'' AlreadyGone,
      Call ListIps None, Call (ListPorts AllPorts) None,
      Call (GetRouter ''r1'') (Some missing), Report ''ROUTER'' ''test-router'' AlreadyGone,
      Call (GetRouter ''r2'') None, Report ''Router Gateway'' ''test-router-2'' WouldDelete,
      Call (ListPorts (ByDevice ''r2'')) (Some missing),
      Report ''ROUTER'' ''test-router-2'' AlreadyGone,
      Call (GetNetwork ''n1'') (Some missing), Report ''NETWORK'' ''test-net'' AlreadyGone,
      Call (GetSecurityGroup ''sg1'') (Some missing),
      Report ''SECURITY GROUP'' ''test-sg'' AlreadyGone]"
  by code_simp

text \<open>
  C3, amended. In a dry run no call of any cleaner is a mutating one. The events of the run
  are those of the five cleaners, each started in the state its predecessor left. Every
  cleaner enumerates the inventory entry by entry, in the order of the dictionaries:
  flavors, keypairs, images, load balancers and, when their service is available, Heat
  stacks and DNS zones are reported would-delete without a call; an instance, a volume, a
  snapshot, a router, a network or a security group has a block of events that starts with
  its read-only call (\<open>get_server\<close>, \<open>get_volume\<close>, \<open>get_snapshot\<close>, \<open>get_router\<close>,
  \<open>get_network\<close>, \<open>get_security_group\<close>) and, when that call (and for a router the
  listing of its ports) returns normally, ends with the would-delete report of the entry;
  a floating IP is fetched with \<open>get_ip\<close> and, when the fetch returns normally, reported
  would-delete under the address fetched.
\<close>

theorem dry_run_never_mutates:
  "list_all (\<lambda>c. \<not> mutating c) (run_calls conn True search available resources s) \<and>
   run_events conn True search available resources s
     = concat (map (\<lambda>(category, t).
                      fst (cleaner_clean conn True search available resources category t))
                 (zip cleaner_types
                    (start_states (cleaner_clean conn True search available resources)
                       cleaner_types s))) \<and>
   dry_run_trace conn available resources category t
     (fst (cleaner_clean conn True search available resources category t))"
proof -
  have "run_events conn True search available resources s
     = concat (map (\<lambda>(category, t).
                      fst (cleaner_clean conn True search available resources category t))
                 (zip cleaner_types
                    (start_states (cleaner_clean conn True search available resources)
                       cleaner_types s)))"
    unfolding run_events_def openstack_clean_def by (rule run_cleaners_threaded)
  with dry_run_reads_only[of conn search available resources s]
       cleaner_dry[of conn available resources category t search]
  show ?thesis by simp
qed

theorem dry_run_never_mutates_witness:
  "list_all (\<lambda>c. \<not> mutating c)
     (run_calls calm_conn True search_test_prefix \<lparr>dns = False, heat = False\<rparr> dry_sample 0) \<and>
   run_calls calm_conn True search_test_prefix \<lparr>dns = False, heat = False\<rparr> dry_sample 0
     = [GetServer ''i1'', GetVolume ''v1'', GetIp ''f1'', ListIps, ListPorts AllPorts,
        GetRouter ''r1'', ListPorts (ByDevice ''r1''), GetSecurityGroup ''sg1''] \<and>
   run_events calm_conn True search_test_prefix \<lparr>dns = False, heat = False\<rparr> dry_sample 0
     = [Call (GetServer ''i1'') None, Report ''FLOATING IP'' ''203.0.113.7'' WouldDelete,
        Report ''INSTANCE'' ''test-vm'' WouldDelete, Report ''KEYPAIR'' ''test-kp'' WouldDelete,
        Call (GetVolume ''v1'') None, Report ''VOLUME'' ''test-vol'' WouldDelete,
        Call (GetIp ''f1'') None, Report ''FLOATING IP'' ''203.0.113.7'' WouldDelete,
        Call ListIps None, Call (ListPorts AllPorts) None,
        Call (GetRouter ''r1'') None, Report ''Router Gateway'' ''test-router'' WouldDelete,
        Call (ListPorts (ByDevice ''r1'')) None,
        Report ''Router Interface'' ''10.0.0.1'' WouldDelete,
        Report ''ROUTER'' ''test-router'' WouldDelete,
        Call (GetSecurityGroup ''sg1'') None,
        Report ''SECURITY GROUP'' ''test-sg'' WouldDelete] \<and>
   dry_run_trace calm_conn \<lparr>dns = False, heat = False\<rparr> dry_sample Storage 1
     [Call (GetVolume ''v1'') None, Report ''VOLUME'' ''test-vol'' WouldDelete] \<and>
   dry_run_trace calm_conn \<lparr>dns = False, heat = False\<rparr> dry_sample Network 2
     [Call (GetIp ''f1'') None, Report ''FLOATING IP'' ''203.0.113.7'' WouldDelete,
      Call ListIps None, Call (ListPorts AllPorts) None,
      Call (GetRouter ''r1'') None, Report ''Router Gateway'' ''test-router'' WouldDelete,
      Call (ListPorts (ByDevice ''r1'')) None,
      Report ''Router Interface'' ''10.0.0.1'' WouldDelete,
      Report ''ROUTER'' ''test-router'' WouldDelete,
      Call (GetSecurityGroup ''sg1'') None,
      Report ''SECURITY GROUP'' ''test-sg'' WouldDelete]"
proof -
  let ?av = "\<lparr>dns = False, heat = False\<rparr>"
  have calls: "run_calls calm_conn True search_test_prefix ?av dry_sample 0
     = [GetServer ''i1'', GetVolume ''v1'', GetIp ''f1'', ListIps, ListPorts AllPorts,
        GetRouter ''r1'', ListPorts (ByDevice ''r1''), GetSecurityGroup ''sg1'']"
    by code_simp
  have events: "run_events calm_conn True search_test_prefix ?av dry_sample 0
     = [Call (GetServer ''i1'') None, Report ''FLOATING IP'' ''203.0.113.7'' WouldDelete,
        Report ''INSTANCE'' ''test-vm'' WouldDelete, Report ''KEYPAIR'' ''test-kp'' WouldDelete,
        Call (GetVolume ''v1'') None, Report ''VOLUME'' ''test-vol'' WouldDelete,
        Call (GetIp ''f1'') None, Report ''FLOATING IP'' ''203.0.113.7'' WouldDelete,
        Call ListIps None, Call (ListPorts AllPorts) None,
        Call (GetRouter ''r1'') None, Report ''Router Gateway'' ''test-router'' WouldDelete,
        Call (ListPorts (ByDevice ''r1'')) None,
        Report ''Router Interface'' ''10.0.0.1'' WouldDelete,
        Report ''ROUTER'' ''test-router'' WouldDelete,
        Call (GetSecurityGroup ''sg1'') None,
        Report ''SECURITY GROUP'' ''test-sg'' WouldDelete]"
    by code_simp
  have storage: "fst (cleaner_clean calm_conn True search_test_prefix ?av dry_sample Storage 1)
     = [Call (GetVolume ''v1'') None, Report ''VOLUME'' ''test-vol'' WouldDelete]"
    by code_simp
  have network: "fst (cleaner_clean calm_conn True search_test_prefix ?av dry_sample Network 2)
     = [Call (GetIp ''f1'') None, Report ''FLOATING IP'' ''203.0.113.7'' WouldDelete,
        Call ListIps None, Call (ListPorts AllPorts) None,
        Call (GetRouter ''r1'') None, Report ''Router Gateway'' ''test-router'' WouldDelete,
        Call (ListPorts (ByDevice ''r1'')) None,
        Report ''Router Interface'' ''10.0.0.1'' WouldDelete,
        Report ''ROUTER'' ''test-router'' WouldDelete,
        Call (GetSecurityGroup ''sg1'') None,
        Report ''SECURITY GROUP'' ''test-sg'' WouldDelete]"
    by code_simp
  from dry_run_never_mutates[of calm_conn search_test_prefix ?av dry_sample 0 Storage 1]
  have 1: "list_all (\<lambda>c. \<not> mutating c)
             (run_calls calm_conn True search_test_prefix ?av dry_sample 0)"
    and 2: "dry_run_trace calm_conn ?av dry_sample Storage 1
              (fst (cleaner_clean calm_conn True search_test_prefix ?av dry_sample Storage 1))"
    by blast+
  from dry_run_never_mutates[of calm_conn search_test_prefix ?av dry_sample 0 Network 2]
  have 3: "dry_run_trace calm_conn ?av dry_sample Network 2
              (fst (cleaner_clean calm_conn True search_test_prefix ?av dry_sample Network 2))"
    by blast
  from 1 calls events 2[unfolded storage] 3[unfolded network] show ?thesis
    by (intro conjI)
qed


end
